(* ===== verification/Prelude.thy ===== *)
theory Prelude
  imports Main "HOL-Library.Word" "HOL-Library.Multiset" "HOL-Library.Monad_Syntax"
begin

text \<open>
  Shared vocabulary of the development: the widths of the C integers, the error numbers of
  the kernel code, C arrays whose out-of-range accesses are undefined behaviour
  (\<^const>\<open>None\<close>), checked signed arithmetic, and the generic lemmas on lists, options and
  words that the component theories use.

  \<^item> \<open>c_simps\<close> collects the evaluation rules of array accesses and checked arithmetic;
  \<^item> \<open>kstate\<close> collects the unfolding rules of state-passing operations.
\<close>

named_theorems c_simps \<open>evaluation of C array accesses and checked arithmetic\<close>
named_theorems kstate \<open>unfolding of state-passing operations\<close>

type_synonym u8 = "8 word"
type_synonym u16 = "16 word"
type_synonym u32 = "32 word"
type_synonym u64 = "64 word"

subsection \<open>Error numbers\<close>

text \<open>The values of the Linux error numbers the sources return.\<close>

abbreviation (input) EPERM :: int where "EPERM \<equiv> 1"
abbreviation (input) ESRCH :: int where "ESRCH \<equiv> 3"
abbreviation (input) EAGAIN :: int where "EAGAIN \<equiv> 11"
abbreviation (input) ENOMEM :: int where "ENOMEM \<equiv> 12"
abbreviation (input) EACCES :: int where "EACCES \<equiv> 13"
abbreviation (input) EFAULT :: int where "EFAULT \<equiv> 14"
abbreviation (input) EINVAL :: int where "EINVAL \<equiv> 22"
abbreviation (input) EDESTADDRREQ :: int where "EDESTADDRREQ \<equiv> 89"

subsection \<open>Undefined behaviour as \<^const>\<open>None\<close>\<close>

text \<open>
  A C array is the list of its elements. Reading or writing outside it is undefined
  behaviour and yields \<^const>\<open>None\<close>; so does a signed computation that leaves the range of
  a 32-bit \<^verbatim>\<open>int\<close>. A theorem that a function returns \<^const>\<open>Some\<close> therefore also says that it
  commits neither.
\<close>

definition c_read :: "'a list \<Rightarrow> int \<Rightarrow> 'a option" where
  "c_read xs i = (if 0 \<le> i \<and> i < int (length xs) then Some (xs ! nat i) else None)"

definition c_write :: "'a list \<Rightarrow> int \<Rightarrow> 'a \<Rightarrow> 'a list option" where
  "c_write xs i v = (if 0 \<le> i \<and> i < int (length xs) then Some (xs[nat i := v]) else None)"

definition c_int :: "int \<Rightarrow> int option" where
  "c_int x = (if - (2 ^ 31) \<le> x \<and> x < 2 ^ 31 then Some x else None)"

lemma c_read_nat [c_simps]: "i < length xs \<Longrightarrow> c_read xs (int i) = Some (xs ! i)"
  by (simp add: c_read_def)

lemma c_write_nat [c_simps]: "i < length xs \<Longrightarrow> c_write xs (int i) v = Some (xs[i := v])"
  by (simp add: c_write_def)

lemma c_int_ok [c_simps]: "- 2147483648 \<le> x \<Longrightarrow> x < 2147483648 \<Longrightarrow> c_int x = Some x"
  by (simp add: c_int_def)

lemma c_int_SomeD: "c_int x = Some y \<Longrightarrow> y = x \<and> - 2147483648 \<le> x \<and> x < 2147483648"
  by (auto simp: c_int_def split: if_splits)

subsection \<open>Lists\<close>

lemma take_Suc_update: "k < length xs \<Longrightarrow> take (Suc k) (xs[k := v]) = take k xs @ [v]"
  by (simp add: take_Suc_conv_app_nth)

lemma drop_slice_split:
  "a \<le> b \<Longrightarrow> b \<le> length xs \<Longrightarrow> drop a xs = take (b - a) (drop a xs) @ drop b xs"
  by (metis append_take_drop_id drop_drop le_add_diff_inverse2)

subsection \<open>Words\<close>

lemma unat_bound: "unat (w :: 'w::len word) < 2 ^ LENGTH('w)"
  by (rule unsigned_less)

lemma take_bit_unat [simp]: "take_bit LENGTH('w) (unat (w :: 'w::len word)) = unat w"
  by (simp add: take_bit_nat_eq_self_iff)

end
