(* ===== verification/MergeSort.thy ===== *)
theory MergeSort
  imports Prelude
begin

text \<open>
  The in-place merge sort behind the added system call (\<^verbatim>\<open>src/HW2/Ques5/sys.c\<close>,
  \<^verbatim>\<open>mergeSort\<close>). The array is the list of its elements, every index is a C \<^verbatim>\<open>int\<close>, and the
  two variable-length arrays start uninitialised (\<^const>\<open>None\<close> in every cell). An access
  outside an array, a read of an uninitialised cell and a signed overflow are undefined
  behaviour and make the result \<^const>\<open>None\<close>.

  The lemmas show that each loop terminates and computes its part of the merge, and that the
  whole recursion sorts exactly the slice from \<open>l\<close> to \<open>r\<close>.
\<close>

subsection \<open>The code\<close>

definition vla :: "int \<Rightarrow> 'a option list option" where
  "vla n = (if 0 < n then Some (replicate (nat n) None) else None)"

definition vla_read :: "'a option list \<Rightarrow> int \<Rightarrow> 'a option" where
  "vla_read A i = Option.bind (c_read A i) (\<lambda>c. c)"

text \<open>\<^verbatim>\<open>for (i = 0; i < n1; i++) L[i] = arr[l + i];\<close> and the same loop for \<^verbatim>\<open>R\<close>.\<close>

function copy_loop :: "int list \<Rightarrow> int \<Rightarrow> int \<Rightarrow> int \<Rightarrow> int option list \<Rightarrow> int option list option"
  where
  "copy_loop arr base n i T =
     (if i < n then do {
        a \<leftarrow> c_int (base + i);
        v \<leftarrow> c_read arr a;
        T' \<leftarrow> c_write T i (Some v);
        copy_loop arr base n (i + 1) T'
      } else Some T)"
  by pat_completeness auto
termination
  by (relation "measure (\<lambda>(arr, base, n, i, T). nat (n - i))") auto

text \<open>\<^verbatim>\<open>while (i < n1 && j < n2)\<close>: the loop that picks the smaller head.\<close>

function merge_loop ::
  "int list \<Rightarrow> int option list \<Rightarrow> int option list \<Rightarrow> int \<Rightarrow> int \<Rightarrow> int \<Rightarrow> int \<Rightarrow> int
     \<Rightarrow> (int list \<times> int \<times> int \<times> int) option" where
  "merge_loop arr L R n1 n2 i j k =
     (if i < n1 \<and> j < n2 then do {
        x \<leftarrow> vla_read L i;
        y \<leftarrow> vla_read R j;
        k' \<leftarrow> c_int (k + 1);
        if x \<le> y then do {
          arr' \<leftarrow> c_write arr k x;
          merge_loop arr' L R n1 n2 (i + 1) j k'
        } else do {
          arr' \<leftarrow> c_write arr k y;
          merge_loop arr' L R n1 n2 i (j + 1) k'
        }
      } else Some (arr, i, j, k))"
  by pat_completeness auto
termination
  by (relation "measure (\<lambda>(arr, L, R, n1, n2, i, j, k). nat (n1 - i) + nat (n2 - j))") auto

text \<open>\<^verbatim>\<open>while (i < n1)\<close> and \<^verbatim>\<open>while (j < n2)\<close>: the loops that copy what is left.\<close>

function rest_loop ::
  "int list \<Rightarrow> int option list \<Rightarrow> int \<Rightarrow> int \<Rightarrow> int \<Rightarrow> (int list \<times> int) option" where
  "rest_loop arr T n i k =
     (if i < n then do {
        x \<leftarrow> vla_read T i;
        arr' \<leftarrow> c_write arr k x;
        k' \<leftarrow> c_int (k + 1);
        rest_loop arr' T n (i + 1) k'
      } else Some (arr, k))"
  by pat_completeness auto
termination
  by (relation "measure (\<lambda>(arr, T, n, i, k). nat (n - i))") auto

declare copy_loop.simps [simp del] merge_loop.simps [simp del] rest_loop.simps [simp del]

text \<open>Everything after the two recursive calls.\<close>

definition merge_halves :: "int list \<Rightarrow> int \<Rightarrow> int \<Rightarrow> int \<Rightarrow> int list option" where
  "merge_halves arr l m r = do {
     n1 \<leftarrow> c_int (m - l + 1);
     n2 \<leftarrow> c_int (r - m);
     L0 \<leftarrow> vla n1;
     R0 \<leftarrow> vla n2;
     L \<leftarrow> copy_loop arr l n1 0 L0;
     m1 \<leftarrow> c_int (m + 1);
     R \<leftarrow> copy_loop arr m1 n2 0 R0;
     (arr1, i, j, k) \<leftarrow> merge_loop arr L R n1 n2 0 0 l;
     (arr2, k2) \<leftarrow> rest_loop arr1 L n1 i k;
     (arr3, k3) \<leftarrow> rest_loop arr2 R n2 j k2;
     Some arr3
   }"

function mergeSort :: "int list \<Rightarrow> int \<Rightarrow> int \<Rightarrow> int list option" where
  "mergeSort arr l r =
     (if l < r then do {
        d \<leftarrow> c_int (r - l);
        m \<leftarrow> c_int (l + d div 2);
        arr1 \<leftarrow> mergeSort arr l m;
        arr2 \<leftarrow> mergeSort arr1 (m + 1) r;
        merge_halves arr2 l m r
      } else Some arr)"
  by pat_completeness auto
termination
  by (relation "measure (\<lambda>(arr, l, r). nat (r - l))") (auto dest!: c_int_SomeD)

declare mergeSort.simps [simp del]

subsection \<open>Reference definitions\<close>

fun merge :: "int list \<Rightarrow> int list \<Rightarrow> int list" where
  "merge [] ys = ys"
| "merge xs [] = xs"
| "merge (x # xs) (y # ys) =
     (if x \<le> y then x # merge xs (y # ys) else y # merge (x # xs) ys)"

lemma merge_Nil2 [simp]: "merge xs [] = xs"
  by (cases xs) auto

lemma mset_merge: "mset (merge xs ys) = mset xs + mset ys"
  by (induction xs ys rule: merge.induct) auto

lemma set_merge: "set (merge xs ys) = set xs \<union> set ys"
  by (metis mset_merge set_mset_mset set_mset_union)

lemma length_merge [simp]: "length (merge xs ys) = length xs + length ys"
  by (metis mset_merge size_mset size_union)

lemma sorted_merge: "sorted xs \<Longrightarrow> sorted ys \<Longrightarrow> sorted (merge xs ys)"
  by (induction xs ys rule: merge.induct) (auto simp: set_merge)

lemma merge_sort_halves: "merge (sort xs) (sort ys) = sort (xs @ ys)"
  by (rule properties_for_sort [symmetric]) (simp_all add: mset_merge sorted_merge)

text \<open>The slice \<^verbatim>\<open>arr[a..<b]\<close> and its replacement by a list of the same length.\<close>

definition seg :: "'a list \<Rightarrow> nat \<Rightarrow> nat \<Rightarrow> 'a list" where
  "seg xs a b = take (b - a) (drop a xs)"

definition put_seg :: "'a list \<Rightarrow> nat \<Rightarrow> 'a list \<Rightarrow> 'a list" where
  "put_seg xs a ys = take a xs @ ys @ drop (a + length ys) xs"

lemma length_seg [simp]: "b \<le> length xs \<Longrightarrow> length (seg xs a b) = b - a"
  by (simp add: seg_def)

lemma length_put_seg [simp]: "a + length ys \<le> length xs \<Longrightarrow> length (put_seg xs a ys) = length xs"
  by (simp add: put_seg_def)

lemma put_seg_Nil [simp]: "put_seg xs a [] = xs"
  by (simp add: put_seg_def)

lemma put_seg_seg_id: "a \<le> b \<Longrightarrow> b \<le> length xs \<Longrightarrow> put_seg xs a (seg xs a b) = xs"
  using drop_slice_split [of a b xs] by (simp add: put_seg_def seg_def)

lemma put_seg_Cons: "k + length ys < length xs \<Longrightarrow>
    put_seg (xs[k := v]) (Suc k) ys = put_seg xs k (v # ys)"
  by (simp add: put_seg_def take_Suc_update)

lemma put_seg_append:
  "a + length xs + length ys \<le> length zs \<Longrightarrow>
    put_seg (put_seg zs a xs) (a + length xs) ys = put_seg zs a (xs @ ys)"
  by (simp add: put_seg_def add.commute add.left_commute)

lemma seg_put_seg_right:
  "a + length ys \<le> length xs \<Longrightarrow> seg (put_seg xs a ys) (a + length ys) b = seg xs (a + length ys) b"
  by (simp add: put_seg_def seg_def)

lemma seg_put_seg_self:
  "a + length ys \<le> length xs \<Longrightarrow> seg (put_seg xs a ys) a (a + length ys) = ys"
  by (simp add: put_seg_def seg_def)

lemma seg_split:
  assumes "a \<le> b" and "b \<le> c"
  shows "seg xs a c = seg xs a b @ seg xs b c"
proof -
  have "c - a = (b - a) + (c - b)" using assms by simp
  then have "take (c - a) (drop a xs) = take (b - a) (drop a xs) @ take (c - b) (drop (b - a) (drop a xs))"
    by (simp only: take_add)
  then show ?thesis using assms by (simp add: seg_def)
qed

subsection \<open>The loops\<close>

lemma vla_read_map_Some [c_simps]: "i < length xs \<Longrightarrow> vla_read (map Some xs) (int i) = Some (xs ! i)"
  by (simp add: vla_read_def c_simps)

text \<open>The copying loop fills the temporary array with the slice it is asked for.\<close>

lemma copy_loop_correct:
  assumes "base + n \<le> length arr" and "length arr < 2147483648"
    and "i \<le> n" and "length T = n" and "take i T = map Some (seg arr base (base + i))"
  shows "copy_loop arr (int base) (int n) (int i) T = Some (map Some (seg arr base (base + n)))"
  using assms(3-5)
proof (induction "n - i" arbitrary: i T)
  case 0
  then show ?case by (subst copy_loop.simps) simp
next
  case (Suc d)
  then have i: "i < n" by simp
  let ?T = "T[i := Some (arr ! (base + i))]"
  have "take (Suc i) ?T = map Some (seg arr base (base + Suc i))"
    using i Suc.prems assms(1)
    by (simp add: take_Suc_update) (simp add: seg_def take_Suc_conv_app_nth)
  then have "copy_loop arr (int base) (int n) (int (Suc i)) ?T = Some (map Some (seg arr base (base + n)))"
    using Suc.hyps(2) Suc.prems i by (intro Suc.hyps(1)) auto
  moreover have "c_read arr (int base + int i) = Some (arr ! (base + i))"
    using i assms(1) c_read_nat [of "base + i" arr] by simp
  moreover have "c_int (int base + int i) = Some (int base + int i)"
    using i assms(1,2) by (intro c_int_ok) auto
  moreover have "c_write T (int i) (Some (arr ! (base + i))) = Some ?T"
    using i Suc.prems by (simp add: c_simps)
  ultimately show ?case using i by (subst copy_loop.simps) (simp add: add.commute)
qed

lemma copy_loop_whole:
  assumes "base + n \<le> length arr" and "length arr < 2147483648"
  shows "copy_loop arr (int base) (int n) 0 (replicate n None)
           = Some (map Some (seg arr base (base + n)))"
  using copy_loop_correct [OF assms, of 0 "replicate n None"] by (simp add: seg_def)

text \<open>The loop for the leftovers appends them.\<close>

lemma rest_loop_correct:
  assumes "length arr < 2147483648" and "i \<le> length xs" and "k + (length xs - i) \<le> length arr"
  shows "rest_loop arr (map Some xs) (int (length xs)) (int i) (int k)
           = Some (put_seg arr k (drop i xs), int (k + (length xs - i)))"
  using assms
proof (induction "length xs - i" arbitrary: i k arr)
  case 0
  then show ?case by (subst rest_loop.simps) simp
next
  case (Suc d)
  then have i: "i < length xs" and k: "k < length arr" by auto
  have IH: "rest_loop (arr[k := xs ! i]) (map Some xs) (int (length xs)) (int (Suc i)) (int (Suc k))
      = Some (put_seg (arr[k := xs ! i]) (Suc k) (drop (Suc i) xs), int (Suc k + (length xs - Suc i)))"
    using Suc.hyps(2) Suc.prems i by (intro Suc.hyps(1)) auto
  have "put_seg (arr[k := xs ! i]) (Suc k) (drop (Suc i) xs) = put_seg arr k (drop i xs)"
    using i Suc.prems by (subst put_seg_Cons) (auto simp: Cons_nth_drop_Suc)
  moreover have "c_int (int k + 1) = Some (int (Suc k))"
    using k Suc.prems(1) by (simp add: c_int_ok)
  ultimately show ?case
    using i k IH by (subst rest_loop.simps) (simp add: c_simps add.commute)
qed

text \<open>The three loops together write the merge of the two temporary arrays.\<close>

definition merge_phase ::
  "int list \<Rightarrow> int option list \<Rightarrow> int option list \<Rightarrow> int \<Rightarrow> int \<Rightarrow> int \<Rightarrow> int \<Rightarrow> int
     \<Rightarrow> int list option" where
  "merge_phase arr L R n1 n2 i j k = do {
     (arr1, i, j, k) \<leftarrow> merge_loop arr L R n1 n2 i j k;
     (arr2, k2) \<leftarrow> rest_loop arr1 L n1 i k;
     (arr3, k3) \<leftarrow> rest_loop arr2 R n2 j k2;
     Some arr3
   }"

lemma merge_phase_step:
  "i < n1 \<Longrightarrow> j < n2 \<Longrightarrow> vla_read L i = Some x \<Longrightarrow> vla_read R j = Some y \<Longrightarrow>
   c_int (k + 1) = Some k' \<Longrightarrow> c_write arr k (if x \<le> y then x else y) = Some arr' \<Longrightarrow>
   merge_phase arr L R n1 n2 i j k =
     merge_phase arr' L R n1 n2 (if x \<le> y then i + 1 else i) (if x \<le> y then j else j + 1) k'"
  by (cases "x \<le> y") (simp_all add: merge_phase_def merge_loop.simps [of arr L R n1 n2 i j k])

lemma merge_drop_step:
  "i < length xs \<Longrightarrow> j < length ys \<Longrightarrow>
   merge (drop i xs) (drop j ys) =
     (if xs ! i \<le> ys ! j then xs ! i # merge (drop (Suc i) xs) (drop j ys)
      else ys ! j # merge (drop i xs) (drop (Suc j) ys))"
  by (simp flip: Cons_nth_drop_Suc)

lemma merge_phase_done:
  assumes "length arr < 2147483648" and "i \<le> length xs" and "j \<le> length ys"
    and "i = length xs \<or> j = length ys"
    and "k + (length xs - i) + (length ys - j) \<le> length arr"
  shows "merge_phase arr (map Some xs) (map Some ys) (int (length xs)) (int (length ys))
           (int i) (int j) (int k) = Some (put_seg arr k (merge (drop i xs) (drop j ys)))"
proof -
  let ?a = "put_seg arr k (drop i xs)"
  have "merge_loop arr (map Some xs) (map Some ys) (int (length xs)) (int (length ys)) (int i) (int j) (int k)
      = Some (arr, int i, int j, int k)"
    using assms(2-4) by (subst merge_loop.simps) auto
  moreover have "rest_loop arr (map Some xs) (int (length xs)) (int i) (int k)
      = Some (?a, int (k + (length xs - i)))"
    using assms by (intro rest_loop_correct) auto
  moreover have "rest_loop ?a (map Some ys) (int (length ys)) (int j) (int (k + (length xs - i)))
      = Some (put_seg ?a (k + (length xs - i)) (drop j ys), int (k + (length xs - i) + (length ys - j)))"
    using assms by (intro rest_loop_correct) auto
  moreover have "put_seg ?a (k + (length xs - i)) (drop j ys) = put_seg arr k (drop i xs @ drop j ys)"
    using assms put_seg_append [of k "drop i xs" "drop j ys" arr] by simp
  moreover have "drop i xs @ drop j ys = merge (drop i xs) (drop j ys)"
    using assms(4) by auto
  ultimately show ?thesis by (simp add: merge_phase_def)
qed

lemma merge_phase_correct:
  assumes "length arr < 2147483648" and "i \<le> length xs" and "j \<le> length ys"
    and "k + (length xs - i) + (length ys - j) \<le> length arr"
  shows "merge_phase arr (map Some xs) (map Some ys) (int (length xs)) (int (length ys))
           (int i) (int j) (int k) = Some (put_seg arr k (merge (drop i xs) (drop j ys)))"
  using assms
proof (induction "(length xs - i) + (length ys - j)" arbitrary: i j k arr rule: less_induct)
  case less
  show ?case
  proof (cases "i = length xs \<or> j = length ys")
    case True
    with less.prems show ?thesis by (intro merge_phase_done) auto
  next
    case False
    then have ij: "i < length xs" "j < length ys" and k: "k < length arr"
      using less.prems by auto
    define v where "v = (if xs ! i \<le> ys ! j then xs ! i else ys ! j)"
    define i' where "i' = (if xs ! i \<le> ys ! j then Suc i else i)"
    define j' where "j' = (if xs ! i \<le> ys ! j then j else Suc j)"
    let ?P = "\<lambda>a i j k. merge_phase a (map Some xs) (map Some ys) (int (length xs)) (int (length ys))
       (int i) (int j) (int k)"
    have "c_int (int k + 1) = Some (int (Suc k))"
      using k less.prems(1) by (simp add: c_int_ok)
    then have step: "?P arr i j k = ?P (arr[k := v]) i' j' (Suc k)"
      using ij k by (subst merge_phase_step) (auto simp: c_simps v_def i'_def j'_def add.commute)
    have "?P (arr[k := v]) i' j' (Suc k) = Some (put_seg (arr[k := v]) (Suc k) (merge (drop i' xs) (drop j' ys)))"
      using ij less.prems by (intro less.hyps) (auto simp: i'_def j'_def)
    also have "put_seg (arr[k := v]) (Suc k) (merge (drop i' xs) (drop j' ys))
        = put_seg arr k (v # merge (drop i' xs) (drop j' ys))"
      using ij less.prems by (intro put_seg_Cons) (auto simp: i'_def j'_def)
    also have "v # merge (drop i' xs) (drop j' ys) = merge (drop i xs) (drop j ys)"
      by (simp add: merge_drop_step [OF ij] v_def i'_def j'_def)
    finally show ?thesis using step by simp
  qed
qed

lemma merge_halves_correct:
  assumes "l \<le> m" and "m < r" and "r < length arr" and "length arr < 2147483648"
  shows "merge_halves arr (int l) (int m) (int r) =
     Some (put_seg arr l (merge (seg arr l (Suc m)) (seg arr (Suc m) (Suc r))))"
proof -
  let ?n1 = "Suc m - l" and ?n2 = "r - m"
  let ?L = "seg arr l (Suc m)" and ?R = "seg arr (Suc m) (Suc r)"
  have n: "c_int (int m - int l + 1) = Some (int ?n1)" "c_int (int r - int m) = Some (int ?n2)"
    "c_int (int m + 1) = Some (int (Suc m))"
    using assms by (auto simp: c_int_def of_nat_diff)
  have v: "vla (int ?n1) = Some (replicate ?n1 None)" "vla (int ?n2) = Some (replicate ?n2 None)"
    using assms by (auto simp: vla_def)
  have c: "copy_loop arr (int l) (int ?n1) 0 (replicate ?n1 None) = Some (map Some ?L)"
    "copy_loop arr (int (Suc m)) (int ?n2) 0 (replicate ?n2 None) = Some (map Some ?R)"
    using assms copy_loop_whole [of l ?n1 arr] copy_loop_whole [of "Suc m" ?n2 arr] by auto
  have "merge_phase arr (map Some ?L) (map Some ?R) (int (length ?L)) (int (length ?R)) (int 0) (int 0) (int l)
      = Some (put_seg arr l (merge (drop 0 ?L) (drop 0 ?R)))"
    using assms by (intro merge_phase_correct) auto
  moreover have "length ?L = ?n1" "length ?R = ?n2" using assms by auto
  ultimately have p: "merge_phase arr (map Some ?L) (map Some ?R) (int ?n1) (int ?n2) 0 0 (int l)
      = Some (put_seg arr l (merge ?L ?R))" by simp
  show ?thesis
    using p unfolding merge_halves_def by (simp only: n v c Option.bind.simps merge_phase_def)
qed

subsection \<open>The recursion\<close>

lemma mergeSort_seg:
  assumes "r < length arr" and "length arr < 2147483648"
  shows "mergeSort arr (int l) (int r) = Some (put_seg arr l (sort (seg arr l (Suc r))))"
  using assms
proof (induction "r - l" arbitrary: l r arr rule: less_induct)
  case less
  show ?case
  proof (cases "l < r")
    case False
    have "sort (seg arr l (Suc r)) = seg arr l (Suc r)"
      using False less.prems(1) by (cases "l = r") (auto simp: seg_def take_Suc_conv_app_nth)
    moreover have "put_seg arr l (seg arr l (Suc r)) = arr"
      using False less.prems(1) put_seg_seg_id [of l "Suc r" arr]
      by (cases "l = r") (auto simp: seg_def)
    ultimately show ?thesis using False by (subst mergeSort.simps) simp
  next
    case True
    define m where "m = l + (r - l) div 2"
    have m: "l \<le> m" "m < r" using True by (auto simp: m_def)
    let ?A = "sort (seg arr l (Suc m))" and ?B = "sort (seg arr (Suc m) (Suc r))"
    let ?arr1 = "put_seg arr l ?A" and ?arr2 = "put_seg arr l (?A @ ?B)"
    have len: "length ?A = Suc m - l" "length ?B = r - m"
      using m less.prems(1) by auto
    have d: "c_int (int r - int l) = Some (int (r - l))" "c_int (int l + int (r - l) div 2) = Some (int m)"
      using True less.prems by (auto simp: c_int_def m_def of_nat_div)
    have "mergeSort arr (int l) (int m) = Some ?arr1"
      using m less.prems by (intro less.hyps) auto
    moreover have "mergeSort ?arr1 (int (Suc m)) (int r) = Some (put_seg ?arr1 (Suc m) (sort (seg ?arr1 (Suc m) (Suc r))))"
      using m less.prems len by (intro less.hyps) auto
    moreover have "seg ?arr1 (Suc m) (Suc r) = seg arr (Suc m) (Suc r)"
      using seg_put_seg_right [of l ?A arr "Suc r"] m less.prems len by simp
    moreover have "put_seg ?arr1 (Suc m) ?B = ?arr2"
      using put_seg_append [of l ?A ?B arr] m less.prems len by simp
    moreover have "merge_halves ?arr2 (int l) (int m) (int r) =
        Some (put_seg ?arr2 l (merge (seg ?arr2 l (Suc m)) (seg ?arr2 (Suc m) (Suc r))))"
      using m less.prems len by (intro merge_halves_correct) auto
    moreover have "seg ?arr2 l (Suc m) = ?A" "seg ?arr2 (Suc m) (Suc r) = ?B"
      using m less.prems len by (auto simp: seg_def put_seg_def)
    moreover have "put_seg ?arr2 l (merge ?A ?B) = put_seg arr l (merge ?A ?B)"
      using m less.prems len by (auto simp: put_seg_def)
    moreover have "merge ?A ?B = sort (seg arr l (Suc r))"
      using m by (simp add: merge_sort_halves seg_split [of l "Suc m" "Suc r"])
    ultimately show ?thesis
      using True d by (subst mergeSort.simps) (simp add: add.commute)
  qed
qed

lemma mergeSort_whole:
  assumes "arr \<noteq> []" and "length arr < 2147483648"
  shows "mergeSort arr 0 (int (length arr) - 1) = Some (sort arr)"
proof -
  have "mergeSort arr (int 0) (int (length arr - 1)) = Some (put_seg arr 0 (sort (seg arr 0 (Suc (length arr - 1)))))"
    using assms by (intro mergeSort_seg) auto
  with assms(1) show ?thesis by (simp add: seg_def put_seg_def of_nat_diff Suc_leI)
qed

subsection \<open>Properties\<close>

text \<open>
  C8: for every in-range slice of an array of fewer than \<open>2 ^ 31\<close> elements, \<^verbatim>\<open>mergeSort\<close>
  returns without an out-of-bounds access, an uninitialised read or a signed overflow; the
  slice from \<open>l\<close> to \<open>r\<close> ends up sorted and is a permutation of what it was, and every
  element outside it keeps its place.
\<close>

theorem mergeSort_sorts_slice:
  assumes "r < length arr" and "length arr < 2147483648"
  shows "\<exists>arr'. mergeSort arr (int l) (int r) = Some arr' \<and> length arr' = length arr \<and>
    take l arr' = take l arr \<and> drop (Suc r) arr' = drop (Suc r) arr \<and>
    sorted (seg arr' l (Suc r)) \<and> mset (seg arr' l (Suc r)) = mset (seg arr l (Suc r))"
proof -
  let ?ys = "sort (seg arr l (Suc r))"
  show ?thesis
  proof (cases "l \<le> r")
    case True
    then have "length ?ys = Suc r - l" using assms(1) by simp
    then have "seg (put_seg arr l ?ys) l (Suc r) = ?ys"
      "take l (put_seg arr l ?ys) = take l arr" "drop (Suc r) (put_seg arr l ?ys) = drop (Suc r) arr"
      "length (put_seg arr l ?ys) = length arr"
      using True assms(1) seg_put_seg_self [of l ?ys arr] by (auto simp: put_seg_def)
    then show ?thesis using mergeSort_seg [OF assms, of l] by simp
  next
    case False
    then have "seg xs l (Suc r) = []" for xs :: "int list" by (simp add: seg_def)
    then show ?thesis using mergeSort_seg [OF assms, of l] by simp
  qed
qed

theorem mergeSort_sorts_slice_witness:
  "\<exists>arr'. mergeSort [9, 5, 3, 4, 0] (int 1) (int 3) = Some arr' \<and> length arr' = length [9, 5, 3, 4, 0 :: int] \<and>
    take 1 arr' = [9] \<and> drop 4 arr' = [0] \<and> sorted (seg arr' 1 4) \<and>
    mset (seg arr' 1 4) = {#3, 4, 5#}"
  using mergeSort_sorts_slice [of 3 "[9, 5, 3, 4, 0]" 1] by (simp add: seg_def add_mset_commute)

end
