(* ===== verification/SortSyscall.thy ===== *)
theory SortSyscall
  imports MergeSort
begin

text \<open>
  The system call \<^verbatim>\<open>kMergeSort\<close> (\<^verbatim>\<open>src/HW2/Ques5/sys.c\<close>).

  The kernel services the system call uses are a parameter: \<^verbatim>\<open>kmalloc\<close>, \<^verbatim>\<open>copy_from_user\<close> and
  \<^verbatim>\<open>copy_to_user\<close> are the fields of a record, and their documented behaviour is the locale
  \<open>user_access\<close>. The target is 32-bit ARM (the table that registers call 398 is ARM's), so
  \<^verbatim>\<open>size_t\<close> is a 32-bit word and the byte count \<^verbatim>\<open>size * sizeof(int32_t)\<close> wraps.
  A result \<^const>\<open>None\<close> is undefined behaviour: a NULL or out-of-bounds access in the kernel.
\<close>

subsection \<open>The kernel's side\<close>

datatype klog_entry = Msg string | Num int

record 'm uaccess =
  kmalloc :: "u32 \<Rightarrow> 'm \<Rightarrow> int list option"
  copy_from_user :: "int list \<Rightarrow> u32 \<Rightarrow> u32 \<Rightarrow> 'm \<Rightarrow> u32 \<times> int list"
  copy_to_user :: "u32 \<Rightarrow> int list \<Rightarrow> u32 \<Rightarrow> 'm \<Rightarrow> u32 \<times> 'm"

text \<open>The state a system call sees: user memory, the kernel log, the live allocations.\<close>

record 'm kern =
  umem :: 'm
  klog :: "klog_entry list"
  kbufs :: nat

definition printk :: "klog_entry \<Rightarrow> 'm kern \<Rightarrow> 'm kern" where
  "printk e s = s\<lparr>klog := klog s @ [e]\<rparr>"

text \<open>\<^verbatim>\<open>for (i=0; i<size; i++) printk("%d\n", kernelBuffer[i]);\<close>\<close>

function print_buffer :: "int list \<Rightarrow> int \<Rightarrow> int \<Rightarrow> 'm kern \<Rightarrow> 'm kern option" where
  "print_buffer b sz i s =
     (if i < sz then do {
        v \<leftarrow> c_read b i;
        print_buffer b sz (i + 1) (printk (Num v) s)
      } else Some s)"
  by pat_completeness auto
termination
  by (relation "measure (\<lambda>(b, sz, i, s). nat (sz - i))") auto

declare print_buffer.simps [simp del]

text \<open>\<^verbatim>\<open>size * sizeof(int32_t)\<close>: the product is computed in the unsigned 32-bit \<^verbatim>\<open>size_t\<close>.\<close>

definition buffer_bytes :: "int \<Rightarrow> u32" where
  "buffer_bytes sz = word_of_int sz * 4"

definition kMergeSort :: "'m uaccess \<Rightarrow> u32 \<Rightarrow> u32 \<Rightarrow> int \<Rightarrow> 'm kern \<Rightarrow> (int \<times> 'm kern) option" where
  "kMergeSort U unsorted sorted_p sz s =
     (if unsorted = 0 then Some (EFAULT, printk (Msg ''Null pointer to unsorted array'') s)
      else let s = printk (Msg ''Pointer to unsorted array is valid'') s in
      if sorted_p = 0 then Some (EDESTADDRREQ, printk (Msg ''Null pointer to sorted array'') s)
      else let s = printk (Msg ''Pointer to sorted array is valid'') s in
      if sz < 256 then Some (EINVAL, printk (Msg ''Input buffer size is insufficient'') s)
      else do {
        kernelBuffer \<leftarrow> kmalloc U (buffer_bytes sz) (umem s);
        let s = s\<lparr>kbufs := kbufs s + 1\<rparr>;
        let (left, kernelBuffer) =
          copy_from_user U kernelBuffer unsorted (buffer_bytes sz) (umem s);
        if left \<noteq> 0 then Some (EFAULT, printk (Msg ''Copy from user unsuccessful'') s)
        else do {
          let s = printk (Msg ''\<newline>Buffer contents on entering syscall:\<newline>'') s;
          s \<leftarrow> print_buffer kernelBuffer sz 0 s;
          kernelBuffer \<leftarrow> mergeSort kernelBuffer 0 (sz - 1);
          let (left, m) = copy_to_user U sorted_p kernelBuffer (buffer_bytes sz) (umem s);
          let s = s\<lparr>umem := m\<rparr>;
          if left \<noteq> 0 then Some (EFAULT, printk (Msg ''Copy to user unsuccessful'') s)
          else do {
            let s = printk (Msg ''\<newline>Buffer contents on completion of the sort:\<newline>'') s;
            s \<leftarrow> print_buffer kernelBuffer sz 0 s;
            Some (0, s\<lparr>kbufs := kbufs s - 1\<rparr>)
          }
        }
      })"

lemma printk_simps [simp]:
  "umem (printk e s) = umem s" "kbufs (printk e s) = kbufs s" "klog (printk e s) = klog s @ [e]"
  by (simp_all add: printk_def)

text \<open>The logging loop prints every element once, in order, and touches nothing else.\<close>

lemma print_buffer_correct:
  "i \<le> length b \<Longrightarrow>
   print_buffer b (int (length b)) (int i) s = Some (s\<lparr>klog := klog s @ map Num (drop i b)\<rparr>)"
proof (induction "length b - i" arbitrary: i s)
  case 0
  then show ?case by (subst print_buffer.simps) simp
next
  case (Suc d)
  then have i: "i < length b" by simp
  have "print_buffer b (int (length b)) (int (Suc i)) (printk (Num (b ! i)) s)
      = Some (s\<lparr>klog := klog s @ map Num (drop i b)\<rparr>)"
    using Suc.hyps(1) [of "Suc i" "printk (Num (b ! i)) s"] Suc.hyps(2) i
    by (simp add: printk_def flip: Cons_nth_drop_Suc)
  then show ?case using i by (subst print_buffer.simps) (simp add: c_simps add.commute)
qed

lemma print_buffer_all:
  "print_buffer b (int (length b)) 0 s = Some (s\<lparr>klog := klog s @ map Num b\<rparr>)"
  using print_buffer_correct [of 0 b s] by simp

lemma unat_buffer_bytes: "0 \<le> sz \<Longrightarrow> sz < 2 ^ 30 \<Longrightarrow> unat (buffer_bytes sz) = 4 * nat sz"
  by (simp add: buffer_bytes_def unat_eq_nat_uint uint_word_ariths uint_word_of_int nat_mult_distrib)

lemma buffer_bytes_nonzero: "256 \<le> sz \<Longrightarrow> sz < 2 ^ 30 \<Longrightarrow> buffer_bytes sz \<noteq> 0"
  using unat_buffer_bytes [of sz] by (metis dual_order.trans mult_eq_0_iff nat_0_iff not_le
      unat_0 zero_le_numeral zero_less_numeral zero_neq_numeral)

subsection \<open>The interface to user memory\<close>

text \<open>
  The documented behaviour of the three services. \<open>words_at m p n\<close> are the \<open>n\<close> integers
  that user memory \<open>m\<close> holds from address \<open>p\<close> on, if all of them are mapped.
\<close>

locale user_access =
  fixes U :: "'m uaccess"
    and words_at :: "'m \<Rightarrow> u32 \<Rightarrow> nat \<Rightarrow> int list option"
  assumes kmalloc_length: "kmalloc U n m = Some b \<Longrightarrow> length b = unat n div 4"
    and from_user_ok: "words_at m p (unat n div 4) = Some xs \<Longrightarrow> length b = unat n div 4 \<Longrightarrow>
      copy_from_user U b p n m = (0, xs) \<and> length xs = unat n div 4"
    and from_user_fault: "n \<noteq> 0 \<Longrightarrow> words_at m p (unat n div 4) = None \<Longrightarrow> fst (copy_from_user U b p n m) \<noteq> 0"
    and to_user_ok: "n \<noteq> 0 \<Longrightarrow> copy_to_user U p xs n m = (0, m') \<Longrightarrow> length xs = unat n div 4 \<Longrightarrow>
      words_at m' p (length xs) = Some xs"
begin

lemma sorts_on_success:
  assumes "unsorted \<noteq> 0" and "sorted_p \<noteq> 0" and "256 \<le> sz" and "sz < 2 ^ 30"
    and "kmalloc U (buffer_bytes sz) (umem s) = Some b"
    and "words_at (umem s) unsorted (nat sz) = Some xs"
    and "copy_to_user U sorted_p (sort xs) (buffer_bytes sz) (umem s) = (0, m')"
  shows "\<exists>s'. kMergeSort U unsorted sorted_p sz s = Some (0, s') \<and>
           umem s' = m' \<and> words_at (umem s') sorted_p (nat sz) = Some (sort xs) \<and>
           kbufs s' = kbufs s"
proof -
  have n: "unat (buffer_bytes sz) div 4 = nat sz"
    using assms(3,4) by (simp add: unat_buffer_bytes)
  have "length b = nat sz" using kmalloc_length [OF assms(5)] n by simp
  then have cfu: "copy_from_user U b unsorted (buffer_bytes sz) (umem s) = (0, xs)"
    and len: "length xs = nat sz"
    using from_user_ok [of "umem s" unsorted "buffer_bytes sz" xs b] assms(6) n by auto
  have sz: "sz = int (length xs)" using len assms(3) by simp
  have sorts: "mergeSort xs 0 (sz - 1) = Some (sort xs)"
    using mergeSort_whole [of xs] sz assms(3,4) by fastforce
  have pr: "print_buffer xs sz 0 s = Some (s\<lparr>klog := klog s @ map Num xs\<rparr>)"
    "print_buffer (sort xs) sz 0 s = Some (s\<lparr>klog := klog s @ map Num (sort xs)\<rparr>)" for s :: "'m kern"
    using print_buffer_all [of xs s] print_buffer_all [of "sort xs" s] sz by auto
  have "words_at m' sorted_p (length (sort xs)) = Some (sort xs)"
    using to_user_ok [OF buffer_bytes_nonzero assms(7)] n len assms(3,4) by simp
  then show ?thesis
    using assms(1-3,5,7) cfu sorts pr len by (simp add: kMergeSort_def Let_def)
qed

text \<open>A fault while copying in returns \<^verbatim>\<open>EFAULT\<close>, and the kernel buffer is never freed.\<close>

lemma leaks_on_copy_in_fault:
  assumes "unsorted \<noteq> 0" and "sorted_p \<noteq> 0" and "256 \<le> sz" and "sz < 2 ^ 30"
    and "kmalloc U (buffer_bytes sz) (umem s) = Some b"
    and "words_at (umem s) unsorted (nat sz) = None"
  shows "\<exists>s'. kMergeSort U unsorted sorted_p sz s = Some (EFAULT, s') \<and>
           umem s' = umem s \<and> kbufs s' = kbufs s + 1"
proof -
  have "unat (buffer_bytes sz) div 4 = nat sz"
    using assms(3,4) by (simp add: unat_buffer_bytes)
  then have "fst (copy_from_user U b unsorted (buffer_bytes sz) (umem s)) \<noteq> 0"
    using from_user_fault [OF buffer_bytes_nonzero] assms(3,4,6) by simp
  then show ?thesis
    using assms(1-3,5) by (auto simp: kMergeSort_def Let_def split: prod.splits)
qed

text \<open>
  At \<open>sz = 2 ^ 30\<close> the byte count wraps to 0: nothing is copied, and the first read of
  the buffer is already out of bounds.
\<close>

lemma overflow_reads_outside:
  assumes "unsorted \<noteq> 0" and "sorted_p \<noteq> 0" and "words_at (umem s) unsorted 0 = Some []"
  shows "kMergeSort U unsorted sorted_p (2 ^ 30) s = None"
proof -
  have z: "buffer_bytes (2 ^ 30) = 0" by (simp add: buffer_bytes_def)
  have pr: "print_buffer [] (2 ^ 30) 0 s = None" for s :: "'m kern"
    by (subst print_buffer.simps) (simp add: c_read_def)
  have "copy_from_user U b unsorted 0 (umem s) = (0, [])" if "kmalloc U 0 (umem s) = Some b" for b
    using from_user_ok [of "umem s" unsorted 0 "[]" b] kmalloc_length [OF that] assms(3) by simp
  then show ?thesis
    using assms(1,2) z pr
    by (cases "kmalloc U 0 (umem s)") (simp_all add: kMergeSort_def Let_def)
qed

end

subsection \<open>User memory as mapped buffers\<close>

text \<open>
  The address space of the calling programs: each mapped buffer is found under its base
  address. Copies succeed when the buffer is mapped and large enough.
\<close>

type_synonym blockmem = "u32 \<rightharpoonup> int list"

definition block_words :: "blockmem \<Rightarrow> u32 \<Rightarrow> nat \<Rightarrow> int list option" where
  "block_words m p n =
     (case m p of None \<Rightarrow> None | Some a \<Rightarrow> if n \<le> length a then Some (take n a) else None)"

definition block_uaccess :: "blockmem uaccess" where
  "block_uaccess = \<lparr>
     kmalloc = (\<lambda>n m. if n \<le> 4194304 then Some (replicate (unat n div 4) 0) else None),
     copy_from_user = (\<lambda>b p n m.
       case block_words m p (unat n div 4) of None \<Rightarrow> (n, b) | Some xs \<Rightarrow> (0, xs)),
     copy_to_user = (\<lambda>p xs n m.
       case m p of None \<Rightarrow> (n, m)
       | Some a \<Rightarrow> let k = unat n div 4 in
           if k \<le> length a then (0, m(p \<mapsto> take k xs @ drop k a)) else (n, m))\<rparr>"

interpretation block: user_access block_uaccess block_words
proof (unfold_locales, goal_cases)
  case (1 n m b)
  then show ?case by (auto simp: block_uaccess_def split: if_splits)
next
  case (2 m p n xs b)
  then show ?case
    by (auto simp: block_uaccess_def block_words_def split: option.splits if_splits)
next
  case (3 n m p b)
  then show ?case by (simp add: block_uaccess_def)
next
  case (4 n p xs m m')
  then show ?case
    by (auto simp: block_uaccess_def block_words_def Let_def split: option.splits if_splits)
qed

subsection \<open>Calls with bad arguments\<close>

lemma kMergeSort_null_dest:
  "unsorted \<noteq> 0 \<Longrightarrow> \<exists>s'. kMergeSort U unsorted 0 sz s = Some (EDESTADDRREQ, s') \<and>
     umem s' = umem s \<and> kbufs s' = kbufs s"
  by (simp add: kMergeSort_def Let_def)

lemma kMergeSort_null_source:
  "\<exists>s'. kMergeSort U 0 sorted_p sz s = Some (EFAULT, s') \<and> umem s' = umem s \<and> kbufs s' = kbufs s"
  by (simp add: kMergeSort_def Let_def)

lemma kMergeSort_short:
  "unsorted \<noteq> 0 \<Longrightarrow> sorted_p \<noteq> 0 \<Longrightarrow> sz < 256 \<Longrightarrow>
     \<exists>s'. kMergeSort U unsorted sorted_p sz s = Some (EINVAL, s') \<and> umem s' = umem s \<and> kbufs s' = kbufs s"
  by (simp add: kMergeSort_def Let_def)

subsection \<open>Properties\<close>

text \<open>
  C9: for a size from 256 up to, but not including, \<open>2 ^ 30\<close>, valid pointers and a successful
  allocation and copy-out, the system call returns 0, the destination holds a sorted
  permutation of what the source held, and the kernel buffer is freed.
\<close>

theorem kMergeSort_sorts:
  assumes "user_access U words_at"
    and "unsorted \<noteq> 0" and "sorted_p \<noteq> 0" and "256 \<le> sz" and "sz < 2 ^ 30"
    and "kmalloc U (buffer_bytes sz) (umem s) = Some b"
    and "words_at (umem s) unsorted (nat sz) = Some xs"
    and "copy_to_user U sorted_p (sort xs) (buffer_bytes sz) (umem s) = (0, m')"
  shows "\<exists>s' ys. kMergeSort U unsorted sorted_p sz s = Some (0, s') \<and>
           words_at (umem s') sorted_p (nat sz) = Some ys \<and> sorted ys \<and> mset ys = mset xs \<and>
           kbufs s' = kbufs s"
proof -
  obtain s' where "kMergeSort U unsorted sorted_p sz s = Some (0, s')"
    "words_at (umem s') sorted_p (nat sz) = Some (sort xs)" "kbufs s' = kbufs s"
    using user_access.sorts_on_success [OF assms] by blast
  then show ?thesis by (intro exI [of _ s'] exI [of _ "sort xs"]) simp
qed

theorem kMergeSort_sorts_witness:
  "\<exists>s' ys. kMergeSort block_uaccess 4096 8192 256
        \<lparr>umem = [4096 \<mapsto> replicate 256 7, 8192 \<mapsto> replicate 256 0], klog = [], kbufs = 0\<rparr> = Some (0, s') \<and>
      block_words (umem s') 8192 (nat 256) = Some ys \<and> sorted ys \<and> mset ys = mset (replicate 256 7) \<and>
      kbufs s' = 0"
proof -
  have b: "unat (buffer_bytes 256) div 4 = 256" "buffer_bytes 256 \<le> 4194304"
    by (simp_all add: buffer_bytes_def)
  show ?thesis
    using kMergeSort_sorts [OF block.user_access_axioms, of 4096 8192 256
        "\<lparr>umem = [4096 \<mapsto> replicate 256 7, 8192 \<mapsto> replicate 256 0], klog = [], kbufs = 0\<rparr>"
        "replicate 256 0" "replicate 256 7"
        "[4096 \<mapsto> replicate 256 7, 8192 \<mapsto> sort (replicate 256 7)]"] b
    by (simp add: block_uaccess_def block_words_def Let_def)
qed

text \<open>
  when the source cannot be read, the call returns the positive value \<^verbatim>\<open>EFAULT\<close>, user
  memory is untouched, and the kernel buffer it allocated is still allocated: the early
  return skips \<^verbatim>\<open>kfree\<close>.
\<close>

theorem kMergeSort_leaks_on_fault:
  assumes "user_access U words_at"
    and "unsorted \<noteq> 0" and "sorted_p \<noteq> 0" and "256 \<le> sz" and "sz < 2 ^ 30"
    and "kmalloc U (buffer_bytes sz) (umem s) = Some b"
    and "words_at (umem s) unsorted (nat sz) = None"
  shows "\<exists>s'. kMergeSort U unsorted sorted_p sz s = Some (EFAULT, s') \<and>
           umem s' = umem s \<and> kbufs s' = kbufs s + 1"
  using user_access.leaks_on_copy_in_fault [OF assms] by simp

theorem kMergeSort_leaks_on_fault_witness:
  "\<exists>s'. kMergeSort block_uaccess 4096 8192 256 \<lparr>umem = Map.empty, klog = [], kbufs = 0\<rparr> = Some (14, s') \<and>
     umem s' = Map.empty \<and> kbufs s' = 1"
proof -
  have b: "unat (buffer_bytes 256) div 4 = 256" "buffer_bytes 256 \<le> 4194304"
    by (simp_all add: buffer_bytes_def)
  show ?thesis
    using kMergeSort_leaks_on_fault [OF block.user_access_axioms, of 4096 8192 256
        "\<lparr>umem = Map.empty, klog = [], kbufs = 0\<rparr>" "replicate 256 0"] b
    by (simp add: block_uaccess_def block_words_def)
qed

text \<open>
  with the size \<open>2 ^ 30\<close> the byte count wraps to 0 on the 32-bit target, and the call
  has undefined behaviour (it reads outside the kernel buffer) whatever the kernel services
  do; no check of the code stops it.
\<close>

theorem kMergeSort_size_overflow:
  assumes "user_access U words_at"
    and "unsorted \<noteq> 0" and "sorted_p \<noteq> 0" and "words_at (umem s) unsorted 0 = Some []"
  shows "kMergeSort U unsorted sorted_p (2 ^ 30) s = None"
  using user_access.overflow_reads_outside [OF assms] .

theorem kMergeSort_size_overflow_witness:
  "kMergeSort block_uaccess 4096 8192 (2 ^ 30) \<lparr>umem = [4096 \<mapsto> [1, 2]], klog = [], kbufs = 0\<rparr> = None"
  using kMergeSort_size_overflow [OF block.user_access_axioms, of 4096 8192
      "\<lparr>umem = [4096 \<mapsto> [1, 2]], klog = [], kbufs = 0\<rparr>"]
  by (simp add: block_words_def)

end
