(* ===== verification/SyscallMacros.thy ===== *)
theory SyscallMacros
  imports Prelude
begin

text \<open>
  The macros of \<^verbatim>\<open>syscalls.h\<close> that make a system call out of a C function: the argument lists that
  \<^verbatim>\<open>__MAP\<close> walks, the wrapper \<^verbatim>\<open>SyS_name\<close> that receives every argument in a register of the width of
  \<^verbatim>\<open>long\<close> and casts it to its declared type, the trace metadata, and the check of the address limit
  before the return to user mode. C values are integers; the ABI (the width of \<^verbatim>\<open>long\<close>, the signedness
  of \<^verbatim>\<open>char\<close> and what the typedefs of other headers stand for) is a parameter.
\<close>

subsection \<open>Types\<close>

datatype ctype =
    C_void | C_char | C_unsigned_char | C_short | C_unsigned_short | C_int | C_unsigned | C_unsigned_int
  | C_long | C_unsigned_long | C_long_long | C_unsigned_long_long
  | C_typedef string | C_struct string | C_union string
  | C_const ctype
  | C_ptr bool ctype

text \<open>The flag of \<^term>\<open>C_ptr\<close> is the annotation \<^verbatim>\<open>__user\<close>; \<^verbatim>\<open>unsigned\<close> is \<^verbatim>\<open>unsigned int\<close> under its short name.\<close>

abbreviation user_ptr :: "ctype \<Rightarrow> ctype" where "user_ptr \<equiv> C_ptr True"

record c_abi =
  BITS_PER_LONG :: nat
  char_signed :: bool
  typedefs :: "string \<Rightarrow> ctype"

fun unqualified :: "c_abi \<Rightarrow> ctype \<Rightarrow> ctype" where
  "unqualified E (C_const t) = unqualified E t"
| "unqualified E (C_typedef n) = typedefs E n"
| "unqualified E t = t"

definition bits_of :: "c_abi \<Rightarrow> ctype \<Rightarrow> nat" where
  "bits_of E t = (case unqualified E t of
       C_char \<Rightarrow> 8 | C_unsigned_char \<Rightarrow> 8 | C_short \<Rightarrow> 16 | C_unsigned_short \<Rightarrow> 16
     | C_int \<Rightarrow> 32 | C_unsigned \<Rightarrow> 32 | C_unsigned_int \<Rightarrow> 32
     | C_long \<Rightarrow> BITS_PER_LONG E | C_unsigned_long \<Rightarrow> BITS_PER_LONG E | C_ptr u t' \<Rightarrow> BITS_PER_LONG E
     | C_long_long \<Rightarrow> 64 | C_unsigned_long_long \<Rightarrow> 64 | _ \<Rightarrow> 0)"

definition signed_type :: "c_abi \<Rightarrow> ctype \<Rightarrow> bool" where
  "signed_type E t = (case unqualified E t of
       C_char \<Rightarrow> char_signed E | C_short \<Rightarrow> True | C_int \<Rightarrow> True | C_long \<Rightarrow> True | C_long_long \<Rightarrow> True | _ \<Rightarrow> False)"

text \<open>Conversion to a type, and the values the type has.\<close>

definition c_cast :: "c_abi \<Rightarrow> ctype \<Rightarrow> int \<Rightarrow> int" where
  "c_cast E t v = (if signed_type E t then signed_take_bit (bits_of E t - 1) v else take_bit (bits_of E t) v)"

definition in_type :: "c_abi \<Rightarrow> ctype \<Rightarrow> int \<Rightarrow> bool" where
  "in_type E t v =
     (if signed_type E t then - (2 ^ (bits_of E t - 1)) \<le> v \<and> v < 2 ^ (bits_of E t - 1)
      else 0 \<le> v \<and> v < 2 ^ bits_of E t)"

subsection \<open>Argument macros\<close>

text \<open>
  \<^verbatim>\<open>__MAP0\<close> to \<^verbatim>\<open>__MAP6\<close>. The result is \<^const>\<open>None\<close> where the preprocessor reports an error: too few or
  too many arguments for the macro, or no macro of that number. \<^verbatim>\<open>__MAP0\<close> takes any arguments.
\<close>

fun MAPn :: "nat \<Rightarrow> (ctype \<Rightarrow> string \<Rightarrow> 'b) \<Rightarrow> (ctype \<times> string) list \<Rightarrow> 'b list option" where
  "MAPn 0 m ps = Some []"
| "MAPn (Suc 0) m ps = (case ps of [(t, a)] \<Rightarrow> Some [m t a] | _ \<Rightarrow> None)"
| "MAPn (Suc (Suc n)) m ps =
     (case ps of [] \<Rightarrow> None | (t, a) # qs \<Rightarrow> map_option ((#) (m t a)) (MAPn (Suc n) m qs))"

definition SYSCALL_DEFINE_MAXARGS :: nat where
  "SYSCALL_DEFINE_MAXARGS = 6"

definition MAP :: "nat \<Rightarrow> (ctype \<Rightarrow> string \<Rightarrow> 'b) \<Rightarrow> (ctype \<times> string) list \<Rightarrow> 'b list option" where
  "MAP n m ps = (if n \<le> SYSCALL_DEFINE_MAXARGS then MAPn n m ps else None)"

definition TYPE_IS_LL :: "c_abi \<Rightarrow> ctype \<Rightarrow> bool" where
  "TYPE_IS_LL E t = (unqualified E t = C_long_long \<or> unqualified E t = C_unsigned_long_long)"

definition SC_LONG :: "c_abi \<Rightarrow> ctype \<Rightarrow> ctype" where
  "SC_LONG E t = (if TYPE_IS_LL E t then C_long_long else C_long)"

text \<open>\<^verbatim>\<open>__SC_TEST\<close> stops the build for a type that does not fit a register.\<close>

definition SC_TEST :: "c_abi \<Rightarrow> ctype \<Rightarrow> bool" where
  "SC_TEST E t = (\<not> (\<not> TYPE_IS_LL E t \<and> bits_of E t > BITS_PER_LONG E))"

text \<open>
  \<^verbatim>\<open>__SYSCALL_DEFINEx\<close>: the function \<^verbatim>\<open>SyS_name\<close>. Its parameters have the types that \<^verbatim>\<open>__SC_LONG\<close> gives
  and the names of the arguments; \<open>regs\<close> are the values it is called with. The body
  \<^verbatim>\<open>SYSC_name\<close> gets the arguments cast to their declared types. \<^const>\<open>None\<close> stands for a definition
  that does not compile or a call with another number of arguments. \<^verbatim>\<open>SYSCALL_DEFINE0\<close> has no wrapper.
\<close>

definition SYSCALL_DEFINEx :: "c_abi \<Rightarrow> nat \<Rightarrow> (ctype \<times> string) list \<Rightarrow> (int list \<Rightarrow> 'r) \<Rightarrow> int list \<Rightarrow> 'r option" where
  "SYSCALL_DEFINEx E x ps SYSC regs = (case MAP x (\<lambda>t a. SC_LONG E t) ps of
       None \<Rightarrow> None
     | Some longs \<Rightarrow>
         if length regs = x \<and> distinct (map snd ps) \<and> list_all (\<lambda>(t, a). SC_TEST E t) ps then
           let env = map_of (zip (map snd ps) (map2 (c_cast E) longs regs))
           in map_option SYSC (MAP x (\<lambda>t a. c_cast E t (the (env a))) ps)
         else None)"

subsection \<open>Trace metadata\<close>

text \<open>\<^verbatim>\<open>#t\<close>: the spelling of a type.\<close>

fun stringify :: "ctype \<Rightarrow> string" where
  "stringify C_void = ''void''"
| "stringify C_char = ''char''"
| "stringify C_unsigned_char = ''unsigned char''"
| "stringify C_short = ''short''"
| "stringify C_unsigned_short = ''unsigned short''"
| "stringify C_int = ''int''"
| "stringify C_unsigned = ''unsigned''"
| "stringify C_unsigned_int = ''unsigned int''"
| "stringify C_long = ''long''"
| "stringify C_unsigned_long = ''unsigned long''"
| "stringify C_long_long = ''long long''"
| "stringify C_unsigned_long_long = ''unsigned long long''"
| "stringify (C_typedef n) = n"
| "stringify (C_struct n) = ''struct '' @ n"
| "stringify (C_union n) = ''union '' @ n"
| "stringify (C_const (C_ptr u t)) = stringify t @ (if u then '' __user *const'' else '' *const'')"
| "stringify (C_const t) = ''const '' @ stringify t"
| "stringify (C_ptr u t) = stringify t @ (if u then '' __user *'' else '' *'')"

text \<open>
  Pointers between the static objects are the names of the objects; a class other than the two of
  system calls has a number.
\<close>

datatype trace_event_class = event_class_syscall_enter | event_class_syscall_exit | other_class nat

datatype trace_event_functions = enter_syscall_print_funcs | exit_syscall_print_funcs | other_funcs nat

record trace_event_call =
  tclass :: trace_event_class
  tname :: string
  funcs :: trace_event_functions
  tdata :: string
  cap_any :: bool

record syscall_metadata =
  mname :: string
  syscall_nr :: int
  nb_args :: nat
  mtypes :: "string list option"
  margs :: "string list option"
  enter_event :: trace_event_call
  exit_event :: trace_event_call

definition SYSCALL_TRACE_ENTER_EVENT :: "string \<Rightarrow> trace_event_call" where
  "SYSCALL_TRACE_ENTER_EVENT sname =
     \<lparr>tclass = event_class_syscall_enter, tname = ''sys_enter'' @ sname, funcs = enter_syscall_print_funcs,
      tdata = ''__syscall_meta_'' @ sname, cap_any = True\<rparr>"

definition SYSCALL_TRACE_EXIT_EVENT :: "string \<Rightarrow> trace_event_call" where
  "SYSCALL_TRACE_EXIT_EVENT sname =
     \<lparr>tclass = event_class_syscall_exit, tname = ''sys_exit'' @ sname, funcs = exit_syscall_print_funcs,
      tdata = ''__syscall_meta_'' @ sname, cap_any = True\<rparr>"

definition SYSCALL_METADATA :: "string \<Rightarrow> nat \<Rightarrow> (ctype \<times> string) list \<Rightarrow> syscall_metadata option" where
  "SYSCALL_METADATA sname nb ps = (case (MAP nb (\<lambda>t a. stringify t) ps, MAP nb (\<lambda>t a. a) ps) of
       (Some ts, Some as) \<Rightarrow> Some
         \<lparr>mname = ''sys'' @ sname, syscall_nr = - 1, nb_args = nb,
          mtypes = (if nb \<noteq> 0 then Some ts else None), margs = (if nb \<noteq> 0 then Some as else None),
          enter_event = SYSCALL_TRACE_ENTER_EVENT sname, exit_event = SYSCALL_TRACE_EXIT_EVENT sname\<rparr>
     | _ \<Rightarrow> None)"

text \<open>The flag is \<^verbatim>\<open>CONFIG_FTRACE_SYSCALLS\<close>.\<close>

definition is_syscall_trace_event :: "bool \<Rightarrow> trace_event_call \<Rightarrow> bool" where
  "is_syscall_trace_event ftrace tp_event =
     (if ftrace then tclass tp_event = event_class_syscall_enter \<or> tclass tp_event = event_class_syscall_exit
      else False)"

subsection \<open>The return to user mode\<close>

text \<open>
  \<^verbatim>\<open>has_flag\<close> says whether the architecture defines \<^verbatim>\<open>TIF_FSCHECK\<close>; \<^verbatim>\<open>CHECK_DATA_CORRUPTION\<close> reports a
  condition that holds and returns it, \<^verbatim>\<open>report\<close> being what the report does.
\<close>

record 'd user_return =
  addr_limit :: 'd
  tif_fscheck :: bool
  forced_signals :: "nat list"
  reports :: "string list"

abbreviation (input) SIGKILL :: nat where "SIGKILL \<equiv> 9"

definition CHECK_DATA_CORRUPTION :: "bool \<Rightarrow> string \<Rightarrow> 'd user_return \<Rightarrow> bool \<times> 'd user_return" where
  "CHECK_DATA_CORRUPTION b msg s = (b, if b then s\<lparr>reports := reports s @ [msg]\<rparr> else s)"

definition addr_limit_user_check :: "bool \<Rightarrow> ('d \<Rightarrow> 'd \<Rightarrow> bool) \<Rightarrow> 'd \<Rightarrow> 'd user_return \<Rightarrow> 'd user_return" where
  "addr_limit_user_check has_flag segment_eq USER_DS s =
     (if has_flag \<and> \<not> tif_fscheck s then s
      else
        let (b, s) = CHECK_DATA_CORRUPTION (\<not> segment_eq (addr_limit s) USER_DS)
              ''Invalid address limit on user-mode return'' s;
            s = (if b then s\<lparr>forced_signals := forced_signals s @ [SIGKILL]\<rparr> else s)
        in if has_flag then s\<lparr>tif_fscheck := False\<rparr> else s)"

subsection \<open>Arguments keep their values\<close>

lemma MAPn_eq:
  "MAPn n m ps = (if n = 0 then Some [] else if length ps = n then Some (map (\<lambda>(t, a). m t a) ps) else None)"
  by (induction n m ps rule: MAPn.induct) (auto split: list.splits prod.splits)

lemma MAP_eq:
  "MAP n m ps = (if n = 0 then Some []
     else if length ps = n \<and> n \<le> SYSCALL_DEFINE_MAXARGS then Some (map (\<lambda>(t, a). m t a) ps) else None)"
  by (simp add: MAP_def MAPn_eq)

lemma c_cast_in_type: "0 < bits_of E t \<Longrightarrow> in_type E t (c_cast E t v)"
  by (auto simp: in_type_def c_cast_def signed_take_bit_int_greater_eq_minus_exp signed_take_bit_int_less_exp)

lemma c_cast_id: "in_type E t v \<Longrightarrow> c_cast E t v = v"
  by (auto simp: in_type_def c_cast_def signed_take_bit_int_eq_self take_bit_int_eq_self)

lemma bits_of_SC_LONG: "SC_TEST E t \<Longrightarrow> bits_of E t \<le> bits_of E (SC_LONG E t)"
  by (auto simp: SC_TEST_def SC_LONG_def TYPE_IS_LL_def bits_of_def)

lemma signed_SC_LONG: "signed_type E (SC_LONG E t)"
  by (simp add: SC_LONG_def signed_type_def)

text \<open>A cast to the declared type does not see that the value went through a register.\<close>

lemma c_cast_via_register:
  assumes "SC_TEST E t" and "0 < bits_of E t"
  shows "c_cast E t (c_cast E (SC_LONG E t) v) = c_cast E t v"
  using bits_of_SC_LONG [OF assms(1)] assms(2)
  by (auto simp: c_cast_def signed_SC_LONG take_bit_signed_take_bit signed_take_bit_signed_take_bit min_def)

lemma env_of_arguments:
  assumes "distinct (map snd ps)" "length vs = length ps"
  shows "map (\<lambda>(t, a). f t (the (map_of (zip (map snd ps) vs) a))) ps = map2 (\<lambda>(t, a) v. f t v) ps vs"
proof (rule nth_equalityI)
  fix i
  assume "i < length (map (\<lambda>(t, a). f t (the (map_of (zip (map snd ps) vs) a))) ps)"
  then have i: "i < length ps" by simp
  then have "map_of (zip (map snd ps) vs) (map snd ps ! i) = Some (vs ! i)"
    using assms by (intro map_of_zip_nth) simp_all
  then show "map (\<lambda>(t, a). f t (the (map_of (zip (map snd ps) vs) a))) ps ! i = map2 (\<lambda>(t, a) v. f t v) ps vs ! i"
    using i assms(2) by (simp add: case_prod_beta)
qed (use assms in simp)

definition callable :: "c_abi \<Rightarrow> (ctype \<times> string) list \<Rightarrow> bool" where
  "callable E ps = (length ps \<le> SYSCALL_DEFINE_MAXARGS \<and> distinct (map snd ps) \<and>
     list_all (\<lambda>(t, a). SC_TEST E t \<and> 0 < bits_of E t) ps)"

lemma map2_cast_via_register:
  "list_all (\<lambda>(t, a). SC_TEST E t \<and> 0 < bits_of E t) ps \<Longrightarrow> length regs = length ps \<Longrightarrow>
   map2 (\<lambda>(t, a) v. c_cast E t v) ps (map2 (c_cast E) (map (\<lambda>(t, a). SC_LONG E t) ps) regs)
     = map2 (\<lambda>(t, a) v. c_cast E t v) ps regs"
  by (induction ps regs rule: list_induct2') (auto simp: c_cast_via_register)

lemma wrapper_casts:
  assumes "callable E ps" and "length regs = length ps"
  shows "SYSCALL_DEFINEx E (length ps) ps SYSC regs = Some (SYSC (map2 (\<lambda>(t, a) v. c_cast E t v) ps regs))"
proof -
  let ?longs = "map (\<lambda>(t, a). SC_LONG E t) ps"
  have ps: "list_all (\<lambda>(t, a). SC_TEST E t \<and> 0 < bits_of E t) ps" "distinct (map snd ps)"
    "length ps \<le> SYSCALL_DEFINE_MAXARGS" using assms(1) by (simp_all add: callable_def)
  then have tests: "list_all (\<lambda>(t, a). SC_TEST E t) ps" by (auto simp: list_all_iff)
  have longs: "MAP (length ps) (\<lambda>t a. SC_LONG E t) ps = Some ?longs"
    using ps(3) by (simp add: MAP_eq)
  have "MAP (length ps) (\<lambda>t a. c_cast E t (the (map_of (zip (map snd ps) (map2 (c_cast E) ?longs regs)) a))) ps
      = Some (map2 (\<lambda>(t, a) v. c_cast E t v) ps (map2 (c_cast E) ?longs regs))"
    using ps(3) env_of_arguments [OF ps(2), of "map2 (c_cast E) ?longs regs" "c_cast E"] assms(2)
    by (simp add: MAP_eq)
  then show ?thesis
    using ps(2) assms(2) tests by (simp add: SYSCALL_DEFINEx_def longs Let_def map2_cast_via_register [OF ps(1)])
qed

lemma casts_in_types:
  "list_all (\<lambda>(t, a). 0 < bits_of E t) ps \<Longrightarrow> length regs = length ps \<Longrightarrow>
   list_all2 (\<lambda>(t, a) v. in_type E t v) ps (map2 (\<lambda>(t, a) v. c_cast E t v) ps regs)"
  by (induction ps regs rule: list_induct2') (auto simp: c_cast_in_type)

lemma casts_id:
  "list_all2 (\<lambda>(t, a) v. in_type E t v) ps vs \<Longrightarrow> map2 (\<lambda>(t, a) v. c_cast E t v) ps vs = vs"
  by (induction rule: list_all2_induct) (auto simp: c_cast_id)

lemma casts_via_registers:
  "list_all (\<lambda>(t, a). SC_TEST E t \<and> 0 < bits_of E t) ps \<Longrightarrow> length vs = length ps \<Longrightarrow>
   map2 (\<lambda>(t, a) v. c_cast E t v) ps (map2 (\<lambda>(t, a) v. c_cast E (SC_LONG E t) v) ps vs)
     = map2 (\<lambda>(t, a) v. c_cast E t v) ps vs"
  by (induction ps vs rule: list_induct2') (auto simp: c_cast_via_register)

text \<open>
  C11: the wrapper that \<^verbatim>\<open>__SYSCALL_DEFINEx\<close> generates hands the body exactly the arguments the caller
  passed, for every width of \<^verbatim>\<open>long\<close>: values of the declared types survive the way through registers of
  type \<^verbatim>\<open>long\<close> or \<^verbatim>\<open>long long\<close>. Whatever the registers hold (say, garbage in their upper halves), the
  body sees values of the declared types.
\<close>

theorem syscall_arguments_restored:
  assumes "callable E ps" and "list_all2 (\<lambda>(t, a) v. in_type E t v) ps vs"
  shows "SYSCALL_DEFINEx E (length ps) ps SYSC (map2 (\<lambda>(t, a) v. c_cast E (SC_LONG E t) v) ps vs) = Some (SYSC vs) \<and>
    (\<forall>regs. length regs = length ps \<longrightarrow> (\<exists>ws. list_all2 (\<lambda>(t, a) v. in_type E t v) ps ws \<and>
       SYSCALL_DEFINEx E (length ps) ps SYSC regs = Some (SYSC ws)))"
proof (intro conjI allI impI)
  have ps: "list_all (\<lambda>(t, a). SC_TEST E t \<and> 0 < bits_of E t) ps" using assms(1) by (simp add: callable_def)
  then have pos: "list_all (\<lambda>(t, a). 0 < bits_of E t) ps" by (auto simp: list_all_iff)
  have len: "length vs = length ps" using assms(2) by (simp add: list_all2_lengthD)
  show "SYSCALL_DEFINEx E (length ps) ps SYSC (map2 (\<lambda>(t, a) v. c_cast E (SC_LONG E t) v) ps vs) = Some (SYSC vs)"
    using casts_via_registers [OF ps len] casts_id [OF assms(2)] len by (simp add: wrapper_casts [OF assms(1)])
  fix regs :: "int list"
  assume regs: "length regs = length ps"
  show "\<exists>ws. list_all2 (\<lambda>(t, a) v. in_type E t v) ps ws \<and> SYSCALL_DEFINEx E (length ps) ps SYSC regs = Some (SYSC ws)"
    using wrapper_casts [OF assms(1) regs] casts_in_types [OF pos regs] by blast
qed

text \<open>The 64-bit \<^verbatim>\<open>long\<close> of a call with a signed and an unsigned 32-bit argument and a pointer.\<close>

theorem syscall_arguments_restored_witness:
  "let E = \<lparr>BITS_PER_LONG = 64, char_signed = True, typedefs = (\<lambda>_. C_unsigned_int)\<rparr>;
       ps = [(C_int, ''which''), (C_typedef ''uid_t'', ''uid''), (user_ptr C_char, ''name'')]
   in SYSCALL_DEFINEx E (length ps) ps id
        (map2 (\<lambda>(t, a) v. c_cast E (SC_LONG E t) v) ps [- 5, 4294967295, 18446744073709551615])
      = Some [- 5, 4294967295, 18446744073709551615]"
proof -
  let ?E = "\<lparr>BITS_PER_LONG = 64, char_signed = True, typedefs = (\<lambda>_. C_unsigned_int)\<rparr>"
  let ?ps = "[(C_int, ''which''), (C_typedef ''uid_t'', ''uid''), (user_ptr C_char, ''name'')]"
  have c: "callable ?E ?ps"
    by (simp add: callable_def SYSCALL_DEFINE_MAXARGS_def SC_TEST_def TYPE_IS_LL_def bits_of_def)
  have v: "list_all2 (\<lambda>(t, a) v. in_type ?E t v) ?ps [- 5, 4294967295, 18446744073709551615]"
    by (simp add: in_type_def signed_type_def bits_of_def)
  show ?thesis using conjunct1 [OF syscall_arguments_restored [where SYSC = id, OF c v]] by (simp only: Let_def id_apply)
qed

text \<open>The metadata agrees with the call it describes.\<close>

lemma metadata_describes_call:
  assumes "SYSCALL_METADATA sname nb ps = Some md" and "length ps = nb"
  shows "length (case_option [] id (mtypes md)) = nb_args md \<and> length (case_option [] id (margs md)) = nb_args md \<and>
    nb_args md \<le> SYSCALL_DEFINE_MAXARGS \<and> is_syscall_trace_event True (enter_event md) \<and>
    is_syscall_trace_event True (exit_event md) \<and> tdata (enter_event md) = tdata (exit_event md)"
  using assms by (auto simp: SYSCALL_METADATA_def MAP_eq SYSCALL_TRACE_ENTER_EVENT_def
      SYSCALL_TRACE_EXIT_EVENT_def is_syscall_trace_event_def SYSCALL_DEFINE_MAXARGS_def split: if_splits)

text \<open>
  A task never returns to user mode unnoticed with another address limit: when the flag is kept by
  \<^verbatim>\<open>set_fs\<close> (it is set whenever the limit changes), the check kills the task.
\<close>

lemma bad_limit_is_killed:
  assumes "\<not> segment_eq (addr_limit s) USER_DS" and "has_flag \<longrightarrow> tif_fscheck s"
  shows "SIGKILL \<in> set (forced_signals (addr_limit_user_check has_flag segment_eq USER_DS s))"
    and "has_flag \<longrightarrow> \<not> tif_fscheck (addr_limit_user_check has_flag segment_eq USER_DS s)"
  using assms by (auto simp: addr_limit_user_check_def CHECK_DATA_CORRUPTION_def Let_def)

lemma good_limit_is_kept:
  "segment_eq (addr_limit s) USER_DS \<Longrightarrow>
   forced_signals (addr_limit_user_check has_flag segment_eq USER_DS s) = forced_signals s"
  by (simp add: addr_limit_user_check_def CHECK_DATA_CORRUPTION_def Let_def)

end
