(* ===== verification/SyscallHeader.thy ===== *)
theory SyscallHeader
  imports SyscallMacros
begin

text \<open>
  The prototypes that \<^verbatim>\<open>syscalls.h\<close> declares, in the order of the file: the name of each function and
  the types of its parameters (all return \<^verbatim>\<open>long\<close>). The header's conditional parts depend on a
  configuration. Each list is named after its first function.
\<close>

subsection \<open>The declarations\<close>

record hconfig =
  CONFIG_OLD_SIGSUSPEND :: bool
  CONFIG_OLD_SIGSUSPEND3 :: bool
  CONFIG_OLD_SIGACTION :: bool
  CONFIG_ODD_RT_SIGACTION :: bool
  ARCH_WANT_STAT64 :: bool
  ARCH_WANT_COMPAT_STAT64 :: bool
  LONG_BITS :: nat
  CONFIG_HAVE_UID16 :: bool
  ARCH_WANT_SYS_OLD_GETRLIMIT :: bool
  CONFIG_CLONE_BACKWARDS :: bool
  CONFIG_CLONE_BACKWARDS3 :: bool

definition decls_sys32_quotactl :: "hconfig \<Rightarrow> (string \<times> ctype list) list" where
  "decls_sys32_quotactl C =
     [(''sys32_quotactl'', [C_unsigned_int, user_ptr (C_const C_char), C_typedef ''qid_t'', user_ptr C_void]),
      (''sys_time'', [user_ptr (C_typedef ''time_t'')]),
      (''sys_stime'', [user_ptr (C_typedef ''time_t'')]),
      (''sys_gettimeofday'', [user_ptr (C_struct ''timeval''), user_ptr (C_struct ''timezone'')]),
      (''sys_settimeofday'', [user_ptr (C_struct ''timeval''), user_ptr (C_struct ''timezone'')]),
      (''sys_adjtimex'', [user_ptr (C_struct ''timex'')]),
      (''sys_times'', [user_ptr (C_struct ''tms'')]),
      (''sys_gettid'', []),
      (''sys_nanosleep'', [user_ptr (C_struct ''timespec''), user_ptr (C_struct ''timespec'')]),
      (''sys_alarm'', [C_unsigned_int]),
      (''sys_getpid'', []),
      (''sys_getppid'', []),
      (''sys_getuid'', []),
      (''sys_geteuid'', []),
      (''sys_getgid'', []),
      (''sys_getegid'', [])]"

definition decls_sys_getresuid :: "hconfig \<Rightarrow> (string \<times> ctype list) list" where
  "decls_sys_getresuid C =
     [(''sys_getresuid'', [user_ptr (C_typedef ''uid_t''), user_ptr (C_typedef ''uid_t''), user_ptr (C_typedef ''uid_t'')]),
      (''sys_getresgid'', [user_ptr (C_typedef ''gid_t''), user_ptr (C_typedef ''gid_t''), user_ptr (C_typedef ''gid_t'')]),
      (''sys_getpgid'', [C_typedef ''pid_t'']),
      (''sys_getpgrp'', []),
      (''sys_getsid'', [C_typedef ''pid_t'']),
      (''sys_getgroups'', [C_int, user_ptr (C_typedef ''gid_t'')]),
      (''sys_setregid'', [C_typedef ''gid_t'', C_typedef ''gid_t'']),
      (''sys_setgid'', [C_typedef ''gid_t'']),
      (''sys_setreuid'', [C_typedef ''uid_t'', C_typedef ''uid_t'']),
      (''sys_setuid'', [C_typedef ''uid_t'']),
      (''sys_setresuid'', [C_typedef ''uid_t'', C_typedef ''uid_t'', C_typedef ''uid_t'']),
      (''sys_setresgid'', [C_typedef ''gid_t'', C_typedef ''gid_t'', C_typedef ''gid_t'']),
      (''sys_setfsuid'', [C_typedef ''uid_t'']),
      (''sys_setfsgid'', [C_typedef ''gid_t'']),
      (''sys_setpgid'', [C_typedef ''pid_t'', C_typedef ''pid_t'']),
      (''sys_setsid'', [])]"

definition decls_sys_setgroups :: "hconfig \<Rightarrow> (string \<times> ctype list) list" where
  "decls_sys_setgroups C =
     [(''sys_setgroups'', [C_int, user_ptr (C_typedef ''gid_t'')]),
      (''sys_acct'', [user_ptr (C_const C_char)]),
      (''sys_capget'', [C_typedef ''cap_user_header_t'', C_typedef ''cap_user_data_t'']),
      (''sys_capset'', [C_typedef ''cap_user_header_t'', C_const (C_typedef ''cap_user_data_t'')]),
      (''sys_personality'', [C_unsigned_int]),
      (''sys_sigpending'', [user_ptr (C_typedef ''old_sigset_t'')]),
      (''sys_sigprocmask'', [C_int, user_ptr (C_typedef ''old_sigset_t''), user_ptr (C_typedef ''old_sigset_t'')]),
      (''sys_sigaltstack'', [user_ptr (C_const (C_struct ''sigaltstack'')), user_ptr (C_struct ''sigaltstack'')]),
      (''sys_getitimer'', [C_int, user_ptr (C_struct ''itimerval'')]),
      (''sys_setitimer'', [C_int, user_ptr (C_struct ''itimerval''), user_ptr (C_struct ''itimerval'')]),
      (''sys_timer_create'', [C_typedef ''clockid_t'', user_ptr (C_struct ''sigevent''), user_ptr (C_typedef ''timer_t'')]),
      (''sys_timer_gettime'', [C_typedef ''timer_t'', user_ptr (C_struct ''itimerspec'')]),
      (''sys_timer_getoverrun'', [C_typedef ''timer_t'']),
      (''sys_timer_settime'', [C_typedef ''timer_t'', C_int, user_ptr (C_const (C_struct ''itimerspec'')), user_ptr (C_struct ''itimerspec'')]),
      (''sys_timer_delete'', [C_typedef ''timer_t'']),
      (''sys_clock_settime'', [C_typedef ''clockid_t'', user_ptr (C_const (C_struct ''timespec''))])]"

definition decls_sys_clock_gettime :: "hconfig \<Rightarrow> (string \<times> ctype list) list" where
  "decls_sys_clock_gettime C =
     [(''sys_clock_gettime'', [C_typedef ''clockid_t'', user_ptr (C_struct ''timespec'')]),
      (''sys_clock_adjtime'', [C_typedef ''clockid_t'', user_ptr (C_struct ''timex'')]),
      (''sys_clock_getres'', [C_typedef ''clockid_t'', user_ptr (C_struct ''timespec'')]),
      (''sys_clock_nanosleep'', [C_typedef ''clockid_t'', C_int, user_ptr (C_const (C_struct ''timespec'')), user_ptr (C_struct ''timespec'')]),
      (''sys_nice'', [C_int]),
      (''sys_sched_setscheduler'', [C_typedef ''pid_t'', C_int, user_ptr (C_struct ''sched_param'')]),
      (''sys_sched_setparam'', [C_typedef ''pid_t'', user_ptr (C_struct ''sched_param'')]),
      (''sys_sched_setattr'', [C_typedef ''pid_t'', user_ptr (C_struct ''sched_attr''), C_unsigned_int]),
      (''sys_sched_getscheduler'', [C_typedef ''pid_t'']),
      (''sys_sched_getparam'', [C_typedef ''pid_t'', user_ptr (C_struct ''sched_param'')]),
      (''sys_sched_getattr'', [C_typedef ''pid_t'', user_ptr (C_struct ''sched_attr''), C_unsigned_int, C_unsigned_int]),
      (''sys_sched_setaffinity'', [C_typedef ''pid_t'', C_unsigned_int, user_ptr C_unsigned_long]),
      (''sys_sched_getaffinity'', [C_typedef ''pid_t'', C_unsigned_int, user_ptr C_unsigned_long]),
      (''sys_sched_yield'', []),
      (''sys_sched_get_priority_max'', [C_int]),
      (''sys_sched_get_priority_min'', [C_int])]"

definition decls_sys_sched_rr_get_interval :: "hconfig \<Rightarrow> (string \<times> ctype list) list" where
  "decls_sys_sched_rr_get_interval C =
     [(''sys_sched_rr_get_interval'', [C_typedef ''pid_t'', user_ptr (C_struct ''timespec'')]),
      (''sys_setpriority'', [C_int, C_int, C_int]),
      (''sys_getpriority'', [C_int, C_int]),
      (''sys_shutdown'', [C_int, C_int]),
      (''sys_reboot'', [C_int, C_int, C_unsigned_int, user_ptr C_void]),
      (''sys_restart_syscall'', []),
      (''sys_kexec_load'', [C_unsigned_long, C_unsigned_long, user_ptr (C_struct ''kexec_segment''), C_unsigned_long]),
      (''sys_kexec_file_load'', [C_int, C_int, C_unsigned_long, user_ptr (C_const C_char), C_unsigned_long]),
      (''sys_exit'', [C_int]),
      (''sys_exit_group'', [C_int]),
      (''sys_wait4'', [C_typedef ''pid_t'', user_ptr C_int, C_int, user_ptr (C_struct ''rusage'')]),
      (''sys_waitid'', [C_int, C_typedef ''pid_t'', user_ptr (C_struct ''siginfo''), C_int, user_ptr (C_struct ''rusage'')]),
      (''sys_waitpid'', [C_typedef ''pid_t'', user_ptr C_int, C_int]),
      (''sys_set_tid_address'', [user_ptr C_int]),
      (''sys_futex'', [user_ptr (C_typedef ''u32''), C_int, C_typedef ''u32'', user_ptr (C_struct ''timespec''), user_ptr (C_typedef ''u32''), C_typedef ''u32''])]"

definition decls_sys_init_module :: "hconfig \<Rightarrow> (string \<times> ctype list) list" where
  "decls_sys_init_module C =
     [(''sys_init_module'', [user_ptr C_void, C_unsigned_long, user_ptr (C_const C_char)]),
      (''sys_delete_module'', [user_ptr (C_const C_char), C_unsigned_int])]
     @ (if CONFIG_OLD_SIGSUSPEND C then
             [(''sys_sigsuspend'', [C_typedef ''old_sigset_t''])]
        else [])
     @ (if CONFIG_OLD_SIGSUSPEND3 C then
             [(''sys_sigsuspend'', [C_int, C_int, C_typedef ''old_sigset_t''])]
        else [])
     @ [(''sys_rt_sigsuspend'', [user_ptr (C_typedef ''sigset_t''), C_typedef ''size_t''])]
     @ (if CONFIG_OLD_SIGACTION C then
             [(''sys_sigaction'', [C_int, user_ptr (C_const (C_struct ''old_sigaction'')), user_ptr (C_struct ''old_sigaction'')])]
        else [])
     @ (if \<not> CONFIG_ODD_RT_SIGACTION C then
             [(''sys_rt_sigaction'', [C_int, user_ptr (C_const (C_struct ''sigaction'')), user_ptr (C_struct ''sigaction''), C_typedef ''size_t''])]
        else [])
     @ [(''sys_rt_sigprocmask'', [C_int, user_ptr (C_typedef ''sigset_t''), user_ptr (C_typedef ''sigset_t''), C_typedef ''size_t'']),
      (''sys_rt_sigpending'', [user_ptr (C_typedef ''sigset_t''), C_typedef ''size_t'']),
      (''sys_rt_sigtimedwait'', [user_ptr (C_const (C_typedef ''sigset_t'')), user_ptr (C_typedef ''siginfo_t''), user_ptr (C_const (C_struct ''timespec'')), C_typedef ''size_t'']),
      (''sys_rt_tgsigqueueinfo'', [C_typedef ''pid_t'', C_typedef ''pid_t'', C_int, user_ptr (C_typedef ''siginfo_t'')]),
      (''sys_kill'', [C_typedef ''pid_t'', C_int]),
      (''sys_tgkill'', [C_typedef ''pid_t'', C_typedef ''pid_t'', C_int]),
      (''sys_tkill'', [C_typedef ''pid_t'', C_int]),
      (''sys_rt_sigqueueinfo'', [C_typedef ''pid_t'', C_int, user_ptr (C_typedef ''siginfo_t'')]),
      (''sys_sgetmask'', [])]"

definition decls_sys_ssetmask :: "hconfig \<Rightarrow> (string \<times> ctype list) list" where
  "decls_sys_ssetmask C =
     [(''sys_ssetmask'', [C_int]),
      (''sys_signal'', [C_int, C_typedef ''__sighandler_t'']),
      (''sys_pause'', []),
      (''sys_sync'', []),
      (''sys_fsync'', [C_unsigned_int]),
      (''sys_fdatasync'', [C_unsigned_int]),
      (''sys_bdflush'', [C_int, C_long]),
      (''sys_mount'', [user_ptr C_char, user_ptr C_char, user_ptr C_char, C_unsigned_long, user_ptr C_void]),
      (''sys_umount'', [user_ptr C_char, C_int]),
      (''sys_oldumount'', [user_ptr C_char]),
      (''sys_truncate'', [user_ptr (C_const C_char), C_long]),
      (''sys_ftruncate'', [C_unsigned_int, C_unsigned_long]),
      (''sys_stat'', [user_ptr (C_const C_char), user_ptr (C_struct ''__old_kernel_stat'')]),
      (''sys_statfs'', [user_ptr (C_const C_char), user_ptr (C_struct ''statfs'')]),
      (''sys_statfs64'', [user_ptr (C_const C_char), C_typedef ''size_t'', user_ptr (C_struct ''statfs64'')]),
      (''sys_fstatfs'', [C_unsigned_int, user_ptr (C_struct ''statfs'')])]"

definition decls_sys_fstatfs64 :: "hconfig \<Rightarrow> (string \<times> ctype list) list" where
  "decls_sys_fstatfs64 C =
     [(''sys_fstatfs64'', [C_unsigned_int, C_typedef ''size_t'', user_ptr (C_struct ''statfs64'')]),
      (''sys_lstat'', [user_ptr (C_const C_char), user_ptr (C_struct ''__old_kernel_stat'')]),
      (''sys_fstat'', [C_unsigned_int, user_ptr (C_struct ''__old_kernel_stat'')]),
      (''sys_newstat'', [user_ptr (C_const C_char), user_ptr (C_struct ''stat'')]),
      (''sys_newlstat'', [user_ptr (C_const C_char), user_ptr (C_struct ''stat'')]),
      (''sys_newfstat'', [C_unsigned_int, user_ptr (C_struct ''stat'')]),
      (''sys_ustat'', [C_unsigned, user_ptr (C_struct ''ustat'')])]
     @ (if ARCH_WANT_STAT64 C \<or> ARCH_WANT_COMPAT_STAT64 C then
             [(''sys_stat64'', [user_ptr (C_const C_char), user_ptr (C_struct ''stat64'')]),
              (''sys_fstat64'', [C_unsigned_long, user_ptr (C_struct ''stat64'')]),
              (''sys_lstat64'', [user_ptr (C_const C_char), user_ptr (C_struct ''stat64'')]),
              (''sys_fstatat64'', [C_int, user_ptr (C_const C_char), user_ptr (C_struct ''stat64''), C_int])]
        else [])
     @ (if LONG_BITS C = 32 then
             [(''sys_truncate64'', [user_ptr (C_const C_char), C_typedef ''loff_t'']),
              (''sys_ftruncate64'', [C_unsigned_int, C_typedef ''loff_t''])]
        else [])"

definition decls_sys_setxattr :: "hconfig \<Rightarrow> (string \<times> ctype list) list" where
  "decls_sys_setxattr C =
     [(''sys_setxattr'', [user_ptr (C_const C_char), user_ptr (C_const C_char), user_ptr (C_const C_void), C_typedef ''size_t'', C_int]),
      (''sys_lsetxattr'', [user_ptr (C_const C_char), user_ptr (C_const C_char), user_ptr (C_const C_void), C_typedef ''size_t'', C_int]),
      (''sys_fsetxattr'', [C_int, user_ptr (C_const C_char), user_ptr (C_const C_void), C_typedef ''size_t'', C_int]),
      (''sys_getxattr'', [user_ptr (C_const C_char), user_ptr (C_const C_char), user_ptr C_void, C_typedef ''size_t'']),
      (''sys_lgetxattr'', [user_ptr (C_const C_char), user_ptr (C_const C_char), user_ptr C_void, C_typedef ''size_t'']),
      (''sys_fgetxattr'', [C_int, user_ptr (C_const C_char), user_ptr C_void, C_typedef ''size_t'']),
      (''sys_listxattr'', [user_ptr (C_const C_char), user_ptr C_char, C_typedef ''size_t'']),
      (''sys_llistxattr'', [user_ptr (C_const C_char), user_ptr C_char, C_typedef ''size_t'']),
      (''sys_flistxattr'', [C_int, user_ptr C_char, C_typedef ''size_t'']),
      (''sys_removexattr'', [user_ptr (C_const C_char), user_ptr (C_const C_char)]),
      (''sys_lremovexattr'', [user_ptr (C_const C_char), user_ptr (C_const C_char)]),
      (''sys_fremovexattr'', [C_int, user_ptr (C_const C_char)])]"

definition decls_sys_brk :: "hconfig \<Rightarrow> (string \<times> ctype list) list" where
  "decls_sys_brk C =
     [(''sys_brk'', [C_unsigned_long]),
      (''sys_mprotect'', [C_unsigned_long, C_typedef ''size_t'', C_unsigned_long]),
      (''sys_mremap'', [C_unsigned_long, C_unsigned_long, C_unsigned_long, C_unsigned_long, C_unsigned_long]),
      (''sys_remap_file_pages'', [C_unsigned_long, C_unsigned_long, C_unsigned_long, C_unsigned_long, C_unsigned_long]),
      (''sys_msync'', [C_unsigned_long, C_typedef ''size_t'', C_int]),
      (''sys_fadvise64'', [C_int, C_typedef ''loff_t'', C_typedef ''size_t'', C_int]),
      (''sys_fadvise64_64'', [C_int, C_typedef ''loff_t'', C_typedef ''loff_t'', C_int]),
      (''sys_munmap'', [C_unsigned_long, C_typedef ''size_t'']),
      (''sys_mlock'', [C_unsigned_long, C_typedef ''size_t'']),
      (''sys_munlock'', [C_unsigned_long, C_typedef ''size_t'']),
      (''sys_mlockall'', [C_int]),
      (''sys_munlockall'', []),
      (''sys_madvise'', [C_unsigned_long, C_typedef ''size_t'', C_int]),
      (''sys_mincore'', [C_unsigned_long, C_typedef ''size_t'', user_ptr C_unsigned_char])]"

definition decls_sys_pivot_root :: "hconfig \<Rightarrow> (string \<times> ctype list) list" where
  "decls_sys_pivot_root C =
     [(''sys_pivot_root'', [user_ptr (C_const C_char), user_ptr (C_const C_char)]),
      (''sys_chroot'', [user_ptr (C_const C_char)]),
      (''sys_mknod'', [user_ptr (C_const C_char), C_typedef ''umode_t'', C_unsigned]),
      (''sys_link'', [user_ptr (C_const C_char), user_ptr (C_const C_char)]),
      (''sys_symlink'', [user_ptr (C_const C_char), user_ptr (C_const C_char)]),
      (''sys_unlink'', [user_ptr (C_const C_char)]),
      (''sys_rename'', [user_ptr (C_const C_char), user_ptr (C_const C_char)]),
      (''sys_chmod'', [user_ptr (C_const C_char), C_typedef ''umode_t'']),
      (''sys_fchmod'', [C_unsigned_int, C_typedef ''umode_t''])]"

definition decls_sys_fcntl :: "hconfig \<Rightarrow> (string \<times> ctype list) list" where
  "decls_sys_fcntl C =
     [(''sys_fcntl'', [C_unsigned_int, C_unsigned_int, C_unsigned_long])]
     @ (if LONG_BITS C = 32 then
             [(''sys_fcntl64'', [C_unsigned_int, C_unsigned_int, C_unsigned_long])]
        else [])
     @ [(''sys_pipe'', [user_ptr C_int]),
      (''sys_pipe2'', [user_ptr C_int, C_int]),
      (''sys_dup'', [C_unsigned_int]),
      (''sys_dup2'', [C_unsigned_int, C_unsigned_int]),
      (''sys_dup3'', [C_unsigned_int, C_unsigned_int, C_int]),
      (''sys_ioperm'', [C_unsigned_long, C_unsigned_long, C_int]),
      (''sys_ioctl'', [C_unsigned_int, C_unsigned_int, C_unsigned_long]),
      (''sys_flock'', [C_unsigned_int, C_unsigned_int]),
      (''sys_io_setup'', [C_unsigned, user_ptr (C_typedef ''aio_context_t'')]),
      (''sys_io_destroy'', [C_typedef ''aio_context_t'']),
      (''sys_io_getevents'', [C_typedef ''aio_context_t'', C_long, C_long, user_ptr (C_struct ''io_event''), user_ptr (C_struct ''timespec'')]),
      (''sys_io_submit'', [C_typedef ''aio_context_t'', C_long, user_ptr (user_ptr (C_struct ''iocb''))]),
      (''sys_io_cancel'', [C_typedef ''aio_context_t'', user_ptr (C_struct ''iocb''), user_ptr (C_struct ''io_event'')]),
      (''sys_sendfile'', [C_int, C_int, user_ptr (C_typedef ''off_t''), C_typedef ''size_t''])]"

definition decls_sys_sendfile64 :: "hconfig \<Rightarrow> (string \<times> ctype list) list" where
  "decls_sys_sendfile64 C =
     [(''sys_sendfile64'', [C_int, C_int, user_ptr (C_typedef ''loff_t''), C_typedef ''size_t'']),
      (''sys_readlink'', [user_ptr (C_const C_char), user_ptr C_char, C_int]),
      (''sys_creat'', [user_ptr (C_const C_char), C_typedef ''umode_t'']),
      (''sys_open'', [user_ptr (C_const C_char), C_int, C_typedef ''umode_t'']),
      (''sys_close'', [C_unsigned_int]),
      (''sys_access'', [user_ptr (C_const C_char), C_int]),
      (''sys_vhangup'', []),
      (''sys_chown'', [user_ptr (C_const C_char), C_typedef ''uid_t'', C_typedef ''gid_t'']),
      (''sys_lchown'', [user_ptr (C_const C_char), C_typedef ''uid_t'', C_typedef ''gid_t'']),
      (''sys_fchown'', [C_unsigned_int, C_typedef ''uid_t'', C_typedef ''gid_t''])]"

definition decls_sys_chown16 :: "hconfig \<Rightarrow> (string \<times> ctype list) list" where
  "decls_sys_chown16 C =
     (if CONFIG_HAVE_UID16 C then
             [(''sys_chown16'', [user_ptr (C_const C_char), C_typedef ''old_uid_t'', C_typedef ''old_gid_t'']),
              (''sys_lchown16'', [user_ptr (C_const C_char), C_typedef ''old_uid_t'', C_typedef ''old_gid_t'']),
              (''sys_fchown16'', [C_unsigned_int, C_typedef ''old_uid_t'', C_typedef ''old_gid_t'']),
              (''sys_setregid16'', [C_typedef ''old_gid_t'', C_typedef ''old_gid_t'']),
              (''sys_setgid16'', [C_typedef ''old_gid_t'']),
              (''sys_setreuid16'', [C_typedef ''old_uid_t'', C_typedef ''old_uid_t'']),
              (''sys_setuid16'', [C_typedef ''old_uid_t'']),
              (''sys_setresuid16'', [C_typedef ''old_uid_t'', C_typedef ''old_uid_t'', C_typedef ''old_uid_t'']),
              (''sys_getresuid16'', [user_ptr (C_typedef ''old_uid_t''), user_ptr (C_typedef ''old_uid_t''), user_ptr (C_typedef ''old_uid_t'')]),
              (''sys_setresgid16'', [C_typedef ''old_gid_t'', C_typedef ''old_gid_t'', C_typedef ''old_gid_t'']),
              (''sys_getresgid16'', [user_ptr (C_typedef ''old_gid_t''), user_ptr (C_typedef ''old_gid_t''), user_ptr (C_typedef ''old_gid_t'')]),
              (''sys_setfsuid16'', [C_typedef ''old_uid_t'']),
              (''sys_setfsgid16'', [C_typedef ''old_gid_t'']),
              (''sys_getgroups16'', [C_int, user_ptr (C_typedef ''old_gid_t'')]),
              (''sys_setgroups16'', [C_int, user_ptr (C_typedef ''old_gid_t'')]),
              (''sys_getuid16'', []),
              (''sys_geteuid16'', []),
              (''sys_getgid16'', []),
              (''sys_getegid16'', [])]
        else [])"

definition decls_sys_utime :: "hconfig \<Rightarrow> (string \<times> ctype list) list" where
  "decls_sys_utime C =
     [(''sys_utime'', [user_ptr C_char, user_ptr (C_struct ''utimbuf'')]),
      (''sys_utimes'', [user_ptr C_char, user_ptr (C_struct ''timeval'')]),
      (''sys_lseek'', [C_unsigned_int, C_typedef ''off_t'', C_unsigned_int]),
      (''sys_llseek'', [C_unsigned_int, C_unsigned_long, C_unsigned_long, user_ptr (C_typedef ''loff_t''), C_unsigned_int]),
      (''sys_read'', [C_unsigned_int, user_ptr C_char, C_typedef ''size_t'']),
      (''sys_readahead'', [C_int, C_typedef ''loff_t'', C_typedef ''size_t'']),
      (''sys_readv'', [C_unsigned_long, user_ptr (C_const (C_struct ''iovec'')), C_unsigned_long]),
      (''sys_write'', [C_unsigned_int, user_ptr (C_const C_char), C_typedef ''size_t'']),
      (''sys_writev'', [C_unsigned_long, user_ptr (C_const (C_struct ''iovec'')), C_unsigned_long]),
      (''sys_pread64'', [C_unsigned_int, user_ptr C_char, C_typedef ''size_t'', C_typedef ''loff_t'']),
      (''sys_pwrite64'', [C_unsigned_int, user_ptr (C_const C_char), C_typedef ''size_t'', C_typedef ''loff_t'']),
      (''sys_preadv'', [C_unsigned_long, user_ptr (C_const (C_struct ''iovec'')), C_unsigned_long, C_unsigned_long, C_unsigned_long]),
      (''sys_preadv2'', [C_unsigned_long, user_ptr (C_const (C_struct ''iovec'')), C_unsigned_long, C_unsigned_long, C_unsigned_long, C_typedef ''rwf_t'']),
      (''sys_pwritev'', [C_unsigned_long, user_ptr (C_const (C_struct ''iovec'')), C_unsigned_long, C_unsigned_long, C_unsigned_long]),
      (''sys_pwritev2'', [C_unsigned_long, user_ptr (C_const (C_struct ''iovec'')), C_unsigned_long, C_unsigned_long, C_unsigned_long, C_typedef ''rwf_t'']),
      (''sys_getcwd'', [user_ptr C_char, C_unsigned_long])]"

definition decls_sys_mkdir :: "hconfig \<Rightarrow> (string \<times> ctype list) list" where
  "decls_sys_mkdir C =
     [(''sys_mkdir'', [user_ptr (C_const C_char), C_typedef ''umode_t'']),
      (''sys_chdir'', [user_ptr (C_const C_char)]),
      (''sys_fchdir'', [C_unsigned_int]),
      (''sys_rmdir'', [user_ptr (C_const C_char)]),
      (''sys_lookup_dcookie'', [C_typedef ''u64'', user_ptr C_char, C_typedef ''size_t'']),
      (''sys_quotactl'', [C_unsigned_int, user_ptr (C_const C_char), C_typedef ''qid_t'', user_ptr C_void]),
      (''sys_getdents'', [C_unsigned_int, user_ptr (C_struct ''linux_dirent''), C_unsigned_int]),
      (''sys_getdents64'', [C_unsigned_int, user_ptr (C_struct ''linux_dirent64''), C_unsigned_int]),
      (''sys_setsockopt'', [C_int, C_int, C_int, user_ptr C_char, C_int]),
      (''sys_getsockopt'', [C_int, C_int, C_int, user_ptr C_char, user_ptr C_int]),
      (''sys_bind'', [C_int, user_ptr (C_struct ''sockaddr''), C_int]),
      (''sys_connect'', [C_int, user_ptr (C_struct ''sockaddr''), C_int]),
      (''sys_accept'', [C_int, user_ptr (C_struct ''sockaddr''), user_ptr C_int]),
      (''sys_accept4'', [C_int, user_ptr (C_struct ''sockaddr''), user_ptr C_int, C_int]),
      (''sys_getsockname'', [C_int, user_ptr (C_struct ''sockaddr''), user_ptr C_int]),
      (''sys_getpeername'', [C_int, user_ptr (C_struct ''sockaddr''), user_ptr C_int])]"

definition decls_sys_send :: "hconfig \<Rightarrow> (string \<times> ctype list) list" where
  "decls_sys_send C =
     [(''sys_send'', [C_int, user_ptr C_void, C_typedef ''size_t'', C_unsigned]),
      (''sys_sendto'', [C_int, user_ptr C_void, C_typedef ''size_t'', C_unsigned, user_ptr (C_struct ''sockaddr''), C_int]),
      (''sys_sendmsg'', [C_int, user_ptr (C_struct ''user_msghdr''), C_unsigned]),
      (''sys_sendmmsg'', [C_int, user_ptr (C_struct ''mmsghdr''), C_unsigned_int, C_unsigned]),
      (''sys_recv'', [C_int, user_ptr C_void, C_typedef ''size_t'', C_unsigned]),
      (''sys_recvfrom'', [C_int, user_ptr C_void, C_typedef ''size_t'', C_unsigned, user_ptr (C_struct ''sockaddr''), user_ptr C_int]),
      (''sys_recvmsg'', [C_int, user_ptr (C_struct ''user_msghdr''), C_unsigned]),
      (''sys_recvmmsg'', [C_int, user_ptr (C_struct ''mmsghdr''), C_unsigned_int, C_unsigned, user_ptr (C_struct ''timespec'')]),
      (''sys_socket'', [C_int, C_int, C_int]),
      (''sys_socketpair'', [C_int, C_int, C_int, user_ptr C_int]),
      (''sys_socketcall'', [C_int, user_ptr C_unsigned_long]),
      (''sys_listen'', [C_int, C_int]),
      (''sys_poll'', [user_ptr (C_struct ''pollfd''), C_unsigned_int, C_int]),
      (''sys_select'', [C_int, user_ptr (C_typedef ''fd_set''), user_ptr (C_typedef ''fd_set''), user_ptr (C_typedef ''fd_set''), user_ptr (C_struct ''timeval'')]),
      (''sys_old_select'', [user_ptr (C_struct ''sel_arg_struct'')]),
      (''sys_epoll_create'', [C_int])]"

definition decls_sys_epoll_create1 :: "hconfig \<Rightarrow> (string \<times> ctype list) list" where
  "decls_sys_epoll_create1 C =
     [(''sys_epoll_create1'', [C_int]),
      (''sys_epoll_ctl'', [C_int, C_int, C_int, user_ptr (C_struct ''epoll_event'')]),
      (''sys_epoll_wait'', [C_int, user_ptr (C_struct ''epoll_event''), C_int, C_int]),
      (''sys_epoll_pwait'', [C_int, user_ptr (C_struct ''epoll_event''), C_int, C_int, user_ptr (C_const (C_typedef ''sigset_t'')), C_typedef ''size_t'']),
      (''sys_gethostname'', [user_ptr C_char, C_int]),
      (''sys_sethostname'', [user_ptr C_char, C_int]),
      (''sys_setdomainname'', [user_ptr C_char, C_int]),
      (''sys_newuname'', [user_ptr (C_struct ''new_utsname'')]),
      (''sys_uname'', [user_ptr (C_struct ''old_utsname'')]),
      (''sys_olduname'', [user_ptr (C_struct ''oldold_utsname'')])]"

definition decls_sys_getrlimit :: "hconfig \<Rightarrow> (string \<times> ctype list) list" where
  "decls_sys_getrlimit C =
     [(''sys_getrlimit'', [C_unsigned_int, user_ptr (C_struct ''rlimit'')])]
     @ (if ARCH_WANT_SYS_OLD_GETRLIMIT C then
             [(''sys_old_getrlimit'', [C_unsigned_int, user_ptr (C_struct ''rlimit'')])]
        else [])
     @ [(''sys_setrlimit'', [C_unsigned_int, user_ptr (C_struct ''rlimit'')]),
      (''sys_prlimit64'', [C_typedef ''pid_t'', C_unsigned_int, user_ptr (C_const (C_struct ''rlimit64'')), user_ptr (C_struct ''rlimit64'')]),
      (''sys_getrusage'', [C_int, user_ptr (C_struct ''rusage'')]),
      (''sys_umask'', [C_int]),
      (''sys_msgget'', [C_typedef ''key_t'', C_int]),
      (''sys_msgsnd'', [C_int, user_ptr (C_struct ''msgbuf''), C_typedef ''size_t'', C_int]),
      (''sys_msgrcv'', [C_int, user_ptr (C_struct ''msgbuf''), C_typedef ''size_t'', C_long, C_int]),
      (''sys_msgctl'', [C_int, C_int, user_ptr (C_struct ''msqid_ds'')])]"

definition decls_sys_semget :: "hconfig \<Rightarrow> (string \<times> ctype list) list" where
  "decls_sys_semget C =
     [(''sys_semget'', [C_typedef ''key_t'', C_int, C_int]),
      (''sys_semop'', [C_int, user_ptr (C_struct ''sembuf''), C_unsigned]),
      (''sys_semctl'', [C_int, C_int, C_int, C_unsigned_long]),
      (''sys_semtimedop'', [C_int, user_ptr (C_struct ''sembuf''), C_unsigned, user_ptr (C_const (C_struct ''timespec''))]),
      (''sys_shmat'', [C_int, user_ptr C_char, C_int]),
      (''sys_shmget'', [C_typedef ''key_t'', C_typedef ''size_t'', C_int]),
      (''sys_shmdt'', [user_ptr C_char]),
      (''sys_shmctl'', [C_int, C_int, user_ptr (C_struct ''shmid_ds'')]),
      (''sys_ipc'', [C_unsigned_int, C_int, C_unsigned_long, C_unsigned_long, user_ptr C_void, C_long])]"

definition decls_sys_mq_open :: "hconfig \<Rightarrow> (string \<times> ctype list) list" where
  "decls_sys_mq_open C =
     [(''sys_mq_open'', [user_ptr (C_const C_char), C_int, C_typedef ''umode_t'', user_ptr (C_struct ''mq_attr'')]),
      (''sys_mq_unlink'', [user_ptr (C_const C_char)]),
      (''sys_mq_timedsend'', [C_typedef ''mqd_t'', user_ptr (C_const C_char), C_typedef ''size_t'', C_unsigned_int, user_ptr (C_const (C_struct ''timespec''))]),
      (''sys_mq_timedreceive'', [C_typedef ''mqd_t'', user_ptr C_char, C_typedef ''size_t'', user_ptr C_unsigned_int, user_ptr (C_const (C_struct ''timespec''))]),
      (''sys_mq_notify'', [C_typedef ''mqd_t'', user_ptr (C_const (C_struct ''sigevent''))]),
      (''sys_mq_getsetattr'', [C_typedef ''mqd_t'', user_ptr (C_const (C_struct ''mq_attr'')), user_ptr (C_struct ''mq_attr'')]),
      (''sys_pciconfig_iobase'', [C_long, C_unsigned_long, C_unsigned_long]),
      (''sys_pciconfig_read'', [C_unsigned_long, C_unsigned_long, C_unsigned_long, C_unsigned_long, user_ptr C_void]),
      (''sys_pciconfig_write'', [C_unsigned_long, C_unsigned_long, C_unsigned_long, C_unsigned_long, user_ptr C_void])]"

definition decls_sys_prctl :: "hconfig \<Rightarrow> (string \<times> ctype list) list" where
  "decls_sys_prctl C =
     [(''sys_prctl'', [C_int, C_unsigned_long, C_unsigned_long, C_unsigned_long, C_unsigned_long]),
      (''sys_swapon'', [user_ptr (C_const C_char), C_int]),
      (''sys_swapoff'', [user_ptr (C_const C_char)]),
      (''sys_sysctl'', [user_ptr (C_struct ''__sysctl_args'')]),
      (''sys_sysinfo'', [user_ptr (C_struct ''sysinfo'')]),
      (''sys_sysfs'', [C_int, C_unsigned_long, C_unsigned_long]),
      (''sys_syslog'', [C_int, user_ptr C_char, C_int]),
      (''sys_uselib'', [user_ptr (C_const C_char)]),
      (''sys_ni_syscall'', []),
      (''sys_ptrace'', [C_long, C_long, C_unsigned_long, C_unsigned_long])]"

definition decls_sys_add_key :: "hconfig \<Rightarrow> (string \<times> ctype list) list" where
  "decls_sys_add_key C =
     [(''sys_add_key'', [user_ptr (C_const C_char), user_ptr (C_const C_char), user_ptr (C_const C_void), C_typedef ''size_t'', C_typedef ''key_serial_t'']),
      (''sys_request_key'', [user_ptr (C_const C_char), user_ptr (C_const C_char), user_ptr (C_const C_char), C_typedef ''key_serial_t'']),
      (''sys_keyctl'', [C_int, C_unsigned_long, C_unsigned_long, C_unsigned_long, C_unsigned_long]),
      (''sys_ioprio_set'', [C_int, C_int, C_int]),
      (''sys_ioprio_get'', [C_int, C_int]),
      (''sys_set_mempolicy'', [C_int, user_ptr (C_const C_unsigned_long), C_unsigned_long]),
      (''sys_migrate_pages'', [C_typedef ''pid_t'', C_unsigned_long, user_ptr (C_const C_unsigned_long), user_ptr (C_const C_unsigned_long)]),
      (''sys_move_pages'', [C_typedef ''pid_t'', C_unsigned_long, user_ptr (user_ptr (C_const C_void)), user_ptr (C_const C_int), user_ptr C_int, C_int]),
      (''sys_mbind'', [C_unsigned_long, C_unsigned_long, C_unsigned_long, user_ptr (C_const C_unsigned_long), C_unsigned_long, C_unsigned]),
      (''sys_get_mempolicy'', [user_ptr C_int, user_ptr C_unsigned_long, C_unsigned_long, C_unsigned_long, C_unsigned_long])]"

definition decls_sys_inotify_init :: "hconfig \<Rightarrow> (string \<times> ctype list) list" where
  "decls_sys_inotify_init C =
     [(''sys_inotify_init'', []),
      (''sys_inotify_init1'', [C_int]),
      (''sys_inotify_add_watch'', [C_int, user_ptr (C_const C_char), C_typedef ''u32'']),
      (''sys_inotify_rm_watch'', [C_int, C_typedef ''__s32'']),
      (''sys_spu_run'', [C_int, user_ptr (C_typedef ''__u32''), user_ptr (C_typedef ''__u32'')]),
      (''sys_spu_create'', [user_ptr (C_const C_char), C_unsigned_int, C_typedef ''umode_t'', C_int]),
      (''sys_mknodat'', [C_int, user_ptr (C_const C_char), C_typedef ''umode_t'', C_unsigned]),
      (''sys_mkdirat'', [C_int, user_ptr (C_const C_char), C_typedef ''umode_t'']),
      (''sys_unlinkat'', [C_int, user_ptr (C_const C_char), C_int]),
      (''sys_symlinkat'', [user_ptr (C_const C_char), C_int, user_ptr (C_const C_char)]),
      (''sys_linkat'', [C_int, user_ptr (C_const C_char), C_int, user_ptr (C_const C_char), C_int]),
      (''sys_renameat'', [C_int, user_ptr (C_const C_char), C_int, user_ptr (C_const C_char)]),
      (''sys_renameat2'', [C_int, user_ptr (C_const C_char), C_int, user_ptr (C_const C_char), C_unsigned_int]),
      (''sys_futimesat'', [C_int, user_ptr (C_const C_char), user_ptr (C_struct ''timeval'')]),
      (''sys_faccessat'', [C_int, user_ptr (C_const C_char), C_int]),
      (''sys_fchmodat'', [C_int, user_ptr (C_const C_char), C_typedef ''umode_t''])]"

definition decls_sys_fchownat :: "hconfig \<Rightarrow> (string \<times> ctype list) list" where
  "decls_sys_fchownat C =
     [(''sys_fchownat'', [C_int, user_ptr (C_const C_char), C_typedef ''uid_t'', C_typedef ''gid_t'', C_int]),
      (''sys_openat'', [C_int, user_ptr (C_const C_char), C_int, C_typedef ''umode_t'']),
      (''sys_newfstatat'', [C_int, user_ptr (C_const C_char), user_ptr (C_struct ''stat''), C_int]),
      (''sys_readlinkat'', [C_int, user_ptr (C_const C_char), user_ptr C_char, C_int]),
      (''sys_utimensat'', [C_int, user_ptr (C_const C_char), user_ptr (C_struct ''timespec''), C_int]),
      (''sys_unshare'', [C_unsigned_long]),
      (''sys_splice'', [C_int, user_ptr (C_typedef ''loff_t''), C_int, user_ptr (C_typedef ''loff_t''), C_typedef ''size_t'', C_unsigned_int]),
      (''sys_vmsplice'', [C_int, user_ptr (C_const (C_struct ''iovec'')), C_unsigned_long, C_unsigned_int]),
      (''sys_tee'', [C_int, C_int, C_typedef ''size_t'', C_unsigned_int])]"

definition decls_sys_sync_file_range :: "hconfig \<Rightarrow> (string \<times> ctype list) list" where
  "decls_sys_sync_file_range C =
     [(''sys_sync_file_range'', [C_int, C_typedef ''loff_t'', C_typedef ''loff_t'', C_unsigned_int]),
      (''sys_sync_file_range2'', [C_int, C_unsigned_int, C_typedef ''loff_t'', C_typedef ''loff_t'']),
      (''sys_get_robust_list'', [C_int, user_ptr (user_ptr (C_struct ''robust_list_head'')), user_ptr (C_typedef ''size_t'')]),
      (''sys_set_robust_list'', [user_ptr (C_struct ''robust_list_head''), C_typedef ''size_t'']),
      (''sys_getcpu'', [user_ptr C_unsigned, user_ptr C_unsigned, user_ptr (C_struct ''getcpu_cache'')]),
      (''sys_signalfd'', [C_int, user_ptr (C_typedef ''sigset_t''), C_typedef ''size_t'']),
      (''sys_signalfd4'', [C_int, user_ptr (C_typedef ''sigset_t''), C_typedef ''size_t'', C_int]),
      (''sys_timerfd_create'', [C_int, C_int]),
      (''sys_timerfd_settime'', [C_int, C_int, user_ptr (C_const (C_struct ''itimerspec'')), user_ptr (C_struct ''itimerspec'')]),
      (''sys_timerfd_gettime'', [C_int, user_ptr (C_struct ''itimerspec'')]),
      (''sys_eventfd'', [C_unsigned_int]),
      (''sys_eventfd2'', [C_unsigned_int, C_int]),
      (''sys_memfd_create'', [user_ptr (C_const C_char), C_unsigned_int]),
      (''sys_userfaultfd'', [C_int]),
      (''sys_fallocate'', [C_int, C_int, C_typedef ''loff_t'', C_typedef ''loff_t'']),
      (''sys_old_readdir'', [C_unsigned_int, user_ptr (C_struct ''old_linux_dirent''), C_unsigned_int])]"

definition decls_sys_pselect6 :: "hconfig \<Rightarrow> (string \<times> ctype list) list" where
  "decls_sys_pselect6 C =
     [(''sys_pselect6'', [C_int, user_ptr (C_typedef ''fd_set''), user_ptr (C_typedef ''fd_set''), user_ptr (C_typedef ''fd_set''), user_ptr (C_struct ''timespec''), user_ptr C_void]),
      (''sys_ppoll'', [user_ptr (C_struct ''pollfd''), C_unsigned_int, user_ptr (C_struct ''timespec''), user_ptr (C_const (C_typedef ''sigset_t'')), C_typedef ''size_t'']),
      (''sys_fanotify_init'', [C_unsigned_int, C_unsigned_int]),
      (''sys_fanotify_mark'', [C_int, C_unsigned_int, C_typedef ''u64'', C_int, user_ptr (C_const C_char)]),
      (''sys_syncfs'', [C_int]),
      (''sys_fork'', []),
      (''sys_vfork'', [])]
     @ (if CONFIG_CLONE_BACKWARDS C then
             [(''sys_clone'', [C_unsigned_long, C_unsigned_long, user_ptr C_int, C_unsigned_long, user_ptr C_int])]
        else (if CONFIG_CLONE_BACKWARDS3 C then
                     [(''sys_clone'', [C_unsigned_long, C_unsigned_long, C_int, user_ptr C_int, user_ptr C_int, C_unsigned_long])]
                else [(''sys_clone'', [C_unsigned_long, C_unsigned_long, user_ptr C_int, user_ptr C_int, C_unsigned_long])]))"

definition decls_sys_execve :: "hconfig \<Rightarrow> (string \<times> ctype list) list" where
  "decls_sys_execve C =
     [(''sys_execve'', [user_ptr (C_const C_char), user_ptr (C_const (user_ptr (C_const C_char))), user_ptr (C_const (user_ptr (C_const C_char)))]),
      (''sys_perf_event_open'', [user_ptr (C_struct ''perf_event_attr''), C_typedef ''pid_t'', C_int, C_int, C_unsigned_long]),
      (''sys_mmap_pgoff'', [C_unsigned_long, C_unsigned_long, C_unsigned_long, C_unsigned_long, C_unsigned_long, C_unsigned_long]),
      (''sys_old_mmap'', [user_ptr (C_struct ''mmap_arg_struct'')]),
      (''sys_name_to_handle_at'', [C_int, user_ptr (C_const C_char), user_ptr (C_struct ''file_handle''), user_ptr C_int, C_int]),
      (''sys_open_by_handle_at'', [C_int, user_ptr (C_struct ''file_handle''), C_int]),
      (''sys_setns'', [C_int, C_int]),
      (''sys_process_vm_readv'', [C_typedef ''pid_t'', user_ptr (C_const (C_struct ''iovec'')), C_unsigned_long, user_ptr (C_const (C_struct ''iovec'')), C_unsigned_long, C_unsigned_long]),
      (''sys_process_vm_writev'', [C_typedef ''pid_t'', user_ptr (C_const (C_struct ''iovec'')), C_unsigned_long, user_ptr (C_const (C_struct ''iovec'')), C_unsigned_long, C_unsigned_long])]"

definition decls_sys_kcmp :: "hconfig \<Rightarrow> (string \<times> ctype list) list" where
  "decls_sys_kcmp C =
     [(''sys_kcmp'', [C_typedef ''pid_t'', C_typedef ''pid_t'', C_int, C_unsigned_long, C_unsigned_long]),
      (''sys_finit_module'', [C_int, user_ptr (C_const C_char), C_int]),
      (''sys_seccomp'', [C_unsigned_int, C_unsigned_int, user_ptr (C_const C_char)]),
      (''sys_getrandom'', [user_ptr C_char, C_typedef ''size_t'', C_unsigned_int]),
      (''sys_bpf'', [C_int, C_ptr False (C_union ''bpf_attr''), C_unsigned_int]),
      (''sys_execveat'', [C_int, user_ptr (C_const C_char), user_ptr (C_const (user_ptr (C_const C_char))), user_ptr (C_const (user_ptr (C_const C_char))), C_int]),
      (''sys_membarrier'', [C_int, C_int]),
      (''sys_copy_file_range'', [C_int, user_ptr (C_typedef ''loff_t''), C_int, user_ptr (C_typedef ''loff_t''), C_typedef ''size_t'', C_unsigned_int]),
      (''sys_mlock2'', [C_unsigned_long, C_typedef ''size_t'', C_int])]"

definition decls_sys_pkey_mprotect :: "hconfig \<Rightarrow> (string \<times> ctype list) list" where
  "decls_sys_pkey_mprotect C =
     [(''sys_pkey_mprotect'', [C_unsigned_long, C_typedef ''size_t'', C_unsigned_long, C_int]),
      (''sys_pkey_alloc'', [C_unsigned_long, C_unsigned_long]),
      (''sys_pkey_free'', [C_int]),
      (''sys_statx'', [C_int, user_ptr (C_const C_char), C_unsigned, C_unsigned, user_ptr (C_struct ''statx'')]),
      (''sys_kMergeSort'', [C_ptr False C_int, C_ptr False C_int, C_int])]"

definition syscalls_h :: "hconfig \<Rightarrow> (string \<times> ctype list) list" where
  "syscalls_h C =
     decls_sys32_quotactl C @ decls_sys_getresuid C @ decls_sys_setgroups C
     @ decls_sys_clock_gettime C @ decls_sys_sched_rr_get_interval C @ decls_sys_init_module C
     @ decls_sys_ssetmask C @ decls_sys_fstatfs64 C @ decls_sys_setxattr C
     @ decls_sys_brk C @ decls_sys_pivot_root C @ decls_sys_fcntl C
     @ decls_sys_sendfile64 C @ decls_sys_chown16 C @ decls_sys_utime C
     @ decls_sys_mkdir C @ decls_sys_send C @ decls_sys_epoll_create1 C
     @ decls_sys_getrlimit C @ decls_sys_semget C @ decls_sys_mq_open C
     @ decls_sys_prctl C @ decls_sys_add_key C @ decls_sys_inotify_init C
     @ decls_sys_fchownat C @ decls_sys_sync_file_range C @ decls_sys_pselect6 C
     @ decls_sys_execve C @ decls_sys_kcmp C @ decls_sys_pkey_mprotect C"

lemmas syscalls_h_defs = syscalls_h_def
  decls_sys32_quotactl_def decls_sys_getresuid_def decls_sys_setgroups_def
  decls_sys_clock_gettime_def decls_sys_sched_rr_get_interval_def decls_sys_init_module_def
  decls_sys_ssetmask_def decls_sys_fstatfs64_def decls_sys_setxattr_def
  decls_sys_brk_def decls_sys_pivot_root_def decls_sys_fcntl_def
  decls_sys_sendfile64_def decls_sys_chown16_def decls_sys_utime_def
  decls_sys_mkdir_def decls_sys_send_def decls_sys_epoll_create1_def
  decls_sys_getrlimit_def decls_sys_semget_def decls_sys_mq_open_def
  decls_sys_prctl_def decls_sys_add_key_def decls_sys_inotify_init_def
  decls_sys_fchownat_def decls_sys_sync_file_range_def decls_sys_pselect6_def
  decls_sys_execve_def decls_sys_kcmp_def decls_sys_pkey_mprotect_def

subsection \<open>Looking up a name\<close>

text \<open>All declarations of a name.\<close>

fun declarations :: "string \<Rightarrow> (string \<times> ctype list) list \<Rightarrow> ctype list list" where
  "declarations n [] = []"
| "declarations n ((m, ts) # ps) = (if m = n then ts # declarations n ps else declarations n ps)"

text \<open>
  A choice that the simplifier evaluates in both branches, for the conditional parts of the header;
  the congruence rule keeps it from walking through the rest of the list at every step.
\<close>

definition cpp_if :: "bool \<Rightarrow> 'a \<Rightarrow> 'a \<Rightarrow> 'a" where
  "cpp_if b x y = (if b then x else y)"

lemma cpp_if_simps: "cpp_if b x x = x" "cpp_if True x y = x" "cpp_if False x y = y"
  by (simp_all add: cpp_if_def)

lemma declarations_append: "declarations n (ps @ qs) = declarations n ps @ declarations n qs"
  by (induction n ps rule: declarations.induct) auto

lemma declarations_if: "declarations n (if b then ps else qs) = cpp_if b (declarations n ps) (declarations n qs)"
  by (simp add: cpp_if_def)

lemma declarations_cong: "n = n' \<Longrightarrow> declarations n ps = declarations n' ps"
  by simp

lemmas declarations_defs = syscalls_h_defs [THEN arg_cong, of "declarations n" for n]

lemmas names_eq = list.inject list.distinct char.inject simp_thms if_True if_False append.simps

lemmas lookup_simps = declarations_defs declarations_append declarations_if cpp_if_simps declarations.simps names_eq

subsection \<open>Two facts about all declarations\<close>

text \<open>A parameter that is, or points to, a pointer without the annotation \<^verbatim>\<open>__user\<close>.\<close>

fun plain_pointer :: "ctype \<Rightarrow> bool" where
  "plain_pointer (C_ptr u t) = (\<not> u \<or> plain_pointer t)"
| "plain_pointer (C_const t) = plain_pointer t"
| "plain_pointer _ = False"

definition unannotated :: "(string \<times> ctype list) list \<Rightarrow> string list" where
  "unannotated ps = map fst (filter (\<lambda>(n, ts). list_ex plain_pointer ts) ps)"

lemma unannotated_append: "unannotated (ps @ qs) = unannotated ps @ unannotated qs"
  by (simp add: unannotated_def)

lemma unannotated_of_group:
  "unannotated (decls_sys32_quotactl C) = []"
  "unannotated (decls_sys_getresuid C) = []"
  "unannotated (decls_sys_setgroups C) = []"
  "unannotated (decls_sys_clock_gettime C) = []"
  "unannotated (decls_sys_sched_rr_get_interval C) = []"
  "unannotated (decls_sys_init_module C) = []"
  "unannotated (decls_sys_ssetmask C) = []"
  "unannotated (decls_sys_fstatfs64 C) = []"
  "unannotated (decls_sys_setxattr C) = []"
  "unannotated (decls_sys_brk C) = []"
  "unannotated (decls_sys_pivot_root C) = []"
  "unannotated (decls_sys_fcntl C) = []"
  "unannotated (decls_sys_sendfile64 C) = []"
  "unannotated (decls_sys_chown16 C) = []"
  "unannotated (decls_sys_utime C) = []"
  "unannotated (decls_sys_mkdir C) = []"
  "unannotated (decls_sys_send C) = []"
  "unannotated (decls_sys_epoll_create1 C) = []"
  "unannotated (decls_sys_getrlimit C) = []"
  "unannotated (decls_sys_semget C) = []"
  "unannotated (decls_sys_mq_open C) = []"
  "unannotated (decls_sys_prctl C) = []"
  "unannotated (decls_sys_add_key C) = []"
  "unannotated (decls_sys_inotify_init C) = []"
  "unannotated (decls_sys_fchownat C) = []"
  "unannotated (decls_sys_sync_file_range C) = []"
  "unannotated (decls_sys_pselect6 C) = []"
  "unannotated (decls_sys_execve C) = []"
  "unannotated (decls_sys_kcmp C) = [''sys_bpf'']"
  "unannotated (decls_sys_pkey_mprotect C) = [''sys_kMergeSort'']"
  by (simp_all add: unannotated_def syscalls_h_defs(2-))

lemma few_parameters_of_group:
  "list_all (\<lambda>(n, ts). length ts \<le> SYSCALL_DEFINE_MAXARGS) (decls_sys32_quotactl C)"
  "list_all (\<lambda>(n, ts). length ts \<le> SYSCALL_DEFINE_MAXARGS) (decls_sys_getresuid C)"
  "list_all (\<lambda>(n, ts). length ts \<le> SYSCALL_DEFINE_MAXARGS) (decls_sys_setgroups C)"
  "list_all (\<lambda>(n, ts). length ts \<le> SYSCALL_DEFINE_MAXARGS) (decls_sys_clock_gettime C)"
  "list_all (\<lambda>(n, ts). length ts \<le> SYSCALL_DEFINE_MAXARGS) (decls_sys_sched_rr_get_interval C)"
  "list_all (\<lambda>(n, ts). length ts \<le> SYSCALL_DEFINE_MAXARGS) (decls_sys_init_module C)"
  "list_all (\<lambda>(n, ts). length ts \<le> SYSCALL_DEFINE_MAXARGS) (decls_sys_ssetmask C)"
  "list_all (\<lambda>(n, ts). length ts \<le> SYSCALL_DEFINE_MAXARGS) (decls_sys_fstatfs64 C)"
  "list_all (\<lambda>(n, ts). length ts \<le> SYSCALL_DEFINE_MAXARGS) (decls_sys_setxattr C)"
  "list_all (\<lambda>(n, ts). length ts \<le> SYSCALL_DEFINE_MAXARGS) (decls_sys_brk C)"
  "list_all (\<lambda>(n, ts). length ts \<le> SYSCALL_DEFINE_MAXARGS) (decls_sys_pivot_root C)"
  "list_all (\<lambda>(n, ts). length ts \<le> SYSCALL_DEFINE_MAXARGS) (decls_sys_fcntl C)"
  "list_all (\<lambda>(n, ts). length ts \<le> SYSCALL_DEFINE_MAXARGS) (decls_sys_sendfile64 C)"
  "list_all (\<lambda>(n, ts). length ts \<le> SYSCALL_DEFINE_MAXARGS) (decls_sys_chown16 C)"
  "list_all (\<lambda>(n, ts). length ts \<le> SYSCALL_DEFINE_MAXARGS) (decls_sys_utime C)"
  "list_all (\<lambda>(n, ts). length ts \<le> SYSCALL_DEFINE_MAXARGS) (decls_sys_mkdir C)"
  "list_all (\<lambda>(n, ts). length ts \<le> SYSCALL_DEFINE_MAXARGS) (decls_sys_send C)"
  "list_all (\<lambda>(n, ts). length ts \<le> SYSCALL_DEFINE_MAXARGS) (decls_sys_epoll_create1 C)"
  "list_all (\<lambda>(n, ts). length ts \<le> SYSCALL_DEFINE_MAXARGS) (decls_sys_getrlimit C)"
  "list_all (\<lambda>(n, ts). length ts \<le> SYSCALL_DEFINE_MAXARGS) (decls_sys_semget C)"
  "list_all (\<lambda>(n, ts). length ts \<le> SYSCALL_DEFINE_MAXARGS) (decls_sys_mq_open C)"
  "list_all (\<lambda>(n, ts). length ts \<le> SYSCALL_DEFINE_MAXARGS) (decls_sys_prctl C)"
  "list_all (\<lambda>(n, ts). length ts \<le> SYSCALL_DEFINE_MAXARGS) (decls_sys_add_key C)"
  "list_all (\<lambda>(n, ts). length ts \<le> SYSCALL_DEFINE_MAXARGS) (decls_sys_inotify_init C)"
  "list_all (\<lambda>(n, ts). length ts \<le> SYSCALL_DEFINE_MAXARGS) (decls_sys_fchownat C)"
  "list_all (\<lambda>(n, ts). length ts \<le> SYSCALL_DEFINE_MAXARGS) (decls_sys_sync_file_range C)"
  "list_all (\<lambda>(n, ts). length ts \<le> SYSCALL_DEFINE_MAXARGS) (decls_sys_pselect6 C)"
  "list_all (\<lambda>(n, ts). length ts \<le> SYSCALL_DEFINE_MAXARGS) (decls_sys_execve C)"
  "list_all (\<lambda>(n, ts). length ts \<le> SYSCALL_DEFINE_MAXARGS) (decls_sys_kcmp C)"
  "list_all (\<lambda>(n, ts). length ts \<le> SYSCALL_DEFINE_MAXARGS) (decls_sys_pkey_mprotect C)"
  by (simp_all add: syscalls_h_defs(2-) SYSCALL_DEFINE_MAXARGS_def)

lemma few_parameters: "list_all (\<lambda>(n, ts). length ts \<le> SYSCALL_DEFINE_MAXARGS) (syscalls_h C)"
  by (simp add: syscalls_h_def few_parameters_of_group)

lemma only_two_unannotated: "unannotated (syscalls_h C) = [''sys_bpf'', ''sys_kMergeSort'']"
  by (simp add: syscalls_h_def unannotated_append unannotated_of_group)

end
