(* ===== verification/SyscallHeads.thy ===== *)
theory SyscallHeads
  imports SyscallHeader
begin

text \<open>
  The heads of the system calls that \<^verbatim>\<open>sys.c\<close> defines: the number in \<^verbatim>\<open>SYSCALL_DEFINEn\<close>, the name, and
  the types and names of the arguments; and that they agree with the header.
\<close>

datatype syscall_head = Head (hcount: nat) (hname: string) (hargs: "(ctype \<times> string) list")

definition SYSCALL_setpriority :: syscall_head where
  "SYSCALL_setpriority = Head 3 ''setpriority'' [(C_int, ''which''), (C_int, ''who''), (C_int, ''niceval'')]"

definition SYSCALL_getpriority :: syscall_head where
  "SYSCALL_getpriority = Head 2 ''getpriority'' [(C_int, ''which''), (C_int, ''who'')]"

definition SYSCALL_setregid :: syscall_head where
  "SYSCALL_setregid = Head 2 ''setregid'' [(C_typedef ''gid_t'', ''rgid''), (C_typedef ''gid_t'', ''egid'')]"

definition SYSCALL_setgid :: syscall_head where
  "SYSCALL_setgid = Head 1 ''setgid'' [(C_typedef ''gid_t'', ''gid'')]"

definition SYSCALL_setreuid :: syscall_head where
  "SYSCALL_setreuid = Head 2 ''setreuid'' [(C_typedef ''uid_t'', ''ruid''), (C_typedef ''uid_t'', ''euid'')]"

definition SYSCALL_setuid :: syscall_head where
  "SYSCALL_setuid = Head 1 ''setuid'' [(C_typedef ''uid_t'', ''uid'')]"

definition SYSCALL_setresuid :: syscall_head where
  "SYSCALL_setresuid = Head 3 ''setresuid'' [(C_typedef ''uid_t'', ''ruid''), (C_typedef ''uid_t'', ''euid''), (C_typedef ''uid_t'', ''suid'')]"

definition SYSCALL_getresuid :: syscall_head where
  "SYSCALL_getresuid = Head 3 ''getresuid'' [(user_ptr (C_typedef ''uid_t''), ''ruidp''), (user_ptr (C_typedef ''uid_t''), ''euidp''), (user_ptr (C_typedef ''uid_t''), ''suidp'')]"

definition SYSCALL_setresgid :: syscall_head where
  "SYSCALL_setresgid = Head 3 ''setresgid'' [(C_typedef ''gid_t'', ''rgid''), (C_typedef ''gid_t'', ''egid''), (C_typedef ''gid_t'', ''sgid'')]"

definition SYSCALL_getresgid :: syscall_head where
  "SYSCALL_getresgid = Head 3 ''getresgid'' [(user_ptr (C_typedef ''gid_t''), ''rgidp''), (user_ptr (C_typedef ''gid_t''), ''egidp''), (user_ptr (C_typedef ''gid_t''), ''sgidp'')]"

definition SYSCALL_setfsuid :: syscall_head where
  "SYSCALL_setfsuid = Head 1 ''setfsuid'' [(C_typedef ''uid_t'', ''uid'')]"

definition SYSCALL_setfsgid :: syscall_head where
  "SYSCALL_setfsgid = Head 1 ''setfsgid'' [(C_typedef ''gid_t'', ''gid'')]"

definition SYSCALL_getpid :: syscall_head where
  "SYSCALL_getpid = Head 0 ''getpid'' []"

definition SYSCALL_gettid :: syscall_head where
  "SYSCALL_gettid = Head 0 ''gettid'' []"

definition SYSCALL_getppid :: syscall_head where
  "SYSCALL_getppid = Head 0 ''getppid'' []"

definition SYSCALL_getuid :: syscall_head where
  "SYSCALL_getuid = Head 0 ''getuid'' []"

definition SYSCALL_geteuid :: syscall_head where
  "SYSCALL_geteuid = Head 0 ''geteuid'' []"

definition SYSCALL_getgid :: syscall_head where
  "SYSCALL_getgid = Head 0 ''getgid'' []"

definition SYSCALL_getegid :: syscall_head where
  "SYSCALL_getegid = Head 0 ''getegid'' []"

definition SYSCALL_times :: syscall_head where
  "SYSCALL_times = Head 1 ''times'' [(user_ptr (C_struct ''tms''), ''tbuf'')]"

definition SYSCALL_kMergeSort :: syscall_head where
  "SYSCALL_kMergeSort = Head 3 ''kMergeSort'' [(C_ptr False C_int, ''unsorted''), (C_ptr False C_int, ''sorted''), (C_int, ''size'')]"

definition SYSCALL_setpgid :: syscall_head where
  "SYSCALL_setpgid = Head 2 ''setpgid'' [(C_typedef ''pid_t'', ''pid''), (C_typedef ''pid_t'', ''pgid'')]"

definition SYSCALL_getpgid :: syscall_head where
  "SYSCALL_getpgid = Head 1 ''getpgid'' [(C_typedef ''pid_t'', ''pid'')]"

definition SYSCALL_getpgrp :: syscall_head where
  "SYSCALL_getpgrp = Head 0 ''getpgrp'' []"

definition SYSCALL_getsid :: syscall_head where
  "SYSCALL_getsid = Head 1 ''getsid'' [(C_typedef ''pid_t'', ''pid'')]"

definition SYSCALL_setsid :: syscall_head where
  "SYSCALL_setsid = Head 0 ''setsid'' []"

definition SYSCALL_newuname :: syscall_head where
  "SYSCALL_newuname = Head 1 ''newuname'' [(user_ptr (C_struct ''new_utsname''), ''name'')]"

definition SYSCALL_uname :: syscall_head where
  "SYSCALL_uname = Head 1 ''uname'' [(user_ptr (C_struct ''old_utsname''), ''name'')]"

definition SYSCALL_olduname :: syscall_head where
  "SYSCALL_olduname = Head 1 ''olduname'' [(user_ptr (C_struct ''oldold_utsname''), ''name'')]"

definition SYSCALL_sethostname :: syscall_head where
  "SYSCALL_sethostname = Head 2 ''sethostname'' [(user_ptr C_char, ''name''), (C_int, ''len'')]"

definition SYSCALL_gethostname :: syscall_head where
  "SYSCALL_gethostname = Head 2 ''gethostname'' [(user_ptr C_char, ''name''), (C_int, ''len'')]"

definition SYSCALL_setdomainname :: syscall_head where
  "SYSCALL_setdomainname = Head 2 ''setdomainname'' [(user_ptr C_char, ''name''), (C_int, ''len'')]"

definition SYSCALL_getrlimit :: syscall_head where
  "SYSCALL_getrlimit = Head 2 ''getrlimit'' [(C_unsigned_int, ''resource''), (user_ptr (C_struct ''rlimit''), ''rlim'')]"

definition SYSCALL_old_getrlimit :: syscall_head where
  "SYSCALL_old_getrlimit = Head 2 ''old_getrlimit'' [(C_unsigned_int, ''resource''), (user_ptr (C_struct ''rlimit''), ''rlim'')]"

definition SYSCALL_prlimit64 :: syscall_head where
  "SYSCALL_prlimit64 = Head 4 ''prlimit64'' [(C_typedef ''pid_t'', ''pid''), (C_unsigned_int, ''resource''), (user_ptr (C_const (C_struct ''rlimit64'')), ''new_rlim''), (user_ptr (C_struct ''rlimit64''), ''old_rlim'')]"

definition SYSCALL_setrlimit :: syscall_head where
  "SYSCALL_setrlimit = Head 2 ''setrlimit'' [(C_unsigned_int, ''resource''), (user_ptr (C_struct ''rlimit''), ''rlim'')]"

definition SYSCALL_getrusage :: syscall_head where
  "SYSCALL_getrusage = Head 2 ''getrusage'' [(C_int, ''who''), (user_ptr (C_struct ''rusage''), ''ru'')]"

definition SYSCALL_umask :: syscall_head where
  "SYSCALL_umask = Head 1 ''umask'' [(C_int, ''mask'')]"

definition SYSCALL_prctl :: syscall_head where
  "SYSCALL_prctl = Head 5 ''prctl'' [(C_int, ''option''), (C_unsigned_long, ''arg2''), (C_unsigned_long, ''arg3''), (C_unsigned_long, ''arg4''), (C_unsigned_long, ''arg5'')]"

definition SYSCALL_getcpu :: syscall_head where
  "SYSCALL_getcpu = Head 3 ''getcpu'' [(user_ptr C_unsigned, ''cpup''), (user_ptr C_unsigned, ''nodep''), (user_ptr (C_struct ''getcpu_cache''), ''unused'')]"

definition SYSCALL_sysinfo :: syscall_head where
  "SYSCALL_sysinfo = Head 1 ''sysinfo'' [(user_ptr (C_struct ''sysinfo''), ''info'')]"

definition sys_c_heads :: "syscall_head list" where
  "sys_c_heads =
     [SYSCALL_setpriority, SYSCALL_getpriority, SYSCALL_setregid, SYSCALL_setgid,
      SYSCALL_setreuid, SYSCALL_setuid, SYSCALL_setresuid, SYSCALL_getresuid,
      SYSCALL_setresgid, SYSCALL_getresgid, SYSCALL_setfsuid, SYSCALL_setfsgid,
      SYSCALL_getpid, SYSCALL_gettid, SYSCALL_getppid, SYSCALL_getuid,
      SYSCALL_geteuid, SYSCALL_getgid, SYSCALL_getegid, SYSCALL_times,
      SYSCALL_kMergeSort, SYSCALL_setpgid, SYSCALL_getpgid, SYSCALL_getpgrp,
      SYSCALL_getsid, SYSCALL_setsid, SYSCALL_newuname, SYSCALL_uname,
      SYSCALL_olduname, SYSCALL_sethostname, SYSCALL_gethostname, SYSCALL_setdomainname,
      SYSCALL_getrlimit, SYSCALL_old_getrlimit, SYSCALL_prlimit64, SYSCALL_setrlimit,
      SYSCALL_getrusage, SYSCALL_umask, SYSCALL_prctl, SYSCALL_getcpu,
      SYSCALL_sysinfo]"

lemmas head_defs =
  SYSCALL_setpriority_def SYSCALL_getpriority_def SYSCALL_setregid_def SYSCALL_setgid_def
  SYSCALL_setreuid_def SYSCALL_setuid_def SYSCALL_setresuid_def SYSCALL_getresuid_def
  SYSCALL_setresgid_def SYSCALL_getresgid_def SYSCALL_setfsuid_def SYSCALL_setfsgid_def
  SYSCALL_getpid_def SYSCALL_gettid_def SYSCALL_getppid_def SYSCALL_getuid_def
  SYSCALL_geteuid_def SYSCALL_getgid_def SYSCALL_getegid_def SYSCALL_times_def
  SYSCALL_kMergeSort_def SYSCALL_setpgid_def SYSCALL_getpgid_def SYSCALL_getpgrp_def
  SYSCALL_getsid_def SYSCALL_setsid_def SYSCALL_newuname_def SYSCALL_uname_def
  SYSCALL_olduname_def SYSCALL_sethostname_def SYSCALL_gethostname_def SYSCALL_setdomainname_def
  SYSCALL_getrlimit_def SYSCALL_old_getrlimit_def SYSCALL_prlimit64_def SYSCALL_setrlimit_def
  SYSCALL_getrusage_def SYSCALL_umask_def SYSCALL_prctl_def SYSCALL_getcpu_def
  SYSCALL_sysinfo_def

text \<open>
  What the headers of the kernel make of the ID types, for a \<^verbatim>\<open>long\<close> of 32 or 64 bits. The 32-bit ARM
  kernel is an instance.
\<close>

definition linux_abi :: "c_abi \<Rightarrow> bool" where
  "linux_abi E = ((BITS_PER_LONG E = 32 \<or> BITS_PER_LONG E = 64) \<and> typedefs E ''uid_t'' = C_unsigned_int \<and>
     typedefs E ''gid_t'' = C_unsigned_int \<and> typedefs E ''pid_t'' = C_int)"

definition arm_abi :: c_abi where
  "arm_abi = \<lparr>BITS_PER_LONG = 32, char_signed = False,
     typedefs = (\<lambda>n. if n = ''pid_t'' then C_int else C_unsigned_int)\<rparr>"

definition arm_config :: hconfig where
  "arm_config = \<lparr>CONFIG_OLD_SIGSUSPEND = False, CONFIG_OLD_SIGSUSPEND3 = True, CONFIG_OLD_SIGACTION = True,
     CONFIG_ODD_RT_SIGACTION = False, ARCH_WANT_STAT64 = True, ARCH_WANT_COMPAT_STAT64 = False, LONG_BITS = 32,
     CONFIG_HAVE_UID16 = True, ARCH_WANT_SYS_OLD_GETRLIMIT = True, CONFIG_CLONE_BACKWARDS = True,
     CONFIG_CLONE_BACKWARDS3 = False\<rparr>"

lemma arm_abi_ok: "linux_abi arm_abi"
  by (simp add: linux_abi_def arm_abi_def)

lemma heads_declared:
  assumes "ARCH_WANT_SYS_OLD_GETRLIMIT C"
  shows "list_all (\<lambda>h. declarations (''sys_'' @ hname h) (syscalls_h C) = [map fst (hargs h)]) sys_c_heads"
  using assms
  by (simp only: sys_c_heads_def head_defs lookup_simps list.map fst_conv syscall_head.sel list.pred_inject
      cong: declarations_cong if_weak_cong)

lemma heads_callable:
  "linux_abi E \<Longrightarrow> list_all (\<lambda>h. hcount h = length (hargs h) \<and> callable E (hargs h)) sys_c_heads"
  by (auto simp: sys_c_heads_def head_defs callable_def SYSCALL_DEFINE_MAXARGS_def SC_TEST_def
      TYPE_IS_LL_def bits_of_def linux_abi_def)

text \<open>
  C39: every system call that \<^verbatim>\<open>sys.c\<close> defines is declared in \<^verbatim>\<open>syscalls.h\<close> exactly once and with the same
  parameter types; the number in its macro is the number of its arguments, and its arguments fit
  registers. No declared call has more parameters than the macros support. Of all declared
  calls only \<^verbatim>\<open>bpf\<close> and the added \<^verbatim>\<open>kMergeSort\<close> take pointers without the annotation \<^verbatim>\<open>__user\<close>.
\<close>

theorem sys_c_calls_declared:
  assumes "ARCH_WANT_SYS_OLD_GETRLIMIT C" and "linux_abi E"
  shows "list_all (\<lambda>h. declarations (''sys_'' @ hname h) (syscalls_h C) = [map fst (hargs h)]) sys_c_heads \<and>
    list_all (\<lambda>h. hcount h = length (hargs h) \<and> callable E (hargs h)) sys_c_heads \<and>
    list_all (\<lambda>(n, ts). length ts \<le> SYSCALL_DEFINE_MAXARGS) (syscalls_h C) \<and>
    unannotated (syscalls_h C) = [''sys_bpf'', ''sys_kMergeSort'']"
  using heads_declared [OF assms(1)] heads_callable [OF assms(2)] few_parameters only_two_unannotated by blast

theorem sys_c_calls_declared_witness:
  "list_all (\<lambda>h. declarations (''sys_'' @ hname h) (syscalls_h arm_config) = [map fst (hargs h)]) sys_c_heads \<and>
   list_all (\<lambda>h. hcount h = length (hargs h) \<and> callable arm_abi (hargs h)) sys_c_heads"
proof -
  have "ARCH_WANT_SYS_OLD_GETRLIMIT arm_config" by (simp add: arm_config_def)
  from sys_c_calls_declared [OF this arm_abi_ok] show ?thesis by blast
qed

end
