(* ===== verification/SyscallTable.thy ===== *)
theory SyscallTable
  imports SyscallHeads
begin

text \<open>
  The table \<^verbatim>\<open>syscall.tbl\<close> of the 32-bit ARM kernel: the number of each system call, the ABIs that have
  it, its name, and its entry point with the entry point of the old ABI where that differs. A number
  without a line or a line without an entry point is not implemented.
\<close>

datatype tbl_abi = Common | Oabi | Eabi

datatype tbl_line = Line (num: nat) (tabi: tbl_abi) (cname: string) (entries: "string list")

definition syscalls_0 :: "tbl_line list" where
  "syscalls_0 =
     [Line 0 Common ''restart_syscall'' [''sys_restart_syscall''],
      Line 1 Common ''exit'' [''sys_exit''],
      Line 2 Common ''fork'' [''sys_fork''],
      Line 3 Common ''read'' [''sys_read''],
      Line 4 Common ''write'' [''sys_write''],
      Line 5 Common ''open'' [''sys_open''],
      Line 6 Common ''close'' [''sys_close''],
      Line 8 Common ''creat'' [''sys_creat''],
      Line 9 Common ''link'' [''sys_link''],
      Line 10 Common ''unlink'' [''sys_unlink''],
      Line 11 Common ''execve'' [''sys_execve''],
      Line 12 Common ''chdir'' [''sys_chdir''],
      Line 13 Oabi ''time'' [''sys_time''],
      Line 14 Common ''mknod'' [''sys_mknod''],
      Line 15 Common ''chmod'' [''sys_chmod''],
      Line 16 Common ''lchown'' [''sys_lchown16''],
      Line 19 Common ''lseek'' [''sys_lseek''],
      Line 20 Common ''getpid'' [''sys_getpid''],
      Line 21 Common ''mount'' [''sys_mount''],
      Line 22 Oabi ''umount'' [''sys_oldumount''],
      Line 23 Common ''setuid'' [''sys_setuid16''],
      Line 24 Common ''getuid'' [''sys_getuid16'']]"

definition syscalls_25 :: "tbl_line list" where
  "syscalls_25 =
     [Line 25 Oabi ''stime'' [''sys_stime''],
      Line 26 Common ''ptrace'' [''sys_ptrace''],
      Line 27 Oabi ''alarm'' [''sys_alarm''],
      Line 29 Common ''pause'' [''sys_pause''],
      Line 30 Oabi ''utime'' [''sys_utime''],
      Line 33 Common ''access'' [''sys_access''],
      Line 34 Common ''nice'' [''sys_nice''],
      Line 36 Common ''sync'' [''sys_sync''],
      Line 37 Common ''kill'' [''sys_kill''],
      Line 38 Common ''rename'' [''sys_rename''],
      Line 39 Common ''mkdir'' [''sys_mkdir''],
      Line 40 Common ''rmdir'' [''sys_rmdir''],
      Line 41 Common ''dup'' [''sys_dup''],
      Line 42 Common ''pipe'' [''sys_pipe''],
      Line 43 Common ''times'' [''sys_times''],
      Line 45 Common ''brk'' [''sys_brk''],
      Line 46 Common ''setgid'' [''sys_setgid16''],
      Line 47 Common ''getgid'' [''sys_getgid16''],
      Line 49 Common ''geteuid'' [''sys_geteuid16'']]"

definition syscalls_50 :: "tbl_line list" where
  "syscalls_50 =
     [Line 50 Common ''getegid'' [''sys_getegid16''],
      Line 51 Common ''acct'' [''sys_acct''],
      Line 52 Common ''umount2'' [''sys_umount''],
      Line 54 Common ''ioctl'' [''sys_ioctl''],
      Line 55 Common ''fcntl'' [''sys_fcntl''],
      Line 57 Common ''setpgid'' [''sys_setpgid''],
      Line 60 Common ''umask'' [''sys_umask''],
      Line 61 Common ''chroot'' [''sys_chroot''],
      Line 62 Common ''ustat'' [''sys_ustat''],
      Line 63 Common ''dup2'' [''sys_dup2''],
      Line 64 Common ''getppid'' [''sys_getppid''],
      Line 65 Common ''getpgrp'' [''sys_getpgrp''],
      Line 66 Common ''setsid'' [''sys_setsid''],
      Line 67 Common ''sigaction'' [''sys_sigaction''],
      Line 70 Common ''setreuid'' [''sys_setreuid16''],
      Line 71 Common ''setregid'' [''sys_setregid16''],
      Line 72 Common ''sigsuspend'' [''sys_sigsuspend''],
      Line 73 Common ''sigpending'' [''sys_sigpending''],
      Line 74 Common ''sethostname'' [''sys_sethostname'']]"

definition syscalls_75 :: "tbl_line list" where
  "syscalls_75 =
     [Line 75 Common ''setrlimit'' [''sys_setrlimit''],
      Line 76 Oabi ''getrlimit'' [''sys_old_getrlimit''],
      Line 77 Common ''getrusage'' [''sys_getrusage''],
      Line 78 Common ''gettimeofday'' [''sys_gettimeofday''],
      Line 79 Common ''settimeofday'' [''sys_settimeofday''],
      Line 80 Common ''getgroups'' [''sys_getgroups16''],
      Line 81 Common ''setgroups'' [''sys_setgroups16''],
      Line 82 Oabi ''select'' [''sys_old_select''],
      Line 83 Common ''symlink'' [''sys_symlink''],
      Line 85 Common ''readlink'' [''sys_readlink''],
      Line 86 Common ''uselib'' [''sys_uselib''],
      Line 87 Common ''swapon'' [''sys_swapon''],
      Line 88 Common ''reboot'' [''sys_reboot''],
      Line 89 Oabi ''readdir'' [''sys_old_readdir''],
      Line 90 Oabi ''mmap'' [''sys_old_mmap''],
      Line 91 Common ''munmap'' [''sys_munmap''],
      Line 92 Common ''truncate'' [''sys_truncate''],
      Line 93 Common ''ftruncate'' [''sys_ftruncate''],
      Line 94 Common ''fchmod'' [''sys_fchmod''],
      Line 95 Common ''fchown'' [''sys_fchown16''],
      Line 96 Common ''getpriority'' [''sys_getpriority''],
      Line 97 Common ''setpriority'' [''sys_setpriority''],
      Line 99 Common ''statfs'' [''sys_statfs'']]"

definition syscalls_100 :: "tbl_line list" where
  "syscalls_100 =
     [Line 100 Common ''fstatfs'' [''sys_fstatfs''],
      Line 102 Oabi ''socketcall'' [''sys_socketcall'', ''sys_oabi_socketcall''],
      Line 103 Common ''syslog'' [''sys_syslog''],
      Line 104 Common ''setitimer'' [''sys_setitimer''],
      Line 105 Common ''getitimer'' [''sys_getitimer''],
      Line 106 Common ''stat'' [''sys_newstat''],
      Line 107 Common ''lstat'' [''sys_newlstat''],
      Line 108 Common ''fstat'' [''sys_newfstat''],
      Line 111 Common ''vhangup'' [''sys_vhangup''],
      Line 113 Oabi ''syscall'' [''sys_syscall''],
      Line 114 Common ''wait4'' [''sys_wait4''],
      Line 115 Common ''swapoff'' [''sys_swapoff''],
      Line 116 Common ''sysinfo'' [''sys_sysinfo''],
      Line 117 Oabi ''ipc'' [''sys_ipc'', ''sys_oabi_ipc''],
      Line 118 Common ''fsync'' [''sys_fsync''],
      Line 119 Common ''sigreturn'' [''sys_sigreturn_wrapper''],
      Line 120 Common ''clone'' [''sys_clone''],
      Line 121 Common ''setdomainname'' [''sys_setdomainname''],
      Line 122 Common ''uname'' [''sys_newuname''],
      Line 124 Common ''adjtimex'' [''sys_adjtimex'']]"

definition syscalls_125 :: "tbl_line list" where
  "syscalls_125 =
     [Line 125 Common ''mprotect'' [''sys_mprotect''],
      Line 126 Common ''sigprocmask'' [''sys_sigprocmask''],
      Line 128 Common ''init_module'' [''sys_init_module''],
      Line 129 Common ''delete_module'' [''sys_delete_module''],
      Line 131 Common ''quotactl'' [''sys_quotactl''],
      Line 132 Common ''getpgid'' [''sys_getpgid''],
      Line 133 Common ''fchdir'' [''sys_fchdir''],
      Line 134 Common ''bdflush'' [''sys_bdflush''],
      Line 135 Common ''sysfs'' [''sys_sysfs''],
      Line 136 Common ''personality'' [''sys_personality''],
      Line 138 Common ''setfsuid'' [''sys_setfsuid16''],
      Line 139 Common ''setfsgid'' [''sys_setfsgid16''],
      Line 140 Common ''_llseek'' [''sys_llseek''],
      Line 141 Common ''getdents'' [''sys_getdents''],
      Line 142 Common ''_newselect'' [''sys_select''],
      Line 143 Common ''flock'' [''sys_flock''],
      Line 144 Common ''msync'' [''sys_msync''],
      Line 145 Common ''readv'' [''sys_readv''],
      Line 146 Common ''writev'' [''sys_writev''],
      Line 147 Common ''getsid'' [''sys_getsid''],
      Line 148 Common ''fdatasync'' [''sys_fdatasync''],
      Line 149 Common ''_sysctl'' [''sys_sysctl'']]"

definition syscalls_150 :: "tbl_line list" where
  "syscalls_150 =
     [Line 150 Common ''mlock'' [''sys_mlock''],
      Line 151 Common ''munlock'' [''sys_munlock''],
      Line 152 Common ''mlockall'' [''sys_mlockall''],
      Line 153 Common ''munlockall'' [''sys_munlockall''],
      Line 154 Common ''sched_setparam'' [''sys_sched_setparam''],
      Line 155 Common ''sched_getparam'' [''sys_sched_getparam''],
      Line 156 Common ''sched_setscheduler'' [''sys_sched_setscheduler''],
      Line 157 Common ''sched_getscheduler'' [''sys_sched_getscheduler''],
      Line 158 Common ''sched_yield'' [''sys_sched_yield''],
      Line 159 Common ''sched_get_priority_max'' [''sys_sched_get_priority_max''],
      Line 160 Common ''sched_get_priority_min'' [''sys_sched_get_priority_min''],
      Line 161 Common ''sched_rr_get_interval'' [''sys_sched_rr_get_interval''],
      Line 162 Common ''nanosleep'' [''sys_nanosleep''],
      Line 163 Common ''mremap'' [''sys_mremap''],
      Line 164 Common ''setresuid'' [''sys_setresuid16''],
      Line 165 Common ''getresuid'' [''sys_getresuid16''],
      Line 168 Common ''poll'' [''sys_poll''],
      Line 169 Common ''nfsservctl'' [],
      Line 170 Common ''setresgid'' [''sys_setresgid16''],
      Line 171 Common ''getresgid'' [''sys_getresgid16''],
      Line 172 Common ''prctl'' [''sys_prctl''],
      Line 173 Common ''rt_sigreturn'' [''sys_rt_sigreturn_wrapper''],
      Line 174 Common ''rt_sigaction'' [''sys_rt_sigaction'']]"

definition syscalls_175 :: "tbl_line list" where
  "syscalls_175 =
     [Line 175 Common ''rt_sigprocmask'' [''sys_rt_sigprocmask''],
      Line 176 Common ''rt_sigpending'' [''sys_rt_sigpending''],
      Line 177 Common ''rt_sigtimedwait'' [''sys_rt_sigtimedwait''],
      Line 178 Common ''rt_sigqueueinfo'' [''sys_rt_sigqueueinfo''],
      Line 179 Common ''rt_sigsuspend'' [''sys_rt_sigsuspend''],
      Line 180 Common ''pread64'' [''sys_pread64'', ''sys_oabi_pread64''],
      Line 181 Common ''pwrite64'' [''sys_pwrite64'', ''sys_oabi_pwrite64''],
      Line 182 Common ''chown'' [''sys_chown16''],
      Line 183 Common ''getcwd'' [''sys_getcwd''],
      Line 184 Common ''capget'' [''sys_capget''],
      Line 185 Common ''capset'' [''sys_capset''],
      Line 186 Common ''sigaltstack'' [''sys_sigaltstack''],
      Line 187 Common ''sendfile'' [''sys_sendfile''],
      Line 190 Common ''vfork'' [''sys_vfork''],
      Line 191 Common ''ugetrlimit'' [''sys_getrlimit''],
      Line 192 Common ''mmap2'' [''sys_mmap2''],
      Line 193 Common ''truncate64'' [''sys_truncate64'', ''sys_oabi_truncate64''],
      Line 194 Common ''ftruncate64'' [''sys_ftruncate64'', ''sys_oabi_ftruncate64''],
      Line 195 Common ''stat64'' [''sys_stat64'', ''sys_oabi_stat64''],
      Line 196 Common ''lstat64'' [''sys_lstat64'', ''sys_oabi_lstat64''],
      Line 197 Common ''fstat64'' [''sys_fstat64'', ''sys_oabi_fstat64''],
      Line 198 Common ''lchown32'' [''sys_lchown''],
      Line 199 Common ''getuid32'' [''sys_getuid'']]"

definition syscalls_200 :: "tbl_line list" where
  "syscalls_200 =
     [Line 200 Common ''getgid32'' [''sys_getgid''],
      Line 201 Common ''geteuid32'' [''sys_geteuid''],
      Line 202 Common ''getegid32'' [''sys_getegid''],
      Line 203 Common ''setreuid32'' [''sys_setreuid''],
      Line 204 Common ''setregid32'' [''sys_setregid''],
      Line 205 Common ''getgroups32'' [''sys_getgroups''],
      Line 206 Common ''setgroups32'' [''sys_setgroups''],
      Line 207 Common ''fchown32'' [''sys_fchown''],
      Line 208 Common ''setresuid32'' [''sys_setresuid''],
      Line 209 Common ''getresuid32'' [''sys_getresuid''],
      Line 210 Common ''setresgid32'' [''sys_setresgid''],
      Line 211 Common ''getresgid32'' [''sys_getresgid''],
      Line 212 Common ''chown32'' [''sys_chown''],
      Line 213 Common ''setuid32'' [''sys_setuid''],
      Line 214 Common ''setgid32'' [''sys_setgid''],
      Line 215 Common ''setfsuid32'' [''sys_setfsuid''],
      Line 216 Common ''setfsgid32'' [''sys_setfsgid''],
      Line 217 Common ''getdents64'' [''sys_getdents64''],
      Line 218 Common ''pivot_root'' [''sys_pivot_root''],
      Line 219 Common ''mincore'' [''sys_mincore''],
      Line 220 Common ''madvise'' [''sys_madvise''],
      Line 221 Common ''fcntl64'' [''sys_fcntl64'', ''sys_oabi_fcntl64''],
      Line 224 Common ''gettid'' [''sys_gettid'']]"

definition syscalls_225 :: "tbl_line list" where
  "syscalls_225 =
     [Line 225 Common ''readahead'' [''sys_readahead'', ''sys_oabi_readahead''],
      Line 226 Common ''setxattr'' [''sys_setxattr''],
      Line 227 Common ''lsetxattr'' [''sys_lsetxattr''],
      Line 228 Common ''fsetxattr'' [''sys_fsetxattr''],
      Line 229 Common ''getxattr'' [''sys_getxattr''],
      Line 230 Common ''lgetxattr'' [''sys_lgetxattr''],
      Line 231 Common ''fgetxattr'' [''sys_fgetxattr''],
      Line 232 Common ''listxattr'' [''sys_listxattr''],
      Line 233 Common ''llistxattr'' [''sys_llistxattr''],
      Line 234 Common ''flistxattr'' [''sys_flistxattr''],
      Line 235 Common ''removexattr'' [''sys_removexattr''],
      Line 236 Common ''lremovexattr'' [''sys_lremovexattr''],
      Line 237 Common ''fremovexattr'' [''sys_fremovexattr''],
      Line 238 Common ''tkill'' [''sys_tkill''],
      Line 239 Common ''sendfile64'' [''sys_sendfile64''],
      Line 240 Common ''futex'' [''sys_futex''],
      Line 241 Common ''sched_setaffinity'' [''sys_sched_setaffinity''],
      Line 242 Common ''sched_getaffinity'' [''sys_sched_getaffinity''],
      Line 243 Common ''io_setup'' [''sys_io_setup''],
      Line 244 Common ''io_destroy'' [''sys_io_destroy''],
      Line 245 Common ''io_getevents'' [''sys_io_getevents''],
      Line 246 Common ''io_submit'' [''sys_io_submit''],
      Line 247 Common ''io_cancel'' [''sys_io_cancel''],
      Line 248 Common ''exit_group'' [''sys_exit_group''],
      Line 249 Common ''lookup_dcookie'' [''sys_lookup_dcookie'']]"

definition syscalls_250 :: "tbl_line list" where
  "syscalls_250 =
     [Line 250 Common ''epoll_create'' [''sys_epoll_create''],
      Line 251 Common ''epoll_ctl'' [''sys_epoll_ctl'', ''sys_oabi_epoll_ctl''],
      Line 252 Common ''epoll_wait'' [''sys_epoll_wait'', ''sys_oabi_epoll_wait''],
      Line 253 Common ''remap_file_pages'' [''sys_remap_file_pages''],
      Line 256 Common ''set_tid_address'' [''sys_set_tid_address''],
      Line 257 Common ''timer_create'' [''sys_timer_create''],
      Line 258 Common ''timer_settime'' [''sys_timer_settime''],
      Line 259 Common ''timer_gettime'' [''sys_timer_gettime''],
      Line 260 Common ''timer_getoverrun'' [''sys_timer_getoverrun''],
      Line 261 Common ''timer_delete'' [''sys_timer_delete''],
      Line 262 Common ''clock_settime'' [''sys_clock_settime''],
      Line 263 Common ''clock_gettime'' [''sys_clock_gettime''],
      Line 264 Common ''clock_getres'' [''sys_clock_getres''],
      Line 265 Common ''clock_nanosleep'' [''sys_clock_nanosleep''],
      Line 266 Common ''statfs64'' [''sys_statfs64_wrapper''],
      Line 267 Common ''fstatfs64'' [''sys_fstatfs64_wrapper''],
      Line 268 Common ''tgkill'' [''sys_tgkill''],
      Line 269 Common ''utimes'' [''sys_utimes''],
      Line 270 Common ''arm_fadvise64_64'' [''sys_arm_fadvise64_64''],
      Line 271 Common ''pciconfig_iobase'' [''sys_pciconfig_iobase''],
      Line 272 Common ''pciconfig_read'' [''sys_pciconfig_read''],
      Line 273 Common ''pciconfig_write'' [''sys_pciconfig_write''],
      Line 274 Common ''mq_open'' [''sys_mq_open'']]"

definition syscalls_275 :: "tbl_line list" where
  "syscalls_275 =
     [Line 275 Common ''mq_unlink'' [''sys_mq_unlink''],
      Line 276 Common ''mq_timedsend'' [''sys_mq_timedsend''],
      Line 277 Common ''mq_timedreceive'' [''sys_mq_timedreceive''],
      Line 278 Common ''mq_notify'' [''sys_mq_notify''],
      Line 279 Common ''mq_getsetattr'' [''sys_mq_getsetattr''],
      Line 280 Common ''waitid'' [''sys_waitid''],
      Line 281 Common ''socket'' [''sys_socket''],
      Line 282 Common ''bind'' [''sys_bind'', ''sys_oabi_bind''],
      Line 283 Common ''connect'' [''sys_connect'', ''sys_oabi_connect''],
      Line 284 Common ''listen'' [''sys_listen''],
      Line 285 Common ''accept'' [''sys_accept''],
      Line 286 Common ''getsockname'' [''sys_getsockname''],
      Line 287 Common ''getpeername'' [''sys_getpeername''],
      Line 288 Common ''socketpair'' [''sys_socketpair''],
      Line 289 Common ''send'' [''sys_send''],
      Line 290 Common ''sendto'' [''sys_sendto'', ''sys_oabi_sendto''],
      Line 291 Common ''recv'' [''sys_recv''],
      Line 292 Common ''recvfrom'' [''sys_recvfrom''],
      Line 293 Common ''shutdown'' [''sys_shutdown''],
      Line 294 Common ''setsockopt'' [''sys_setsockopt''],
      Line 295 Common ''getsockopt'' [''sys_getsockopt''],
      Line 296 Common ''sendmsg'' [''sys_sendmsg'', ''sys_oabi_sendmsg''],
      Line 297 Common ''recvmsg'' [''sys_recvmsg''],
      Line 298 Common ''semop'' [''sys_semop'', ''sys_oabi_semop''],
      Line 299 Common ''semget'' [''sys_semget'']]"

definition syscalls_300 :: "tbl_line list" where
  "syscalls_300 =
     [Line 300 Common ''semctl'' [''sys_semctl''],
      Line 301 Common ''msgsnd'' [''sys_msgsnd''],
      Line 302 Common ''msgrcv'' [''sys_msgrcv''],
      Line 303 Common ''msgget'' [''sys_msgget''],
      Line 304 Common ''msgctl'' [''sys_msgctl''],
      Line 305 Common ''shmat'' [''sys_shmat''],
      Line 306 Common ''shmdt'' [''sys_shmdt''],
      Line 307 Common ''shmget'' [''sys_shmget''],
      Line 308 Common ''shmctl'' [''sys_shmctl''],
      Line 309 Common ''add_key'' [''sys_add_key''],
      Line 310 Common ''request_key'' [''sys_request_key''],
      Line 311 Common ''keyctl'' [''sys_keyctl''],
      Line 312 Common ''semtimedop'' [''sys_semtimedop'', ''sys_oabi_semtimedop''],
      Line 313 Common ''vserver'' [],
      Line 314 Common ''ioprio_set'' [''sys_ioprio_set''],
      Line 315 Common ''ioprio_get'' [''sys_ioprio_get''],
      Line 316 Common ''inotify_init'' [''sys_inotify_init''],
      Line 317 Common ''inotify_add_watch'' [''sys_inotify_add_watch''],
      Line 318 Common ''inotify_rm_watch'' [''sys_inotify_rm_watch''],
      Line 319 Common ''mbind'' [''sys_mbind''],
      Line 320 Common ''get_mempolicy'' [''sys_get_mempolicy''],
      Line 321 Common ''set_mempolicy'' [''sys_set_mempolicy''],
      Line 322 Common ''openat'' [''sys_openat''],
      Line 323 Common ''mkdirat'' [''sys_mkdirat''],
      Line 324 Common ''mknodat'' [''sys_mknodat'']]"

definition syscalls_325 :: "tbl_line list" where
  "syscalls_325 =
     [Line 325 Common ''fchownat'' [''sys_fchownat''],
      Line 326 Common ''futimesat'' [''sys_futimesat''],
      Line 327 Common ''fstatat64'' [''sys_fstatat64'', ''sys_oabi_fstatat64''],
      Line 328 Common ''unlinkat'' [''sys_unlinkat''],
      Line 329 Common ''renameat'' [''sys_renameat''],
      Line 330 Common ''linkat'' [''sys_linkat''],
      Line 331 Common ''symlinkat'' [''sys_symlinkat''],
      Line 332 Common ''readlinkat'' [''sys_readlinkat''],
      Line 333 Common ''fchmodat'' [''sys_fchmodat''],
      Line 334 Common ''faccessat'' [''sys_faccessat''],
      Line 335 Common ''pselect6'' [''sys_pselect6''],
      Line 336 Common ''ppoll'' [''sys_ppoll''],
      Line 337 Common ''unshare'' [''sys_unshare''],
      Line 338 Common ''set_robust_list'' [''sys_set_robust_list''],
      Line 339 Common ''get_robust_list'' [''sys_get_robust_list''],
      Line 340 Common ''splice'' [''sys_splice''],
      Line 341 Common ''arm_sync_file_range'' [''sys_sync_file_range2''],
      Line 342 Common ''tee'' [''sys_tee''],
      Line 343 Common ''vmsplice'' [''sys_vmsplice''],
      Line 344 Common ''move_pages'' [''sys_move_pages''],
      Line 345 Common ''getcpu'' [''sys_getcpu''],
      Line 346 Common ''epoll_pwait'' [''sys_epoll_pwait''],
      Line 347 Common ''kexec_load'' [''sys_kexec_load''],
      Line 348 Common ''utimensat'' [''sys_utimensat''],
      Line 349 Common ''signalfd'' [''sys_signalfd'']]"

definition syscalls_350 :: "tbl_line list" where
  "syscalls_350 =
     [Line 350 Common ''timerfd_create'' [''sys_timerfd_create''],
      Line 351 Common ''eventfd'' [''sys_eventfd''],
      Line 352 Common ''fallocate'' [''sys_fallocate''],
      Line 353 Common ''timerfd_settime'' [''sys_timerfd_settime''],
      Line 354 Common ''timerfd_gettime'' [''sys_timerfd_gettime''],
      Line 355 Common ''signalfd4'' [''sys_signalfd4''],
      Line 356 Common ''eventfd2'' [''sys_eventfd2''],
      Line 357 Common ''epoll_create1'' [''sys_epoll_create1''],
      Line 358 Common ''dup3'' [''sys_dup3''],
      Line 359 Common ''pipe2'' [''sys_pipe2''],
      Line 360 Common ''inotify_init1'' [''sys_inotify_init1''],
      Line 361 Common ''preadv'' [''sys_preadv''],
      Line 362 Common ''pwritev'' [''sys_pwritev''],
      Line 363 Common ''rt_tgsigqueueinfo'' [''sys_rt_tgsigqueueinfo''],
      Line 364 Common ''perf_event_open'' [''sys_perf_event_open''],
      Line 365 Common ''recvmmsg'' [''sys_recvmmsg''],
      Line 366 Common ''accept4'' [''sys_accept4''],
      Line 367 Common ''fanotify_init'' [''sys_fanotify_init''],
      Line 368 Common ''fanotify_mark'' [''sys_fanotify_mark''],
      Line 369 Common ''prlimit64'' [''sys_prlimit64''],
      Line 370 Common ''name_to_handle_at'' [''sys_name_to_handle_at''],
      Line 371 Common ''open_by_handle_at'' [''sys_open_by_handle_at''],
      Line 372 Common ''clock_adjtime'' [''sys_clock_adjtime''],
      Line 373 Common ''syncfs'' [''sys_syncfs''],
      Line 374 Common ''sendmmsg'' [''sys_sendmmsg'']]"

definition syscalls_375 :: "tbl_line list" where
  "syscalls_375 =
     [Line 375 Common ''setns'' [''sys_setns''],
      Line 376 Common ''process_vm_readv'' [''sys_process_vm_readv''],
      Line 377 Common ''process_vm_writev'' [''sys_process_vm_writev''],
      Line 378 Common ''kcmp'' [''sys_kcmp''],
      Line 379 Common ''finit_module'' [''sys_finit_module''],
      Line 380 Common ''sched_setattr'' [''sys_sched_setattr''],
      Line 381 Common ''sched_getattr'' [''sys_sched_getattr''],
      Line 382 Common ''renameat2'' [''sys_renameat2''],
      Line 383 Common ''seccomp'' [''sys_seccomp''],
      Line 384 Common ''getrandom'' [''sys_getrandom''],
      Line 385 Common ''memfd_create'' [''sys_memfd_create''],
      Line 386 Common ''bpf'' [''sys_bpf''],
      Line 387 Common ''execveat'' [''sys_execveat''],
      Line 388 Common ''userfaultfd'' [''sys_userfaultfd''],
      Line 389 Common ''membarrier'' [''sys_membarrier''],
      Line 390 Common ''mlock2'' [''sys_mlock2''],
      Line 391 Common ''copy_file_range'' [''sys_copy_file_range''],
      Line 392 Common ''preadv2'' [''sys_preadv2''],
      Line 393 Common ''pwritev2'' [''sys_pwritev2''],
      Line 394 Common ''pkey_mprotect'' [''sys_pkey_mprotect''],
      Line 395 Common ''pkey_alloc'' [''sys_pkey_alloc''],
      Line 396 Common ''pkey_free'' [''sys_pkey_free''],
      Line 397 Common ''statx'' [''sys_statx''],
      Line 398 Common ''kMergeSort'' [''sys_kMergeSort'']]"

definition syscall_tbl :: "tbl_line list" where
  "syscall_tbl =
     syscalls_0 @ syscalls_25 @ syscalls_50 @ syscalls_75
     @ syscalls_100 @ syscalls_125 @ syscalls_150 @ syscalls_175
     @ syscalls_200 @ syscalls_225 @ syscalls_250 @ syscalls_275
     @ syscalls_300 @ syscalls_325 @ syscalls_350 @ syscalls_375"

lemmas syscall_tbl_defs = syscall_tbl_def
  syscalls_0_def syscalls_25_def syscalls_50_def syscalls_75_def syscalls_100_def
  syscalls_125_def syscalls_150_def syscalls_175_def syscalls_200_def syscalls_225_def
  syscalls_250_def syscalls_275_def syscalls_300_def syscalls_325_def syscalls_350_def
  syscalls_375_def

definition line_entry :: "tbl_abi \<Rightarrow> tbl_line \<Rightarrow> string option" where
  "line_entry a l = (case entries l of
       [] \<Rightarrow> None
     | e # old \<Rightarrow> if a = Oabi \<and> old \<noteq> [] then Some (hd old) else Some e)"

fun entry_in :: "tbl_line list \<Rightarrow> tbl_abi \<Rightarrow> nat \<Rightarrow> string" where
  "entry_in [] a nr = ''sys_ni_syscall''"
| "entry_in (l # ls) a nr =
     (if num l = nr \<and> (tabi l = Common \<or> tabi l = a)
      then (case line_entry a l of None \<Rightarrow> ''sys_ni_syscall'' | Some e \<Rightarrow> e) else entry_in ls a nr)"

definition entry_point :: "tbl_abi \<Rightarrow> nat \<Rightarrow> string" where
  "entry_point = entry_in syscall_tbl"

text \<open>The numbers under which an ABI has an entry point.\<close>

fun numbers_of :: "tbl_abi \<Rightarrow> string \<Rightarrow> tbl_line list \<Rightarrow> nat list" where
  "numbers_of a e [] = []"
| "numbers_of a e (l # ls) =
     (if (tabi l = Common \<or> tabi l = a) \<and> line_entry a l = Some e then num l # numbers_of a e ls
      else numbers_of a e ls)"

lemma numbers_of_subset: "n \<in> set (numbers_of a e ls) \<Longrightarrow> n \<in> num ` set ls"
  by (induction a e ls rule: numbers_of.induct) (auto split: if_splits)

lemma entry_in_numbers_of:
  "sorted_wrt (<) (map num ls) \<Longrightarrow> n \<in> set (numbers_of a e ls) \<Longrightarrow> entry_in ls a n = e"
proof (induction a e ls rule: numbers_of.induct)
  case (2 a e l ls)
  show ?case
  proof (cases "num l = n")
    case True
    then have "n \<notin> num ` set ls" using "2.prems"(1) by auto
    then have "n \<notin> set (numbers_of a e ls)" using numbers_of_subset by blast
    then show ?thesis using "2.prems"(2) True by (auto split: if_splits)
  next
    case False
    then have "n \<in> set (numbers_of a e ls)" using "2.prems"(2) by (auto split: if_splits)
    then show ?thesis using 2 False by (simp split: if_splits)
  qed
qed simp

lemma numbers_of_append: "numbers_of a e (ls @ ms) = numbers_of a e ls @ numbers_of a e ms"
  by (induction a e ls rule: numbers_of.induct) auto

lemma numbers_of_Line:
  "numbers_of Eabi e (Line n Common c [] # ls) = numbers_of Eabi e ls"
  "numbers_of Eabi e (Line n Common c (f # fs) # ls) = (if f = e then n # numbers_of Eabi e ls else numbers_of Eabi e ls)"
  "numbers_of Eabi e (Line n Oabi c fs # ls) = numbers_of Eabi e ls"
  by (simp_all add: line_entry_def)

lemma numbers_ascend: "sorted_wrt (<) (map num syscall_tbl)"
  by (simp add: syscall_tbl_defs sorted_wrt2_simps del: sorted_wrt.simps)

lemma entry_point_number:
  "n \<in> set (numbers_of a e syscall_tbl) \<Longrightarrow> entry_point a n = e"
  unfolding entry_point_def by (rule entry_in_numbers_of [OF numbers_ascend])

text \<open>The numbers the test programs use. For 24 the table has the call for 16-bit user IDs, not \<^verbatim>\<open>getuid\<close>.\<close>

lemma number_20: "20 \<in> set (numbers_of Eabi ''sys_getpid'' syscall_tbl)"
  by (simp add: syscall_tbl_def numbers_of_append) (simp add: syscalls_0_def numbers_of_Line del: numbers_of.simps(2))

lemma number_24: "24 \<in> set (numbers_of Eabi ''sys_getuid16'' syscall_tbl)"
  by (simp add: syscall_tbl_def numbers_of_append) (simp add: syscalls_0_def numbers_of_Line del: numbers_of.simps(2))

lemma number_398: "398 \<in> set (numbers_of Eabi ''sys_kMergeSort'' syscall_tbl)"
  by (simp add: syscall_tbl_def numbers_of_append) (simp add: syscalls_375_def numbers_of_Line del: numbers_of.simps(2))

lemmas entry_20 = entry_point_number [OF number_20]
  and entry_24 = entry_point_number [OF number_24]
  and entry_398 = entry_point_number [OF number_398]

end
