(* ===== verification/SyscallPrograms.thy ===== *)
theory SyscallPrograms
  imports SortSyscall SyscallTable
begin

text \<open>
  The two user programs that call the added system call (\<^verbatim>\<open>src/HW2/Ques5/syscalltest.c\<close>,
  \<^verbatim>\<open>src/HW2/Ques6/crontest.c\<close>) and the way of a call from them into the kernel: the C library puts the
  arguments into registers, the number selects the entry point in \<^verbatim>\<open>syscall.tbl\<close>, the wrapper of
  \<^verbatim>\<open>SYSCALL_DEFINE3\<close> casts the registers to the types of the arguments, and \<^verbatim>\<open>kMergeSort\<close> runs. The other
  entry points are a parameter.
\<close>

subsection \<open>The way of a call\<close>

definition sys_kMergeSort :: "c_abi \<Rightarrow> 'm uaccess \<Rightarrow> int list \<Rightarrow> 'm kern \<Rightarrow> (int \<times> 'm kern) option" where
  "sys_kMergeSort E U regs s = Option.bind
     (SYSCALL_DEFINEx E (hcount SYSCALL_kMergeSort) (hargs SYSCALL_kMergeSort)
        (\<lambda>vs. kMergeSort U (word_of_int (vs ! 0)) (word_of_int (vs ! 1)) (vs ! 2)) regs) (\<lambda>f. f s)"

definition kernel_entry ::
  "c_abi \<Rightarrow> 'm uaccess \<Rightarrow> (string \<Rightarrow> int list \<Rightarrow> 'm kern \<Rightarrow> (int \<times> 'm kern) option) \<Rightarrow>
     string \<Rightarrow> int list \<Rightarrow> 'm kern \<Rightarrow> (int \<times> 'm kern) option" where
  "kernel_entry E U others e = (if e = ''sys_kMergeSort'' then sys_kMergeSort E U else others e)"

text \<open>The C library's \<^verbatim>\<open>syscall\<close> maps results in \<open>{-4095..-1}\<close> to \<open>-1\<close> and passes others on.\<close>

definition syscall_ret :: "int \<Rightarrow> int" where
  "syscall_ret r = (if - 4095 \<le> r \<and> r < 0 then - 1 else r)"

definition syscall ::
  "c_abi \<Rightarrow> 'm uaccess \<Rightarrow> (string \<Rightarrow> int list \<Rightarrow> 'm kern \<Rightarrow> (int \<times> 'm kern) option) \<Rightarrow>
     nat \<Rightarrow> int list \<Rightarrow> 'm kern \<Rightarrow> (int \<times> 'm kern) option" where
  "syscall E U others nr args s =
     map_option (map_prod syscall_ret id)
       (kernel_entry E U others (entry_point Eabi nr) (map (c_cast E C_long) args) s)"

text \<open>The arguments arrive: a call with the number 398 is a call of \<^verbatim>\<open>kMergeSort\<close>.\<close>

lemma syscall_398:
  assumes E: "linux_abi E" "BITS_PER_LONG E = 32" and n: "- (2 ^ 31) \<le> n" "n < 2 ^ 31"
  shows "syscall E U others 398 [uint a, uint b, n] s = map_option (map_prod syscall_ret id) (kMergeSort U a b n s)"
proof -
  let ?ps = "hargs SYSCALL_kMergeSort" and ?vs = "[uint a, uint b, n]"
  have ps: "?ps = [(C_ptr False C_int, ''unsorted''), (C_ptr False C_int, ''sorted''), (C_int, ''size'')]"
    "hcount SYSCALL_kMergeSort = length ?ps" by (simp_all add: SYSCALL_kMergeSort_def)
  have c: "callable E ?ps" using heads_callable [OF E(1)] by (simp add: sys_c_heads_def list_all_iff)
  have v: "list_all2 (\<lambda>(t, a) v. in_type E t v) ?ps ?vs"
    using n uint_bounded [of a] uint_bounded [of b] by (simp add: ps in_type_def signed_type_def bits_of_def E(2))
  have regs: "map2 (\<lambda>(t, a) v. c_cast E (SC_LONG E t) v) ?ps ?vs = map (c_cast E C_long) ?vs"
    by (simp add: ps SC_LONG_def TYPE_IS_LL_def)
  have ok: "list_all (\<lambda>(t, a). SC_TEST E t \<and> 0 < bits_of E t) ?ps" using c by (simp add: callable_def)
  have "map2 (\<lambda>(t, a) v. c_cast E t v) ?ps (map (c_cast E C_long) ?vs) = ?vs"
    unfolding regs [symmetric] using casts_via_registers [OF ok, of ?vs] casts_id [OF v] by (simp add: ps)
  then have "sys_kMergeSort E U (map (c_cast E C_long) ?vs) s = kMergeSort U a b n s"
    unfolding sys_kMergeSort_def ps(2) by (subst wrapper_casts [OF c]) (simp_all add: ps(1))
  then show ?thesis by (simp only: syscall_def kernel_entry_def entry_398 simp_thms if_True)
qed

subsection \<open>The programs\<close>

abbreviation (input) BUFFER_SIZE :: nat where "BUFFER_SIZE \<equiv> 256"

text \<open>
  \<^verbatim>\<open>for (i=0; i<BUFFER_SIZE; i++) unsorted[i]=((u_int32_t) random())%1000;\<close>
  The \<open>k\<close>-th value that \<^verbatim>\<open>random()\<close> delivers is \<open>rnd k\<close>; \<open>d\<close> iterations are left. How memory changes when the
  program stores \<open>v\<close> into \<open>p[i]\<close> is \<open>put p i v\<close>.
\<close>

type_synonym 'm stores = "u32 \<Rightarrow> nat \<Rightarrow> int \<Rightarrow> 'm \<Rightarrow> 'm"

fun fill_loop :: "'m stores \<Rightarrow> (nat \<Rightarrow> u32) \<Rightarrow> nat \<Rightarrow> u32 \<Rightarrow> nat \<Rightarrow> 'm \<Rightarrow> 'm" where
  "fill_loop put rnd k p 0 m = m"
| "fill_loop put rnd k p (Suc d) m =
     fill_loop put rnd (Suc k) p d (put p (BUFFER_SIZE - Suc d) (uint (rnd k mod 1000)) m)"

definition fill_buffer :: "'m stores \<Rightarrow> (nat \<Rightarrow> u32) \<Rightarrow> nat \<Rightarrow> u32 \<Rightarrow> 'm kern \<Rightarrow> 'm kern" where
  "fill_buffer put rnd k p s = s\<lparr>umem := fill_loop put rnd k p BUFFER_SIZE (umem s)\<rparr>"

text \<open>
  \<^verbatim>\<open>syscalltest.c\<close>: two sorts of fresh random data, then the three calls with bad
  arguments. The result is the list of return values the program prints.
\<close>

abbreviation (input) SYSCALL_NUM_HEAPSORT :: nat where "SYSCALL_NUM_HEAPSORT \<equiv> 398"
abbreviation (input) SYSCALL_GETUID :: nat where "SYSCALL_GETUID \<equiv> 24"
abbreviation (input) SYSCALL_GETPID :: nat where "SYSCALL_GETPID \<equiv> 20"

type_synonym 'm entry_points = "string \<Rightarrow> int list \<Rightarrow> 'm kern \<Rightarrow> (int \<times> 'm kern) option"

definition syscalltest_main ::
  "c_abi \<Rightarrow> 'm uaccess \<Rightarrow> 'm stores \<Rightarrow> 'm entry_points \<Rightarrow> (nat \<Rightarrow> u32) \<Rightarrow> u32 \<Rightarrow> u32 \<Rightarrow> 'm kern
     \<Rightarrow> (int list \<times> 'm kern) option" where
  "syscalltest_main E U put others rnd unsorted sorted_p s = (let sys = syscall E U others in do {
     let s = fill_buffer put rnd 0 unsorted s;
     (r1, s) \<leftarrow> sys SYSCALL_NUM_HEAPSORT [uint unsorted, uint sorted_p, int BUFFER_SIZE] s;
     let s = fill_buffer put rnd BUFFER_SIZE unsorted s;
     (r2, s) \<leftarrow> sys SYSCALL_NUM_HEAPSORT [uint unsorted, uint sorted_p, int BUFFER_SIZE] s;
     (r3, s) \<leftarrow> sys SYSCALL_NUM_HEAPSORT [uint unsorted, uint (0 :: u32), int BUFFER_SIZE] s;
     (r4, s) \<leftarrow> sys SYSCALL_NUM_HEAPSORT [uint (0 :: u32), uint sorted_p, int BUFFER_SIZE] s;
     (r5, s) \<leftarrow> sys SYSCALL_NUM_HEAPSORT [uint unsorted, uint sorted_p, int (BUFFER_SIZE - 10)] s;
     Some ([r1, r2, r3, r4, r5], s)
   })"

text \<open>\<^verbatim>\<open>crontest.c\<close>: the process and user id, the time of day, and one sort.\<close>

record cron_report =
  cron_pid :: int
  cron_uid :: int
  cron_date :: string
  cron_retval :: int

definition crontest_main ::
  "c_abi \<Rightarrow> 'm uaccess \<Rightarrow> 'm stores \<Rightarrow> 'm entry_points \<Rightarrow> (nat \<Rightarrow> u32) \<Rightarrow> string \<Rightarrow> u32 \<Rightarrow> u32 \<Rightarrow> 'm kern
     \<Rightarrow> (cron_report \<times> 'm kern) option" where
  "crontest_main E U put others rnd datetime unsorted sorted_p s = (let sys = syscall E U others in do {
     let s = fill_buffer put rnd 0 unsorted s;
     (pid, s) \<leftarrow> sys SYSCALL_GETPID [] s;
     (uid, s) \<leftarrow> sys SYSCALL_GETUID [] s;
     (r, s) \<leftarrow> sys SYSCALL_NUM_HEAPSORT [uint unsorted, uint sorted_p, int BUFFER_SIZE] s;
     Some (\<lparr>cron_pid = pid, cron_uid = uid, cron_date = datetime, cron_retval = r\<rparr>, s)
   })"

lemma sorting_call:
  assumes "linux_abi E" "BITS_PER_LONG E = 32"
  shows "syscall E U others 398 [uint a, uint b, 256] s = map_option (map_prod syscall_ret id) (kMergeSort U a b 256 s)"
    and "syscall E U others 398 [uint a, uint b, 246] s = map_option (map_prod syscall_ret id) (kMergeSort U a b 246 s)"
  using assms by (simp_all add: syscall_398)

subsection \<open>The memory of a program\<close>

text \<open>
  What a program relies on beyond the interface of the system call: \<open>writable m p n\<close> says that it may write
  \<open>n\<close> integers from \<open>p\<close> on. A store into such an array changes one element of it; \<^verbatim>\<open>copy_to_user\<close> succeeds on such
  a range and leaves the words outside it alone; neither changes what is writable.
\<close>

definition apart :: "u32 \<Rightarrow> nat \<Rightarrow> u32 \<Rightarrow> nat \<Rightarrow> bool" where
  "apart p n q k \<longleftrightarrow> unat p + 4 * n \<le> unat q \<or> unat q + 4 * k \<le> unat p"

locale user_program = user_access U words_at for U :: "'m uaccess" and words_at +
  fixes put :: "'m stores" and writable :: "'m \<Rightarrow> u32 \<Rightarrow> nat \<Rightarrow> bool"
  assumes put_word: "writable m p n \<Longrightarrow> words_at m p n = Some xs \<Longrightarrow> i < n \<Longrightarrow>
      words_at (put p i v m) p n = Some (xs[i := v])"
    and put_writable: "writable m p n \<Longrightarrow> i < n \<Longrightarrow> writable (put p i v m) q k = writable m q k"
    and to_user_writable: "writable m p (length zs) \<Longrightarrow> length zs = unat c div 4 \<Longrightarrow>
      \<exists>m'. copy_to_user U p zs c m = (0, m') \<and> (\<forall>q k. writable m' q k = writable m q k)"
    and to_user_frame: "copy_to_user U p zs c m = (0, m') \<Longrightarrow> length zs = unat c div 4 \<Longrightarrow>
      apart p (length zs) q k \<Longrightarrow> words_at m q k = Some ys \<Longrightarrow> words_at m' q k = Some ys"
begin

lemma words_length: "words_at m p 256 = Some xs \<Longrightarrow> length xs = 256"
  using from_user_ok [of m p "1024 :: u32" xs "replicate 256 0"] by simp

lemma fill_loop_words:
  assumes "writable m p BUFFER_SIZE" and "words_at m p BUFFER_SIZE = Some xs" and "d \<le> BUFFER_SIZE"
  shows "\<exists>ys. words_at (fill_loop put rnd k p d m) p BUFFER_SIZE = Some ys \<and>
    (\<forall>q n. writable (fill_loop put rnd k p d m) q n = writable m q n) \<and>
    (\<forall>i < BUFFER_SIZE. ys ! i =
      (if i < BUFFER_SIZE - d then xs ! i else uint (rnd (k + (i - (BUFFER_SIZE - d))) mod 1000)))"
  using assms
proof (induction d arbitrary: k m xs)
  case 0
  then show ?case by simp
next
  case (Suc d)
  define m1 where "m1 = put p (BUFFER_SIZE - Suc d) (uint (rnd k mod 1000)) m"
  define xs1 where "xs1 = xs[BUFFER_SIZE - Suc d := uint (rnd k mod 1000)]"
  have m1: "writable m1 q n = writable m q n" "words_at m1 p BUFFER_SIZE = Some xs1" for q n
    using Suc.prems put_writable [OF Suc.prems(1)] put_word [OF Suc.prems(1,2)] by (simp_all add: m1_def xs1_def)
  from Suc.IH [of m1 xs1 "Suc k"] m1 Suc.prems obtain ys where
    ys: "words_at (fill_loop put rnd (Suc k) p d m1) p BUFFER_SIZE = Some ys"
      "\<forall>q n. writable (fill_loop put rnd (Suc k) p d m1) q n = writable m q n"
      "\<forall>i < BUFFER_SIZE. ys ! i =
        (if i < BUFFER_SIZE - d then xs1 ! i else uint (rnd (Suc k + (i - (BUFFER_SIZE - d))) mod 1000))" by auto
  have step: "fill_loop put rnd k p (Suc d) m = fill_loop put rnd (Suc k) p d m1"
    by (simp only: fill_loop.simps m1_def)
  have elem: "ys ! i = (if i < BUFFER_SIZE - Suc d then xs ! i else uint (rnd (k + (i - (BUFFER_SIZE - Suc d))) mod 1000))"
    if i: "i < BUFFER_SIZE" for i
  proof (cases "i < BUFFER_SIZE - d")
    case True
    then show ?thesis
      using ys(3) i words_length [OF Suc.prems(2)] Suc.prems(3) by (auto simp: xs1_def nth_list_update)
  next
    case False
    then have "k + (i - (BUFFER_SIZE - Suc d)) = Suc k + (i - (BUFFER_SIZE - d))" "\<not> i < BUFFER_SIZE - Suc d"
      using Suc.prems(3) by simp_all
    then show ?thesis using ys(3) [rule_format, OF i] False by (simp only: if_False)
  qed
  show ?case unfolding step using ys(1,2) elem by blast
qed

lemma fill_buffer_words:
  assumes "writable (umem s) p BUFFER_SIZE" and "words_at (umem s) p BUFFER_SIZE = Some xs"
  shows "words_at (umem (fill_buffer put rnd k p s)) p BUFFER_SIZE
      = Some (map (\<lambda>i. uint (rnd (k + i) mod 1000)) [0..<BUFFER_SIZE]) \<and>
    (\<forall>q n. writable (umem (fill_buffer put rnd k p s)) q n = writable (umem s) q n) \<and>
    kbufs (fill_buffer put rnd k p s) = kbufs s"
proof -
  from fill_loop_words [OF assms, of BUFFER_SIZE rnd k] obtain ys where
    ys: "words_at (fill_loop put rnd k p BUFFER_SIZE (umem s)) p BUFFER_SIZE = Some ys"
      "\<forall>q n. writable (fill_loop put rnd k p BUFFER_SIZE (umem s)) q n = writable (umem s) q n"
      "\<forall>i < BUFFER_SIZE. ys ! i = uint (rnd (k + i) mod 1000)" by (auto simp del: fill_loop.simps)
  have "ys = map (\<lambda>i. uint (rnd (k + i) mod 1000)) [0..<BUFFER_SIZE]"
    using ys(3) words_length [OF ys(1)] by (intro nth_equalityI) auto
  then show ?thesis using ys by (simp add: fill_buffer_def del: fill_loop.simps)
qed

text \<open>One successful call over two arrays of a program.\<close>

lemma program_sort:
  assumes ab: "a \<noteq> 0" "b \<noteq> 0" "apart b BUFFER_SIZE a BUFFER_SIZE"
    and mem: "kmalloc U (buffer_bytes 256) (umem s) \<noteq> None"
    and a: "words_at (umem s) a BUFFER_SIZE = Some xs" and b: "writable (umem s) b BUFFER_SIZE"
  shows "\<exists>s'. kMergeSort U a b 256 s = Some (0, s') \<and> words_at (umem s') a BUFFER_SIZE = Some xs \<and>
    words_at (umem s') b BUFFER_SIZE = Some (sort xs) \<and>
    (\<forall>q n. writable (umem s') q n = writable (umem s) q n) \<and> kbufs s' = kbufs s"
proof -
  have len: "length (sort xs) = 256" using words_length [OF a] by simp
  have c: "unat (buffer_bytes 256) div 4 = 256" by (simp add: buffer_bytes_def)
  obtain k where k: "kmalloc U (buffer_bytes 256) (umem s) = Some k" using mem by blast
  from to_user_writable [of "umem s" b "sort xs" "buffer_bytes 256"] b len c obtain m' where
    m': "copy_to_user U b (sort xs) (buffer_bytes 256) (umem s) = (0, m')" "\<forall>q n. writable m' q n = writable (umem s) q n"
    by auto
  have "words_at m' a BUFFER_SIZE = Some xs" using to_user_frame [OF m'(1) _ _ a] len c ab(3) by simp
  with sorts_on_success [OF ab(1,2) _ _ k _ m'(1)] a m'(2) show ?thesis by auto
qed

end

text \<open>The buffers of the previous section, as memory of a program.\<close>

definition block_put :: "blockmem stores" where
  "block_put p i v m = (case m p of None \<Rightarrow> m | Some xs \<Rightarrow> m(p \<mapsto> xs[i := v]))"

definition block_writable :: "blockmem \<Rightarrow> u32 \<Rightarrow> nat \<Rightarrow> bool" where
  "block_writable m p n \<longleftrightarrow> block_words m p n \<noteq> None"

interpretation block_prog: user_program block_uaccess block_words block_put block_writable
proof (unfold_locales, goal_cases)
  case (1 m p n xs i v)
  then show ?case by (auto simp: block_words_def block_put_def take_update_swap split: option.splits if_splits)
next
  case (2 m p n i v q k)
  then show ?case by (auto simp: block_words_def block_put_def block_writable_def split: option.splits if_splits)
next
  case (3 m p zs c)
  then show ?case
    by (auto simp: block_uaccess_def block_words_def block_writable_def Let_def split: option.splits if_splits)
next
  case (4 p zs c m m' q k ys)
  then show ?case
    by (cases "p = q") (auto simp: block_uaccess_def block_words_def apart_def Let_def split: option.splits if_splits)
qed

subsection \<open>Properties\<close>

text \<open>
  C10: the test program, from its calls by number through the table and the wrapper into the kernel
  and back. Allocation, copies and the program's stores are parameters with the laws above; the two
  arrays are mapped and disjoint, the source readable, both writable; and each kernel allocation of 1 KiB
  succeeds. Then the program prints the return values 0, 0, \<^verbatim>\<open>EDESTADDRREQ\<close>, \<^verbatim>\<open>EFAULT\<close> and \<^verbatim>\<open>EINVAL\<close>; at its end the
  source array holds the second batch of random numbers and the destination array the same numbers
  sorted, and no kernel buffer is leaked.
\<close>

theorem syscalltest_outcome:
  assumes prog: "user_program U words_at put writable" and E: "linux_abi E" "BITS_PER_LONG E = 32"
    and ab: "a \<noteq> 0" "b \<noteq> 0" "apart b 256 a 256"
    and a: "words_at (umem s) a 256 = Some xs" "writable (umem s) a 256" and b: "writable (umem s) b 256"
    and mem: "\<And>m. kmalloc U (buffer_bytes 256) m \<noteq> None"
  shows "\<exists>s'. syscalltest_main E U put others rnd a b s = Some ([0, 0, EDESTADDRREQ, EFAULT, EINVAL], s') \<and>
     words_at (umem s') a 256 = Some (map (\<lambda>i. uint (rnd (256 + i) mod 1000)) [0..<256]) \<and>
     words_at (umem s') b 256 = Some (sort (map (\<lambda>i. uint (rnd (256 + i) mod 1000)) [0..<256])) \<and>
     kbufs s' = kbufs s"
proof -
  note sorts = user_program.program_sort [OF prog ab mem] and fills = user_program.fill_buffer_words [OF prog]
  let ?f = "\<lambda>k. map (\<lambda>i. uint (rnd (k + i) mod 1000)) [0..<256]"
  note s1 = fills [OF a(2,1), of rnd 0]
  from sorts [of "fill_buffer put rnd 0 a s" "?f 0"] s1 b obtain s2 where
    s2: "kMergeSort U a b 256 (fill_buffer put rnd 0 a s) = Some (0, s2)" "words_at (umem s2) a 256 = Some (?f 0)"
      "\<forall>q n. writable (umem s2) q n = writable (umem s) q n" "kbufs s2 = kbufs s" by auto
  note s3 = fills [OF _ s2(2), of rnd 256]
  from sorts [of "fill_buffer put rnd 256 a s2" "?f 256"] s3 s2 a b obtain s4 where
    s4: "kMergeSort U a b 256 (fill_buffer put rnd 256 a s2) = Some (0, s4)" "words_at (umem s4) a 256 = Some (?f 256)"
      "words_at (umem s4) b 256 = Some (sort (?f 256))" "kbufs s4 = kbufs s" by auto
  obtain s5 where s5: "kMergeSort U a 0 256 s4 = Some (EDESTADDRREQ, s5)" "umem s5 = umem s4" "kbufs s5 = kbufs s4"
    using kMergeSort_null_dest [OF ab(1)] by blast
  obtain s6 where s6: "kMergeSort U 0 b 256 s5 = Some (EFAULT, s6)" "umem s6 = umem s5" "kbufs s6 = kbufs s5"
    using kMergeSort_null_source by blast
  obtain s7 where s7: "kMergeSort U a b 246 s6 = Some (EINVAL, s7)" "umem s7 = umem s6" "kbufs s7 = kbufs s6"
    using kMergeSort_short [OF ab(1,2), of 246] by auto
  have "syscalltest_main E U put others rnd a b s = Some ([0, 0, EDESTADDRREQ, EFAULT, EINVAL], s7)"
    using sorting_call(1) [OF E, of U others a 0] sorting_call(1) [OF E, of U others 0 b]
    by (simp add: syscalltest_main_def sorting_call [OF E] s2 s4 s5 s6 s7 syscall_ret_def)
  then show ?thesis using s4 s5 s6 s7 by simp
qed

lemma block_kmalloc: "kmalloc block_uaccess (buffer_bytes 256) m \<noteq> None"
  by (simp add: block_uaccess_def buffer_bytes_def)

text \<open>Two arrays of 256 integers each.\<close>

definition two_arrays :: "blockmem kern" where
  "two_arrays = \<lparr>umem = [4096 \<mapsto> replicate 256 0, 8192 \<mapsto> replicate 256 0], klog = [], kbufs = 0\<rparr>"

lemma two_arrays_mapped:
  "block_words (umem two_arrays) 4096 256 = Some (replicate 256 0)" "block_writable (umem two_arrays) 4096 256"
  "block_writable (umem two_arrays) 8192 256" "apart 8192 256 4096 256"
  by (simp_all add: two_arrays_def block_words_def block_writable_def apart_def)

theorem syscalltest_outcome_witness:
  "\<exists>s'. syscalltest_main arm_abi block_uaccess block_put (\<lambda>e regs s. None) (\<lambda>k. of_nat (256 - k)) 4096 8192 two_arrays
      = Some ([0, 0, 89, 14, 22], s') \<and> kbufs s' = 0"
  using syscalltest_outcome [OF block_prog.user_program_axioms arm_abi_ok _ _ _ two_arrays_mapped(4,1-3) block_kmalloc,
      of "\<lambda>e regs s. None" "\<lambda>k. of_nat (256 - k)"]
  by (auto simp: arm_abi_def two_arrays_def)

text \<open>
  the periodic task, under the same conditions and with entry points for the process ID and the user ID
  that only report a value, reports the process ID, as user ID the result of the entry point
  \<^verbatim>\<open>sys_getuid16\<close>, the call for 16-bit IDs, to which the table routes its number 24, and 0 as the return value
  of its sort.
\<close>

theorem crontest_outcome:
  assumes prog: "user_program U words_at put writable" and E: "linux_abi E" "BITS_PER_LONG E = 32"
    and ab: "a \<noteq> 0" "b \<noteq> 0" "apart b 256 a 256"
    and a: "words_at (umem s) a 256 = Some xs" "writable (umem s) a 256" and b: "writable (umem s) b 256"
    and mem: "\<And>m. kmalloc U (buffer_bytes 256) m \<noteq> None"
    and pid: "\<And>s. others ''sys_getpid'' [] s = Some (pid, s)" "0 \<le> pid"
    and uid: "\<And>s. others ''sys_getuid16'' [] s = Some (uid, s)" "0 \<le> uid"
  shows "\<exists>s'. crontest_main E U put others rnd date a b s =
       Some (\<lparr>cron_pid = pid, cron_uid = uid, cron_date = date, cron_retval = 0\<rparr>, s') \<and>
     words_at (umem s') b 256 = Some (sort (map (\<lambda>i. uint (rnd i mod 1000)) [0..<256]))"
proof -
  let ?f = "map (\<lambda>i. uint (rnd i mod 1000)) [0..<256]"
  note s1 = user_program.fill_buffer_words [OF prog a(2,1), of rnd 0]
  from user_program.program_sort [OF prog ab mem, of "fill_buffer put rnd 0 a s" ?f] s1 b obtain s2 where
    s2: "kMergeSort U a b 256 (fill_buffer put rnd 0 a s) = Some (0, s2)" "words_at (umem s2) b 256 = Some (sort ?f)" by auto
  have "syscall E U others 20 [] t = Some (pid, t)" "syscall E U others 24 [] t = Some (uid, t)" for t
    using pid uid by (simp_all add: syscall_def kernel_entry_def entry_20 entry_24 syscall_ret_def)
  then show ?thesis using s2 by (simp add: crontest_main_def sorting_call [OF E] syscall_ret_def)
qed

theorem crontest_outcome_witness:
  "\<exists>s'. crontest_main arm_abi block_uaccess block_put (\<lambda>e regs s. Some (if e = ''sys_getpid'' then 812 else 0, s))
      (\<lambda>k. 5) ''Sat Feb  2'' 4096 8192 two_arrays
      = Some (\<lparr>cron_pid = 812, cron_uid = 0, cron_date = ''Sat Feb  2'', cron_retval = 0\<rparr>, s')"
  using crontest_outcome [OF block_prog.user_program_axioms arm_abi_ok _ _ _ two_arrays_mapped(4,1-3) block_kmalloc,
      of "\<lambda>e regs s. Some (if e = ''sys_getpid'' then 812 else 0, s)" 812 0 "\<lambda>k. 5" "''Sat Feb  2''"]
  by (auto simp: arm_abi_def)

end
