(* ===== verification/AnimalList.thy ===== *)
theory AnimalList
  imports Prelude "HOL-Library.List_Lexorder" "HOL-Library.Char_ord"
begin

text \<open>
  The linked-list kernel module (\<^verbatim>\<open>src/HW3/Ques4/linkedListModule.c\<close>): insertion of the
  seed species into a sorted intrusive list with occurrence counts, the filtered listings,
  and the clean-up on module exit.

  The state is the set of live \<^verbatim>\<open>struct animal\<close> objects by address and the order in which
  the list links them; a pointer to an object that is not live (NULL or freed) makes the
  result \<^const>\<open>None\<close>. The kernel's allocator and \<^verbatim>\<open>list_add_tail\<close> are parameters, with their
  documented behaviour in the locale \<open>list_kernel\<close>.
\<close>

subsection \<open>Data\<close>

record animal =
  species :: string
  acount :: u32

datatype llog = LMsg string | LNode string u32 | LNum string u32

record lstate =
  animals :: "nat \<rightharpoonup> animal"
  order :: "nat list"
  llogs :: "llog list"

text \<open>
  \<open>alloc\<close> is \<^verbatim>\<open>kmalloc(sizeof(struct animal), GFP_KERNEL)\<close> given the live objects;
  \<open>add_tail new pos\<close> is \<^verbatim>\<open>list_add_tail(new, pos)\<close>, where \<^const>\<open>None\<close> is the list head.
\<close>

record list_ops =
  alloc :: "nat list \<Rightarrow> nat option"
  add_tail :: "nat \<Rightarrow> nat option \<Rightarrow> nat list \<Rightarrow> nat list"

definition animal_list :: nat where
  "animal_list = 0"

definition seedArray :: "string list" where
  "seedArray = [''fox'', ''dog'', ''cat'', ''rat'', ''cat'', ''tiger'', ''lion'', ''lion'', ''dog'', ''dog'',
     ''chicken'', ''giraffe'', ''boar'', ''chicken'', ''eagle'', ''rat'', ''chicken'', ''boar'', ''boar'', ''giraffe'',
     ''cat'', ''cat'', ''crow'', ''dog'', ''eagle'', ''eagle'', ''boar'', ''cow'', ''cow'', ''cat'',
     ''crow'', ''cow'', ''chicken'', ''dog'', ''rat'', ''tiger'', ''lion'', ''lion'', ''tiger'', ''cow'',
     ''pigeon'', ''rat'', ''giraffe'', ''cow'', ''crow'', ''cow'', ''lion'', ''dog'', ''crow'', ''eagle'']"

text \<open>The C library's \<^verbatim>\<open>strcmp\<close> on strings without their terminating zero.\<close>

fun strcmp :: "string \<Rightarrow> string \<Rightarrow> int" where
  "strcmp [] [] = 0"
| "strcmp [] (y # ys) = - 1"
| "strcmp (x # xs) [] = 1"
| "strcmp (x # xs) (y # ys) =
     (if x = y then strcmp xs ys else if (of_char x :: nat) < of_char y then - 1 else 1)"

subsection \<open>Insertion\<close>

definition llog_add :: "llog list \<Rightarrow> lstate \<Rightarrow> lstate" where
  "llog_add es s = s\<lparr>llogs := llogs s @ es\<rparr>"

text \<open>\<^verbatim>\<open>currentAnimal = kmalloc(...); currentAnimal->species = ...; currentAnimal->count = 1;\<close>\<close>

definition new_animal :: "list_ops \<Rightarrow> string \<Rightarrow> lstate \<Rightarrow> (nat \<times> lstate) option" where
  "new_animal K name s = do {
     q \<leftarrow> alloc K (order s);
     Some (q, s\<lparr>animals := (animals s)(q \<mapsto> \<lparr>species = name, acount = 1\<rparr>)\<rparr>)
   }"

text \<open>
  The inner \<^verbatim>\<open>list_for_each_entry\<close> of \<^verbatim>\<open>listInitialize\<close>, over the entries still to visit;
  the Boolean is \<^verbatim>\<open>flag\<close>. The branch that would overwrite the head is undefined here, since
  copying a \<^verbatim>\<open>struct list_head\<close> leaves its neighbours pointing at the old one.
\<close>

fun insert_scan :: "list_ops \<Rightarrow> string \<Rightarrow> nat list \<Rightarrow> lstate \<Rightarrow> (bool \<times> lstate) option" where
  "insert_scan K name [] s = Some (False, s)"
| "insert_scan K name (p # ps) s = do {
     a \<leftarrow> animals s p;
     if strcmp (species a) name = 0 then
       Some (True, s\<lparr>animals := (animals s)(p \<mapsto> a\<lparr>acount := acount a + 1\<rparr>)\<rparr>)
     else if strcmp (species a) name > 0 then do {
       (q, s) \<leftarrow> new_animal K name s;
       if p = animal_list then None
       else Some (True, s\<lparr>order := add_tail K q (Some p) (order s)\<rparr>)
     }
     else insert_scan K name ps s
   }"

definition insert_seed :: "list_ops \<Rightarrow> string \<Rightarrow> lstate \<Rightarrow> lstate option" where
  "insert_seed K name s = do {
     (flag, s) \<leftarrow> insert_scan K name (order s) s;
     if flag then Some s
     else do {
       (q, s) \<leftarrow> new_animal K name s;
       Some (s\<lparr>order := add_tail K q None (order s)\<rparr>)
     }
   }"

fun insert_seeds :: "list_ops \<Rightarrow> string list \<Rightarrow> lstate \<Rightarrow> lstate option" where
  "insert_seeds K [] s = Some s"
| "insert_seeds K (name # names) s = do {
     s \<leftarrow> insert_seed K name s;
     insert_seeds K names s
   }"

subsection \<open>Listings\<close>

text \<open>
  One \<^verbatim>\<open>list_for_each_entry\<close> that prints every entry the condition selects, counting nodes
  and bytes (\<open>sz\<close> is \<^verbatim>\<open>sizeof(struct animal)\<close>); \<open>brk\<close> says whether it breaks at the first.
  The condition may itself be undefined (a NULL filter string).
\<close>

fun list_where :: "u32 \<Rightarrow> bool \<Rightarrow> (animal \<Rightarrow> bool option) \<Rightarrow> nat list \<Rightarrow> lstate
    \<Rightarrow> u32 \<Rightarrow> u32 \<Rightarrow> (lstate \<times> u32 \<times> u32) option" where
  "list_where sz brk c [] s nodes mem = Some (s, nodes, mem)"
| "list_where sz brk c (p # ps) s nodes mem = do {
     a \<leftarrow> animals s p;
     hit \<leftarrow> c a;
     if hit then do {
       let s = llog_add [LNode (species a) (acount a)] s;
       if brk then Some (s, nodes + 1, mem + sz)
       else list_where sz brk c ps s (nodes + 1) (mem + sz)
     }
     else list_where sz brk c ps s nodes mem
   }"

definition type_is :: "string option \<Rightarrow> animal \<Rightarrow> bool option" where
  "type_is ty a = map_option (\<lambda>t. strcmp (species a) t = 0) ty"

definition count_ge :: "u32 \<Rightarrow> animal \<Rightarrow> bool" where
  "count_ge c a = (c \<le> acount a)"

definition filtered :: "u32 \<Rightarrow> string \<Rightarrow> bool \<Rightarrow> (animal \<Rightarrow> bool option) \<Rightarrow> lstate \<Rightarrow> lstate option" where
  "filtered sz title brk c s = do {
     (s, nodes, mem) \<leftarrow> list_where sz brk c (order s) (llog_add [LMsg title] s) 0 0;
     Some (llog_add [LNum ''\<newline>\<newline>Total no. of nodes: '' nodes, LNum ''\<newline>Size in memory: '' mem] s)
   }"

definition checkFilters :: "u32 \<Rightarrow> string option \<Rightarrow> u32 \<Rightarrow> lstate \<Rightarrow> lstate option" where
  "checkFilters sz ty cnt s = do {
     (s, _, _) \<leftarrow> list_where sz False (\<lambda>a. Some True) (order s) (llog_add [LMsg ''\<newline>\<newline>Without any filter:\<newline>''] s) 0 0;
     s \<leftarrow> filtered sz ''\<newline>\<newline>With the type/species filter:'' True (type_is ty) s;
     s \<leftarrow> filtered sz ''\<newline>\<newline>With the count filter:'' False (\<lambda>a. Some (count_ge cnt a)) s;
     filtered sz ''\<newline>\<newline>With both filters:'' True
       (\<lambda>a. map_option (\<lambda>b. b \<and> count_ge cnt a) (type_is ty a)) s
   }"

definition listInitialize :: "list_ops \<Rightarrow> u32 \<Rightarrow> string option \<Rightarrow> u32 \<Rightarrow> lstate \<Rightarrow> (int \<times> lstate) option" where
  "listInitialize K sz ty cnt s = do {
     let s = llog_add [LMsg ''Initializing the linked list\<newline>''] s;
     s \<leftarrow> insert_seeds K seedArray s;
     s \<leftarrow> filtered sz ''Final Linked List, after removal of duplicate occurrences:'' False (\<lambda>a. Some True) s;
     s \<leftarrow> checkFilters sz ty cnt s;
     Some (0, s)
   }"

subsection \<open>Exit\<close>

text \<open>
  \<^verbatim>\<open>list_for_each_entry\<close> reads \<^verbatim>\<open>ptr->list.next\<close> after the body has run, so each step needs
  the current entry to be live when the body is done.
\<close>

fun free_loop :: "u32 \<Rightarrow> nat list \<Rightarrow> lstate \<Rightarrow> u32 \<Rightarrow> (lstate \<times> u32) option" where
  "free_loop sz [] s mem = Some (s, mem)"
| "free_loop sz (p # ps) s mem = do {
     let s = s\<lparr>animals := (animals s)(p := None)\<rparr>;
     _ \<leftarrow> animals s p;
     free_loop sz ps s (mem + sz)
   }"

definition listExit :: "u32 \<Rightarrow> lstate \<Rightarrow> lstate option" where
  "listExit sz s = do {
     let s = llog_add [LMsg ''Linked List Module Exits\<newline>''] s;
     (s, mem) \<leftarrow> free_loop sz (order s) s 0;
     Some (llog_add [LNum ''\<newline>Amount of memory freed: '' mem] s)
   }"

subsection \<open>String comparison\<close>

lemma strcmp_eq_0: "strcmp xs ys = 0 \<longleftrightarrow> xs = ys"
  by (induction xs ys rule: strcmp.induct) auto

lemma strcmp_gt_0: "0 < strcmp xs ys \<longleftrightarrow> ys < xs"
  by (induction xs ys rule: strcmp.induct) (auto simp: less_char_def not_less order_le_less)

lemma strcmp_lt_0: "strcmp xs ys < 0 \<longleftrightarrow> xs < ys"
  by (metis linorder_less_linear order_less_irrefl strcmp_eq_0 strcmp_gt_0 order_less_asym)

subsection \<open>The abstract list\<close>

text \<open>What the list holds, entry by entry, and the reference insertion into such a list.\<close>

definition entry :: "lstate \<Rightarrow> nat \<Rightarrow> string \<times> u32" where
  "entry s p = (let a = the (animals s p) in (species a, acount a))"

definition contents :: "lstate \<Rightarrow> (string \<times> u32) list" where
  "contents s = map (entry s) (order s)"

fun ins :: "string \<Rightarrow> (string \<times> u32) list \<Rightarrow> (string \<times> u32) list" where
  "ins x [] = [(x, 1)]"
| "ins x ((y, c) # ys) =
     (if y = x then (y, c + 1) # ys else if x < y then (x, 1) # (y, c) # ys else (y, c) # ins x ys)"

definition linv :: "lstate \<Rightarrow> bool" where
  "linv s \<longleftrightarrow> distinct (order s) \<and> dom (animals s) = set (order s) \<and> animal_list \<notin> set (order s)"

lemma ins_append: "(\<forall>e \<in> set xs. fst e < x) \<Longrightarrow> ins x (xs @ ys) = xs @ ins x ys"
  by (induction xs) auto

lemma ins_beyond: "(\<forall>e \<in> set xs. fst e < x) \<Longrightarrow> ins x xs = xs @ [(x, 1)]"
  using ins_append [of xs x "[]"] by simp

lemma set_fst_ins: "fst ` set (ins x xs) = insert x (fst ` set xs)"
  by (induction x xs rule: ins.induct) auto

lemma ins_sorted: "sorted_wrt (<) (map fst xs) \<Longrightarrow> sorted_wrt (<) (map fst (ins x xs))"
  by (induction x xs rule: ins.induct) (auto simp: set_fst_ins dest: order_less_trans)

lemma map_of_ins:
  "sorted_wrt (<) (map fst xs) \<Longrightarrow>
   map_of (ins x xs) = (map_of xs)(x \<mapsto> (case map_of xs x of None \<Rightarrow> 1 | Some c \<Rightarrow> c + 1))"
proof (induction x xs rule: ins.induct)
  case (1 x)
  then show ?case by simp
next
  case (2 x y c ys)
  show ?case
  proof (cases "x < y")
    case True
    have "map_of ys x = None"
      using True 2(2) by (force simp: map_of_eq_None_iff)
    then show ?thesis using True by (auto simp: fun_eq_iff)
  next
    case False
    then show ?thesis using 2 by (auto simp: fun_eq_iff)
  qed
qed

lemma ins_fold_sorted:
  "sorted_wrt (<) (map fst l) \<Longrightarrow> sorted_wrt (<) (map fst (fold ins xs l))"
  by (induction xs arbitrary: l) (auto simp: ins_sorted)

lemma map_of_ins_fold:
  "sorted_wrt (<) (map fst l) \<Longrightarrow>
   map_of (fold ins xs l) x =
     (if x \<in> set xs then Some ((case map_of l x of None \<Rightarrow> 0 | Some c \<Rightarrow> c) + of_nat (count_list xs x))
      else map_of l x)"
proof (induction xs arbitrary: l)
  case Nil
  then show ?case by simp
next
  case (Cons y xs)
  have "map_of (fold ins xs (ins y l)) x = (if x \<in> set xs
      then Some ((case map_of (ins y l) x of None \<Rightarrow> 0 | Some c \<Rightarrow> c) + of_nat (count_list xs x))
      else map_of (ins y l) x)"
    by (rule Cons.IH) (simp add: Cons.prems ins_sorted)
  then show ?case using Cons.prems
    by (auto simp: map_of_ins count_list_0_iff split: option.splits)
qed

subsection \<open>The kernel interface\<close>

locale list_kernel =
  fixes K :: list_ops
  assumes alloc_fresh: "alloc K xs = Some q \<Longrightarrow> q \<notin> set xs \<and> q \<noteq> animal_list"
    and add_tail_before: "p \<notin> set xs \<Longrightarrow> add_tail K q (Some p) (xs @ p # ys) = xs @ q # p # ys"
    and add_tail_head: "add_tail K q None xs = xs @ [q]"
begin

lemma new_animal_contents:
  assumes "linv s" and "alloc K (order s) = Some q"
  shows "new_animal K x s = Some (q, s\<lparr>animals := (animals s)(q \<mapsto> \<lparr>species = x, acount = 1\<rparr>)\<rparr>)"
    and "map (entry (s\<lparr>animals := (animals s)(q \<mapsto> a)\<rparr>)) (order s) = contents s"
    and "q \<notin> set (order s)" and "q \<noteq> animal_list"
  using assms alloc_fresh [OF assms(2)] by (auto simp: new_animal_def contents_def entry_def)

text \<open>What the scan does at the element \<open>p\<close> when everything before it is smaller than \<open>x\<close>.\<close>

lemma contents_at:
  assumes "order s = qs @ p # ps" "\<forall>q \<in> set qs. fst (entry s q) < x" "animals s p = Some a"
  shows "ins x (contents s) = map (entry s) qs @ ins x ((species a, acount a) # map (entry s) ps)"
proof -
  have cont: "contents s = map (entry s) qs @ (species a, acount a) # map (entry s) ps"
    using assms(1,3) by (simp add: contents_def entry_def)
  show ?thesis using assms(2) by (simp only: cont) (rule ins_append, auto)
qed

lemma count_at:
  assumes inv: "linv s" and at: "order s = qs @ p # ps" "\<forall>q \<in> set qs. fst (entry s q) < species a" "animals s p = Some a"
  defines "s' \<equiv> s\<lparr>animals := (animals s)(p \<mapsto> a\<lparr>acount := acount a + 1\<rparr>)\<rparr>"
  shows "linv s' \<and> contents s' = ins (species a) (contents s)"
proof
  have p: "p \<in> set (order s)" "p \<notin> set qs" "p \<notin> set ps" using inv at(1) by (auto simp: linv_def)
  show "linv s'" using inv p by (auto simp: linv_def s'_def)
  show "contents s' = ins (species a) (contents s)"
    using contents_at [OF at] p at(1) by (auto simp: contents_def entry_def s'_def)
qed

lemma insert_before:
  assumes inv: "linv s" and at: "order s = qs @ p # ps" "\<forall>q \<in> set qs. fst (entry s q) < x" "animals s p = Some a"
    and less: "x < species a" and new: "alloc K (order s) = Some n"
  defines "s' \<equiv> s\<lparr>animals := (animals s)(n \<mapsto> \<lparr>species = x, acount = 1\<rparr>), order := qs @ n # p # ps\<rparr>"
  shows "linv s' \<and> contents s' = ins x (contents s) \<and> add_tail K n (Some p) (order s) = qs @ n # p # ps"
proof (intro conjI)
  note na = new_animal_contents [OF inv new]
  have "p \<notin> set qs" using inv at(1) by (auto simp: linv_def)
  then show "add_tail K n (Some p) (order s) = qs @ n # p # ps" using add_tail_before at(1) by simp
  show "linv s'" using inv na(3,4) at(1) by (auto simp: linv_def s'_def)
  show "contents s' = ins x (contents s)"
    using less contents_at [OF at] na(3) at by (auto simp: contents_def entry_def s'_def)
qed

lemma scan_refines:
  assumes inv: "linv s" and al: "alloc K (order s) \<noteq> None"
    and "order s = qs @ ps" and "\<forall>p \<in> set qs. fst (entry s p) < x"
  shows "\<exists>flag s'. insert_scan K x ps s = Some (flag, s') \<and>
    (if flag then linv s' \<and> contents s' = ins x (contents s)
     else s' = s \<and> (\<forall>p \<in> set (order s). fst (entry s p) < x))"
  using assms(3,4)
proof (induction ps arbitrary: qs)
  case Nil
  then show ?case by (intro exI [of _ False] exI [of _ s]) simp
next
  case (Cons p ps)
  then have p: "p \<in> set (order s)" by simp
  then have "p \<in> dom (animals s)" using inv by (simp add: linv_def)
  then obtain a where a: "animals s p = Some a" by blast
  consider "species a = x" | "x < species a" | "species a < x" by (rule linorder_cases) auto
  then show ?case
  proof cases
    case 1
    then show ?thesis using count_at [OF inv Cons.prems(1) _ a] Cons.prems(2) a by (auto simp: strcmp_eq_0)
  next
    case 2
    obtain q where q: "alloc K (order s) = Some q" using al by auto
    note new = insert_before [OF inv Cons.prems a 2 q]
    moreover have "p \<noteq> animal_list" using inv p by (auto simp: linv_def)
    moreover have "\<not> strcmp (species a) x = 0" "0 < strcmp (species a) x"
      using 2 by (auto simp: strcmp_eq_0 strcmp_gt_0)
    ultimately show ?thesis using a new_animal_contents(1) [OF inv q] by (intro exI [of _ True]) simp
  next
    case 3
    have "\<exists>flag s'. insert_scan K x ps s = Some (flag, s') \<and>
      (if flag then linv s' \<and> contents s' = ins x (contents s)
       else s' = s \<and> (\<forall>p \<in> set (order s). fst (entry s p) < x))"
      using Cons.prems 3 a by (intro Cons.IH [of "qs @ [p]"]) (auto simp: entry_def)
    moreover have "\<not> strcmp (species a) x = 0" "\<not> 0 < strcmp (species a) x"
      using 3 by (auto simp: strcmp_eq_0 strcmp_gt_0)
    ultimately show ?thesis using a by simp
  qed
qed

lemma insert_seed_refines:
  assumes "linv s" and "alloc K (order s) \<noteq> None"
  shows "\<exists>s'. insert_seed K x s = Some s' \<and> linv s' \<and> contents s' = ins x (contents s)"
proof -
  obtain flag s' where sc: "insert_scan K x (order s) s = Some (flag, s')"
    and fl: "if flag then linv s' \<and> contents s' = ins x (contents s)
     else s' = s \<and> (\<forall>p \<in> set (order s). fst (entry s p) < x)"
    using scan_refines [OF assms, of "[]" "order s" x] by auto
  show ?thesis
  proof (cases flag)
    case True
    then show ?thesis using sc fl by (simp add: insert_seed_def)
  next
    case False
    obtain q where q: "alloc K (order s) = Some q" using assms(2) by auto
    note na = new_animal_contents [OF assms(1) q]
    let ?s = "s\<lparr>animals := (animals s)(q \<mapsto> \<lparr>species = x, acount = 1\<rparr>), order := order s @ [q]\<rparr>"
    have "contents s @ [(x, 1)] = ins x (contents s)"
      using False fl by (intro ins_beyond [symmetric]) (auto simp: contents_def)
    moreover have "map (entry ?s) (order s) = contents s"
      using na(3) by (auto simp: contents_def entry_def)
    moreover have "contents ?s = map (entry ?s) (order s) @ [entry ?s q]" "entry ?s q = (x, 1)"
      by (simp_all add: contents_def entry_def)
    ultimately have "contents ?s = ins x (contents s)" by simp
    moreover have "linv ?s" using assms(1) na(3,4) by (auto simp: linv_def)
    ultimately show ?thesis
      using False sc fl na(1) by (simp add: insert_seed_def add_tail_head)
  qed
qed

lemma insert_seeds_refines:
  assumes "\<And>xs. alloc K xs \<noteq> None" and "linv s"
  shows "\<exists>s'. insert_seeds K names s = Some s' \<and> linv s' \<and> contents s' = fold ins names (contents s)"
  using assms(2)
proof (induction names arbitrary: s)
  case Nil
  then show ?case by simp
next
  case (Cons x names)
  obtain s1 where "insert_seed K x s = Some s1" "linv s1" "contents s1 = ins x (contents s)"
    using insert_seed_refines [OF Cons.prems assms(1)] by auto
  then show ?case using Cons.IH [of s1] by simp
qed

end

text \<open>
  A list kernel over sequences of addresses: the next address above all live ones, and
  insertion at the place the second argument names.
\<close>

definition seq_ops :: list_ops where
  "seq_ops = \<lparr>
     alloc = (\<lambda>xs. Some (Suc (fold max xs 0))),
     add_tail = (\<lambda>q pos xs. case pos of None \<Rightarrow> xs @ [q]
       | Some p \<Rightarrow> takeWhile (\<lambda>y. y \<noteq> p) xs @ q # dropWhile (\<lambda>y. y \<noteq> p) xs)\<rparr>"

lemma fold_max_ge: "x \<in> set xs \<or> x \<le> n \<Longrightarrow> x \<le> fold max xs (n :: nat)"
  by (induction xs arbitrary: n) (auto simp: le_max_iff_disj)

interpretation seq: list_kernel seq_ops
proof (unfold_locales, goal_cases)
  case (1 xs q)
  then show ?case using fold_max_ge [of q xs 0] by (auto simp: seq_ops_def animal_list_def)
next
  case (2 p xs q ys)
  have "takeWhile (\<lambda>y. y \<noteq> p) (xs @ p # ys) = xs" "dropWhile (\<lambda>y. y \<noteq> p) (xs @ p # ys) = p # ys"
    using 2 by (auto simp: takeWhile_append dropWhile_append)
  then show ?case by (simp add: seq_ops_def)
next
  case (3 q xs)
  then show ?case by (simp add: seq_ops_def)
qed

subsection \<open>The listings\<close>

definition objs :: "lstate \<Rightarrow> nat list \<Rightarrow> animal list" where
  "objs s ps = map (\<lambda>p. the (animals s p)) ps"

abbreviation node :: "animal \<Rightarrow> llog" where
  "node a \<equiv> LNode (species a) (acount a)"

lemma llog_add_simps [simp]:
  "animals (llog_add es s) = animals s" "order (llog_add es s) = order s"
  "llogs (llog_add es s) = llogs s @ es" "objs (llog_add es s) ps = objs s ps"
  "llog_add fs (llog_add es s) = llog_add (es @ fs) s" "linv (llog_add es s) = linv s"
  "contents (llog_add es s) = contents s"
  by (simp_all add: llog_add_def objs_def linv_def contents_def entry_def)

lemma llog_add_Nil [simp]: "llog_add [] s = s"
  by (simp add: llog_add_def)

lemma list_where_hits:
  assumes "set ps \<subseteq> dom (animals s)" and "\<And>a. c a = Some (P a)"
  shows "list_where sz brk c ps s n m =
    (let hs = (if brk then take 1 else (\<lambda>x. x)) (filter P (objs s ps)) in
     Some (llog_add (map node hs) s, n + of_nat (length hs), m + of_nat (length hs) * sz))"
  using assms(1)
proof (induction ps arbitrary: s n m)
  case Nil
  then show ?case by (simp add: objs_def)
next
  case (Cons p ps)
  then obtain a where a: "animals s p = Some a" by auto
  have sub: "set ps \<subseteq> dom (animals (llog_add [node a] s))" "set ps \<subseteq> dom (animals s)"
    using Cons.prems by auto
  have "objs s (p # ps) = a # objs s ps" using a by (simp add: objs_def)
  then show ?case
    using a Cons.IH [OF sub(1)] Cons.IH [OF sub(2)] assms(2)
    by (auto simp: Let_def algebra_simps)
qed

text \<open>What one filtered listing prints for the entries \<open>hs\<close> it selects.\<close>

definition report :: "u32 \<Rightarrow> string \<Rightarrow> animal list \<Rightarrow> llog list" where
  "report sz title hs = LMsg title # map node hs @
     [LNum ''\<newline>\<newline>Total no. of nodes: '' (of_nat (length hs)),
      LNum ''\<newline>Size in memory: '' (of_nat (length hs) * sz)]"

lemma filtered_hits:
  assumes "linv s" and "\<And>a. c a = Some (P a)"
  shows "filtered sz title brk c s = Some (llog_add
    (report sz title ((if brk then take 1 else (\<lambda>x. x)) (filter P (objs s (order s))))) s)"
proof -
  have "set (order s) \<subseteq> dom (animals (llog_add [LMsg title] s))"
    using assms(1) by (auto simp: linv_def)
  from list_where_hits [OF this assms(2)] show ?thesis
    by (simp add: filtered_def report_def Let_def)
qed

lemma checkFilters_report:
  assumes "linv s"
  shows "checkFilters sz (Some t) cnt s = (let as = objs s (order s) in Some (llog_add
    (LMsg ''\<newline>\<newline>Without any filter:\<newline>'' # map node as @
     report sz ''\<newline>\<newline>With the type/species filter:'' (take 1 (filter (\<lambda>a. species a = t) as)) @
     report sz ''\<newline>\<newline>With the count filter:'' (filter (\<lambda>a. cnt \<le> acount a) as) @
     report sz ''\<newline>\<newline>With both filters:'' (take 1 (filter (\<lambda>a. species a = t \<and> cnt \<le> acount a) as))) s))"
proof -
  have "set (order s) \<subseteq> dom (animals (llog_add [LMsg ''\<newline>\<newline>Without any filter:\<newline>''] s))"
    using assms by (auto simp: linv_def)
  note lw = list_where_hits [OF this, of "\<lambda>a. Some True" "\<lambda>a. True"]
  have ty: "type_is (Some t) a = Some (species a = t)" for a
    by (simp add: type_is_def strcmp_eq_0)
  have f1: "filtered sz title True (type_is (Some t)) s' = Some (llog_add
      (report sz title (take 1 (filter (\<lambda>a. species a = t) (objs s' (order s'))))) s')"
    and f2: "filtered sz title False (\<lambda>a. Some (count_ge cnt a)) s' = Some (llog_add
      (report sz title (filter (\<lambda>a. cnt \<le> acount a) (objs s' (order s')))) s')"
    and f3: "filtered sz title True (\<lambda>a. map_option (\<lambda>b. b \<and> count_ge cnt a) (type_is (Some t) a)) s' =
      Some (llog_add (report sz title
        (take 1 (filter (\<lambda>a. species a = t \<and> cnt \<le> acount a) (objs s' (order s'))))) s')"
    if "linv s'" for s' title
    using filtered_hits [OF that, of "type_is (Some t)" "\<lambda>a. species a = t" sz title True]
      filtered_hits [OF that refl, of sz title False "count_ge cnt"]
      filtered_hits [OF that, of "\<lambda>a. map_option (\<lambda>b. b \<and> count_ge cnt a) (type_is (Some t) a)"
        "\<lambda>a. species a = t \<and> count_ge cnt a" sz title True]
    by (simp_all add: ty count_ge_def [abs_def])
  show ?thesis
    using assms by (simp add: checkFilters_def lw f1 f2 f3 Let_def)
qed

subsection \<open>Properties\<close>

definition empty_list :: lstate where
  "empty_list = \<lparr>animals = Map.empty, order = [], llogs = []\<rparr>"

lemma linv_empty [simp]: "linv empty_list" "contents empty_list = []"
  by (simp_all add: empty_list_def linv_def contents_def)

text \<open>
  C34: as long as allocation succeeds, inserting any sequence of names into the empty list
  never dereferences a dead pointer and never takes the branch that overwrites the head; the
  list ends up in strictly increasing order of species, holds exactly the names inserted, and
  the count of each is the number of its occurrences.
\<close>

theorem insert_seeds_sorted_counts:
  assumes "list_kernel K" and "\<And>xs. alloc K xs \<noteq> None"
  shows "\<exists>s. insert_seeds K names empty_list = Some s \<and> linv s \<and>
    sorted_wrt (<) (map fst (contents s)) \<and> fst ` set (contents s) = set names \<and>
    map_of (contents s) x = (if x \<in> set names then Some (of_nat (count_list names x)) else None)"
proof -
  obtain s where s: "insert_seeds K names empty_list = Some s" "linv s" "contents s = fold ins names []"
    using list_kernel.insert_seeds_refines [OF assms linv_empty(1), of names] by auto
  have m: "map_of (contents s) y = (if y \<in> set names then Some (of_nat (count_list names y)) else None)" for y
    using map_of_ins_fold [of "[]" names y] s(3) by simp
  have "fst ` set (contents s) = dom (map_of (contents s))" by (simp add: dom_map_of_conv_image_fst)
  also have "\<dots> = set names" by (auto simp: m dom_def)
  finally show ?thesis using s m ins_fold_sorted [of "[]" names] by simp
qed

theorem insert_seeds_sorted_counts_witness:
  "\<exists>s. insert_seeds seq_ops [''dog'', ''cat'', ''dog''] empty_list = Some s \<and> linv s \<and>
    sorted_wrt (<) (map fst (contents s)) \<and> fst ` set (contents s) = {''cat'', ''dog''} \<and>
    map_of (contents s) ''dog'' = Some 2"
proof -
  have "alloc seq_ops xs \<noteq> None" for xs by (simp add: seq_ops_def)
  note t = insert_seeds_sorted_counts [OF seq.list_kernel_axioms this,
      of "[''dog'', ''cat'', ''dog'']" "''dog''"]
  have "set [''dog'', ''cat'', ''dog''] = {''cat'', ''dog''}" by auto
  with t show ?thesis by simp
qed

text \<open>
  loading the module with a species filter returns 0 and leaves the thirteen species of
  the seed array in alphabetical order with their numbers of occurrences (50 in all).
\<close>

theorem listInitialize_result:
  assumes "list_kernel K" and "\<And>xs. alloc K xs \<noteq> None"
  shows "\<exists>s. listInitialize K sz (Some t) cnt empty_list = Some (0, s) \<and> linv s \<and>
    contents s = [(''boar'', 4), (''cat'', 5), (''chicken'', 4), (''cow'', 6), (''crow'', 4), (''dog'', 6),
      (''eagle'', 4), (''fox'', 1), (''giraffe'', 3), (''lion'', 5), (''pigeon'', 1), (''rat'', 4), (''tiger'', 3)]"
proof -
  let ?s0 = "llog_add [LMsg ''Initializing the linked list\<newline>''] empty_list"
  obtain s where s: "insert_seeds K seedArray ?s0 = Some s" "linv s" "contents s = fold ins seedArray []"
    using list_kernel.insert_seeds_refines [OF assms, of ?s0 seedArray] by auto
  have "fold ins seedArray [] = [(''boar'', 4), (''cat'', 5), (''chicken'', 4), (''cow'', 6), (''crow'', 4), (''dog'', 6),
      (''eagle'', 4), (''fox'', 1), (''giraffe'', 3), (''lion'', 5), (''pigeon'', 1), (''rat'', 4), (''tiger'', 3)]"
    by code_simp
  moreover obtain es where
    "filtered sz ''Final Linked List, after removal of duplicate occurrences:'' False (\<lambda>a. Some True) s
       = Some (llog_add es s)"
    using filtered_hits [OF s(2) refl, of sz _ False "\<lambda>_. True"] by auto
  moreover obtain fs where "checkFilters sz (Some t) cnt (llog_add es s) = Some (llog_add fs (llog_add es s))"
    using checkFilters_report [of "llog_add es s" sz t cnt] s(2) by (auto simp: Let_def)
  ultimately show ?thesis using s by (simp add: listInitialize_def)
qed

theorem listInitialize_result_witness:
  "\<exists>s. listInitialize seq_ops 16 (Some ''dog'') 5 empty_list = Some (0, s) \<and>
    map fst (contents s) = [''boar'', ''cat'', ''chicken'', ''cow'', ''crow'', ''dog'', ''eagle'', ''fox'',
      ''giraffe'', ''lion'', ''pigeon'', ''rat'', ''tiger'']"
proof -
  have "alloc seq_ops xs \<noteq> None" for xs by (simp add: seq_ops_def)
  from listInitialize_result [OF seq.list_kernel_axioms this, of 16 "''dog''" 5]
  show ?thesis by force
qed

text \<open>
  the listings print the whole list, then the first entry of the requested species, then
  every entry whose count reaches the threshold, then the first entry that satisfies both,
  each filtered listing followed by the number of entries it printed and that number times
  the size of an entry (modulo \<open>2 ^ 32\<close>); the list itself is left as it was.
\<close>

theorem checkFilters_listing:
  assumes "linv s"
  shows "\<exists>s'. checkFilters sz (Some t) cnt s = Some s' \<and> animals s' = animals s \<and> order s' = order s \<and>
    llogs s' = llogs s @ LMsg ''\<newline>\<newline>Without any filter:\<newline>'' # map node (objs s (order s)) @
     report sz ''\<newline>\<newline>With the type/species filter:''
       (take 1 (filter (\<lambda>a. species a = t) (objs s (order s)))) @
     report sz ''\<newline>\<newline>With the count filter:'' (filter (\<lambda>a. cnt \<le> acount a) (objs s (order s))) @
     report sz ''\<newline>\<newline>With both filters:''
       (take 1 (filter (\<lambda>a. species a = t \<and> cnt \<le> acount a) (objs s (order s))))"
  using checkFilters_report [OF assms, of sz t cnt] by (simp add: Let_def)

theorem checkFilters_listing_witness:
  "\<exists>s'. checkFilters 16 (Some ''dog'') 2
      \<lparr>animals = [7 \<mapsto> \<lparr>species = ''cat'', acount = 3\<rparr>, 5 \<mapsto> \<lparr>species = ''dog'', acount = 1\<rparr>],
       order = [7, 5], llogs = []\<rparr> = Some s' \<and>
     llogs s' = [LMsg ''\<newline>\<newline>Without any filter:\<newline>'', LNode ''cat'' 3, LNode ''dog'' 1] @
       report 16 ''\<newline>\<newline>With the type/species filter:'' [\<lparr>species = ''dog'', acount = 1\<rparr>] @
       report 16 ''\<newline>\<newline>With the count filter:'' [\<lparr>species = ''cat'', acount = 3\<rparr>] @
       report 16 ''\<newline>\<newline>With both filters:'' []"
proof -
  let ?s = "\<lparr>animals = [7 \<mapsto> \<lparr>species = ''cat'', acount = 3\<rparr>, 5 \<mapsto> \<lparr>species = ''dog'', acount = 1\<rparr>],
       order = [7, 5], llogs = []\<rparr>"
  have "linv ?s" by (auto simp: linv_def animal_list_def)
  from checkFilters_listing [OF this, of 16 "''dog''" 2] show ?thesis
    by (auto simp: objs_def word_le_nat_alt)
qed

text \<open>
  without the \<^verbatim>\<open>type\<close> parameter (a NULL string) loading the module dereferences the NULL
  pointer in the first filtered listing, whatever the allocator does.
\<close>

theorem listInitialize_null_type:
  assumes "list_kernel K" and "\<And>xs. alloc K xs \<noteq> None"
  shows "listInitialize K sz None cnt empty_list = None"
proof -
  let ?s0 = "llog_add [LMsg ''Initializing the linked list\<newline>''] empty_list"
  obtain s where s: "insert_seeds K seedArray ?s0 = Some s" "linv s" "contents s = fold ins seedArray []"
    using list_kernel.insert_seeds_refines [OF assms, of ?s0 seedArray] by auto
  have ne: "order s \<noteq> []"
  proof
    assume "order s = []"
    then have "map_of (fold ins seedArray []) ''fox'' = None" using s(3) by (simp add: contents_def)
    then show False using map_of_ins_fold [of "[]" seedArray "''fox''"] by (simp add: seedArray_def)
  qed
  have lw: "list_where sz b (type_is None) (order s') s' n m = None" if "order s' = order s" for s' b n m
    using ne that by (cases "order s") (simp_all add: type_is_def split: Option.bind_splits)
  obtain es where es:
    "filtered sz ''Final Linked List, after removal of duplicate occurrences:'' False (\<lambda>a. Some True) s
       = Some (llog_add es s)"
    using filtered_hits [OF s(2) refl, of sz _ False "\<lambda>_. True"] by auto
  have "checkFilters sz None cnt (llog_add es s) = None"
    using lw s(2) list_where_hits [of "order s" _ "\<lambda>a. Some True" "\<lambda>a. True" sz False]
    by (auto simp: checkFilters_def filtered_def linv_def Let_def split: Option.bind_splits)
  then show ?thesis using s es by (simp add: listInitialize_def)
qed

theorem listInitialize_null_type_witness: "listInitialize seq_ops 16 None 0 empty_list = None"
proof -
  have "alloc seq_ops xs \<noteq> None" for xs by (simp add: seq_ops_def)
  from listInitialize_null_type [OF seq.list_kernel_axioms this, of 16 0] show ?thesis .
qed

text \<open>
  unloading the module with a non-empty list has undefined behaviour: the loop frees an
  entry and then follows the freed entry's link.
\<close>

theorem listExit_use_after_free:
  assumes "order s \<noteq> []"
  shows "listExit sz s = None"
  using assms by (cases "order s") (simp_all add: listExit_def Let_def)

theorem listExit_use_after_free_witness:
  "listExit 16 \<lparr>animals = [7 \<mapsto> \<lparr>species = ''cat'', acount = 3\<rparr>], order = [7], llogs = []\<rparr> = None"
  by (rule listExit_use_after_free) simp

end
