(* ===== verification/TimerModule.thy ===== *)
theory TimerModule
  imports Prelude
begin

text \<open>
  The kernel-timer module (\<^verbatim>\<open>src/HW3/Ques3/timermodule.c\<close>): a timer whose callback prints
  the user name and an iteration number ten times, re-arming itself each time, and then stops.

  The state is the module's timer (its expiry while it is armed), the callback's static
  counter, the kernel's clock and the log. \<^verbatim>\<open>jiffies\<close> is an unsigned 32-bit counter and wraps.
  The conversion \<^verbatim>\<open>msecs_to_jiffies\<close> is a parameter. A step of the module is the expiry of
  the armed timer; the clock then stands at the expiry time.
\<close>

datatype tlog = TName string | TIter int | TMsg string | TFlush

record tmod =
  my_timer :: "u32 option"
  jiffies :: u32
  cb_count :: int
  tlogs :: "tlog list"

definition MAX_ITERATIONS :: int where
  "MAX_ITERATIONS = 10"

definition tprint :: "tlog \<Rightarrow> tmod \<Rightarrow> tmod" where
  "tprint e s = s\<lparr>tlogs := tlogs s @ [e]\<rparr>"

text \<open>\<^verbatim>\<open>static void print_iterations (unsigned long data)\<close>\<close>

definition print_iterations :: "(u32 \<Rightarrow> u32) \<Rightarrow> string \<Rightarrow> u32 \<Rightarrow> tmod \<Rightarrow> tmod" where
  "print_iterations msecs_to_jiffies Username period s =
     (if cb_count s < MAX_ITERATIONS then
        let s = tprint (TName Username) s;
            s = s\<lparr>cb_count := cb_count s + 1\<rparr>;
            s = tprint (TIter (cb_count s)) s
        in s\<lparr>my_timer := Some (jiffies s + msecs_to_jiffies period)\<rparr>
      else (tprint TFlush s)\<lparr>my_timer := None\<rparr>)"

definition timer_initialize :: "(u32 \<Rightarrow> u32) \<Rightarrow> u32 \<Rightarrow> tmod \<Rightarrow> int \<times> tmod" where
  "timer_initialize msecs_to_jiffies period s =
     (let s = tprint (TMsg ''Timer Module Init\<newline>'') s
      in (0, s\<lparr>my_timer := Some (jiffies s + msecs_to_jiffies period)\<rparr>))"

text \<open>The exit function only prints: the timer stays as it is.\<close>

definition timer_exit :: "tmod \<Rightarrow> tmod" where
  "timer_exit s = tprint (TMsg ''Timer Module Exit\<newline>'') s"

text \<open>
  The kernel runs the callback when the armed timer expires. Expiry detaches the timer before
  the callback runs, so a callback that does not re-arm it leaves it inactive.
\<close>

inductive expire :: "(u32 \<Rightarrow> u32) \<Rightarrow> string \<Rightarrow> u32 \<Rightarrow> tmod \<Rightarrow> tmod \<Rightarrow> bool"
  for conv :: "u32 \<Rightarrow> u32" and user :: string and period :: u32 where
  fire: "my_timer s = Some t \<Longrightarrow>
    expire conv user period s (print_iterations conv user period (s\<lparr>my_timer := None, jiffies := t\<rparr>))"

inductive_simps expire_iff: "expire conv user period s t"

inductive runs :: "(u32 \<Rightarrow> u32) \<Rightarrow> string \<Rightarrow> u32 \<Rightarrow> nat \<Rightarrow> tmod \<Rightarrow> tmod \<Rightarrow> bool"
  for conv :: "u32 \<Rightarrow> u32" and user :: string and period :: u32 where
  start: "runs conv user period 0 s s"
| step: "runs conv user period n s t \<Longrightarrow> expire conv user period t u \<Longrightarrow>
    runs conv user period (Suc n) s u"

definition loaded :: "(u32 \<Rightarrow> u32) \<Rightarrow> u32 \<Rightarrow> u32 \<Rightarrow> tmod" where
  "loaded conv period now = snd (timer_initialize conv period
     \<lparr>my_timer = None, jiffies = now, cb_count = 0, tlogs = []\<rparr>)"

text \<open>The state after \<open>n \<le> 10\<close> expiries.\<close>

definition after :: "(u32 \<Rightarrow> u32) \<Rightarrow> string \<Rightarrow> u32 \<Rightarrow> u32 \<Rightarrow> nat \<Rightarrow> tmod" where
  "after conv user period now n =
     \<lparr>my_timer = Some (now + of_nat (Suc n) * conv period), jiffies = now + of_nat n * conv period,
      cb_count = int n,
      tlogs = TMsg ''Timer Module Init\<newline>'' # concat (map (\<lambda>i. [TName user, TIter (int i)]) [1..<Suc n])\<rparr>"

lemma loaded_after: "loaded conv period now = after conv user period now 0"
  by (simp add: loaded_def after_def timer_initialize_def tprint_def)

lemma expire_after:
  assumes "n < 10"
  shows "expire conv user period (after conv user period now n) s
    \<longleftrightarrow> s = after conv user period now (Suc n)"
  using assms
  by (auto simp: expire_iff after_def print_iterations_def tprint_def MAX_ITERATIONS_def algebra_simps)

lemma runs_after:
  "runs conv user period n (loaded conv period now) s \<Longrightarrow> n \<le> 10 \<Longrightarrow>
    s = after conv user period now n"
proof (induction n "loaded conv period now" s rule: runs.induct)
  case start
  show ?case by (rule loaded_after)
next
  case (step n t u)
  then have "t = after conv user period now n" by simp
  then show ?case using step.hyps(3) step.prems expire_after [of n] by auto
qed

lemma runs_after_exists:
  "n \<le> 10 \<Longrightarrow> runs conv user period n (loaded conv period now) (after conv user period now n)"
proof (induction n)
  case 0
  show ?case using runs.start by (simp add: loaded_after [of conv period now user])
next
  case (Suc n)
  then show ?case using expire_after [of n conv user period now] by (auto intro: runs.step)
qed

inductive_cases runs_SucE: "runs conv user period (Suc n) s u"

subsection \<open>Properties\<close>

text \<open>
  a loaded module runs its callback exactly eleven times: after \<open>n \<le> 10\<close> expiries it has
  printed the iterations 1 to \<open>n\<close> in order, one period apart (modulo the wrap of the tick
  counter), and the timer is armed one period ahead; the eleventh expiry prints no iteration,
  flushes the log and leaves the timer inactive, and there is no twelfth.
\<close>

theorem timer_module_run:
  assumes "runs conv user period n (loaded conv period now) s"
  shows "n \<le> 11 \<and>
    (if n \<le> 10 then s = after conv user period now n
     else s = (after conv user period now 10)\<lparr>my_timer := None,
       jiffies := now + of_nat 11 * conv period,
       tlogs := tlogs (after conv user period now 10) @ [TFlush]\<rparr>)"
proof -
  let ?fin = "(after conv user period now 10)\<lparr>my_timer := None,
       jiffies := now + of_nat 11 * conv period,
       tlogs := tlogs (after conv user period now 10) @ [TFlush]\<rparr>"
  have e: "u = ?fin" if "runs conv user period 11 (loaded conv period now) u" for u
  proof -
    have "runs conv user period (Suc 10) (loaded conv period now) u" using that by simp
    then obtain t where t: "runs conv user period 10 (loaded conv period now) t" "expire conv user period t u"
      by (rule runs_SucE)
    then have "t = after conv user period now 10" using runs_after by fastforce
    then show ?thesis using t(2)
      by (auto simp: expire_iff after_def print_iterations_def tprint_def MAX_ITERATIONS_def)
  qed
  have no12: "\<not> runs conv user period (Suc m) (loaded conv period now) u" if "11 \<le> m" for m u
    using that
  proof (induction m arbitrary: u rule: dec_induct)
    case base
    show ?case
    proof
      assume "runs conv user period (Suc 11) (loaded conv period now) u"
      then obtain t where "runs conv user period 11 (loaded conv period now) t" "expire conv user period t u"
        by (rule runs_SucE)
      then show False using e [of t] by (auto simp: expire_iff)
    qed
  next
    case (step m)
    then show ?case by (auto elim: runs_SucE)
  qed
  have "n \<le> 11"
  proof (rule ccontr)
    assume "\<not> n \<le> 11"
    then obtain m where "n = Suc m" "11 \<le> m" by (cases n) auto
    then show False using no12 assms by blast
  qed
  moreover have "s = ?fin" if "\<not> n \<le> 10"
  proof -
    have "n = 11" using that \<open>n \<le> 11\<close> by simp
    then show ?thesis using e assms by simp
  qed
  ultimately show ?thesis using runs_after [OF assms] by simp
qed

theorem timer_module_run_witness:
  "\<exists>s. runs (\<lambda>p. p div 10) ''Tak'' 500 3 (loaded (\<lambda>p. p div 10) 500 100) s \<and>
     s = after (\<lambda>p. p div 10) ''Tak'' 500 100 3 \<and> jiffies s = 250 \<and> my_timer s = Some 300"
proof -
  let ?s = "after (\<lambda>p. p div 10) ''Tak'' 500 100 3"
  have r: "runs (\<lambda>p. p div 10) ''Tak'' 500 3 (loaded (\<lambda>p. p div 10) 500 100) ?s"
    by (rule runs_after_exists) simp
  have "?s = after (\<lambda>p. p div 10) ''Tak'' 500 100 3" using timer_module_run [OF r] by simp
  then show ?thesis using r by (auto simp: after_def)
qed

text \<open>
  the exit function does not delete the timer: if the module is unloaded before its
  eleventh expiry, the timer is still armed and its callback, whose code is gone, still runs.
\<close>

theorem timer_exit_leaves_timer_armed:
  assumes "runs conv user period n (loaded conv period now) s" and "n \<le> 10"
  shows "\<exists>u. expire conv user period (timer_exit s) u"
proof -
  have "s = after conv user period now n" using runs_after [OF assms] .
  then show ?thesis by (simp add: expire_iff timer_exit_def tprint_def after_def)
qed

theorem timer_exit_leaves_timer_armed_witness:
  "\<exists>u. expire (\<lambda>p. p) ''Tak'' 500 (timer_exit (loaded (\<lambda>p. p) 500 7)) u"
  by (rule timer_exit_leaves_timer_armed [OF runs.start]) simp

end
