(* ===== verification/Credentials.thy ===== *)
theory Credentials
  imports Prelude
begin

text \<open>
  The system calls of \<^verbatim>\<open>src/HW2/Ques5/sys.c\<close> that change the user and group IDs of the calling
  task: \<^verbatim>\<open>setregid\<close>, \<^verbatim>\<open>setgid\<close>, \<^verbatim>\<open>setreuid\<close>, \<^verbatim>\<open>setuid\<close>, \<^verbatim>\<open>setresuid\<close>, \<^verbatim>\<open>setresgid\<close>, \<^verbatim>\<open>setfsuid\<close>,
  \<^verbatim>\<open>setfsgid\<close>, the helper \<^verbatim>\<open>set_user\<close>, and the calls that read the IDs back.

  The credential, user and namespace code of the kernel is a parameter (record \<open>ckern\<close>, laws
  in the locale \<open>cred_kernel\<close>). A \<^verbatim>\<open>kuid_t\<close> or \<^verbatim>\<open>kgid_t\<close> is the 32-bit value it wraps, so
  \<^verbatim>\<open>uid_eq\<close> is equality; \<open>security\<close> stands for the capability sets and the LSM blob of a
  credential, \<open>kst\<close> for the rest of the kernel (reference counts, user memory). An argument
  of \<^verbatim>\<open>(uid_t) -1\<close> means "leave unchanged".
\<close>

subsection \<open>Data\<close>

record 'c cred =
  uid :: u32
  gid :: u32
  suid :: u32
  sgid :: u32
  euid :: u32
  egid :: u32
  fsuid :: u32
  fsgid :: u32
  user :: nat
  security :: 'c

record ('c, 'k) task =
  tcred :: "'c cred"
  nproc_exceeded :: bool
  kst :: 'k

datatype capability = CAP_SETUID | CAP_SETGID
datatype lsm_flag = LSM_SETID_ID | LSM_SETID_RE | LSM_SETID_RES | LSM_SETID_FS

record ('c, 'k) ckern =
  make_kuid :: "u32 \<Rightarrow> u32"
  make_kgid :: "u32 \<Rightarrow> u32"
  from_kuid_munged :: "u32 \<Rightarrow> u32"
  from_kgid_munged :: "u32 \<Rightarrow> u32"
  uid_valid :: "u32 \<Rightarrow> bool"
  gid_valid :: "u32 \<Rightarrow> bool"
  ns_capable :: "'c cred \<Rightarrow> capability \<Rightarrow> bool"
  prepare_creds :: "('c, 'k) task \<Rightarrow> 'c cred option \<times> ('c, 'k) task"
  commit_creds :: "'c cred \<Rightarrow> ('c, 'k) task \<Rightarrow> int \<times> ('c, 'k) task"
  abort_creds :: "'c cred \<Rightarrow> ('c, 'k) task \<Rightarrow> ('c, 'k) task"
  alloc_uid :: "u32 \<Rightarrow> ('c, 'k) task \<Rightarrow> nat option \<times> ('c, 'k) task"
  free_uid :: "nat \<Rightarrow> ('c, 'k) task \<Rightarrow> ('c, 'k) task"
  processes :: "nat \<Rightarrow> ('c, 'k) task \<Rightarrow> nat"
  rlimit_nproc :: "('c, 'k) task \<Rightarrow> nat"
  INIT_USER :: nat
  security_task_fix_setuid :: "'c cred \<Rightarrow> 'c cred \<Rightarrow> lsm_flag \<Rightarrow> int \<times> 'c cred"
  put_user :: "u32 \<Rightarrow> nat \<Rightarrow> ('c, 'k) task \<Rightarrow> int \<times> ('c, 'k) task"

abbreviation unchanged :: u32 where "unchanged \<equiv> - 1"

text \<open>The common exit \<^verbatim>\<open>error: abort_creds(new); return retval;\<close>\<close>

definition abort_with :: "('c, 'k) ckern \<Rightarrow> 'c cred \<Rightarrow> int \<Rightarrow> ('c, 'k) task \<Rightarrow> int \<times> ('c, 'k) task" where
  "abort_with K new retval t = (retval, abort_creds K new t)"

subsection \<open>Group IDs\<close>

definition setregid :: "('c, 'k) ckern \<Rightarrow> u32 \<Rightarrow> u32 \<Rightarrow> ('c, 'k) task \<Rightarrow> int \<times> ('c, 'k) task" where
  "setregid K rgid_a egid_a t =
     (let krgid = make_kgid K rgid_a; kegid = make_kgid K egid_a in
      if rgid_a \<noteq> unchanged \<and> \<not> gid_valid K krgid then (- EINVAL, t)
      else if egid_a \<noteq> unchanged \<and> \<not> gid_valid K kegid then (- EINVAL, t)
      else case prepare_creds K t of
        (None, t) \<Rightarrow> (- ENOMEM, t)
      | (Some new, t) \<Rightarrow>
          let old = tcred t in
          if rgid_a \<noteq> unchanged \<and>
             \<not> (gid old = krgid \<or> egid old = krgid \<or> ns_capable K old CAP_SETGID)
          then abort_with K new (- EPERM) t
          else let new = (if rgid_a \<noteq> unchanged then new\<lparr>gid := krgid\<rparr> else new) in
          if egid_a \<noteq> unchanged \<and>
             \<not> (gid old = kegid \<or> egid old = kegid \<or> sgid old = kegid \<or> ns_capable K old CAP_SETGID)
          then abort_with K new (- EPERM) t
          else let new = (if egid_a \<noteq> unchanged then new\<lparr>egid := kegid\<rparr> else new);
                   new = (if rgid_a \<noteq> unchanged \<or> (egid_a \<noteq> unchanged \<and> kegid \<noteq> gid old)
                          then new\<lparr>sgid := egid new\<rparr> else new);
                   new = new\<lparr>fsgid := egid new\<rparr>
               in commit_creds K new t)"

definition setgid :: "('c, 'k) ckern \<Rightarrow> u32 \<Rightarrow> ('c, 'k) task \<Rightarrow> int \<times> ('c, 'k) task" where
  "setgid K gid_a t =
     (let kgid = make_kgid K gid_a in
      if \<not> gid_valid K kgid then (- EINVAL, t)
      else case prepare_creds K t of
        (None, t) \<Rightarrow> (- ENOMEM, t)
      | (Some new, t) \<Rightarrow>
          let old = tcred t in
          if ns_capable K old CAP_SETGID then
            commit_creds K (new\<lparr>gid := kgid, egid := kgid, sgid := kgid, fsgid := kgid\<rparr>) t
          else if kgid = gid old \<or> kgid = sgid old then
            commit_creds K (new\<lparr>egid := kgid, fsgid := kgid\<rparr>) t
          else abort_with K new (- EPERM) t)"

subsection \<open>User IDs\<close>

definition set_user :: "('c, 'k) ckern \<Rightarrow> 'c cred \<Rightarrow> ('c, 'k) task \<Rightarrow> int \<times> 'c cred \<times> ('c, 'k) task" where
  "set_user K new t =
     (case alloc_uid K (uid new) t of
        (None, t) \<Rightarrow> (- EAGAIN, new, t)
      | (Some new_user, t) \<Rightarrow>
          let t = t\<lparr>nproc_exceeded :=
                rlimit_nproc K t \<le> processes K new_user t \<and> new_user \<noteq> INIT_USER K\<rparr>;
              t = free_uid K (user new) t
          in (0, new\<lparr>user := new_user\<rparr>, t))"

text \<open>The common tail: the security module may refuse, otherwise the credentials are committed.\<close>

definition fix_and_commit ::
  "('c, 'k) ckern \<Rightarrow> 'c cred \<Rightarrow> 'c cred \<Rightarrow> lsm_flag \<Rightarrow> ('c, 'k) task \<Rightarrow> int \<times> ('c, 'k) task" where
  "fix_and_commit K new old flag t =
     (let (retval, new) = security_task_fix_setuid K new old flag in
      if retval < 0 then abort_with K new retval t else commit_creds K new t)"

definition setreuid :: "('c, 'k) ckern \<Rightarrow> u32 \<Rightarrow> u32 \<Rightarrow> ('c, 'k) task \<Rightarrow> int \<times> ('c, 'k) task" where
  "setreuid K ruid_a euid_a t =
     (let kruid = make_kuid K ruid_a; keuid = make_kuid K euid_a in
      if ruid_a \<noteq> unchanged \<and> \<not> uid_valid K kruid then (- EINVAL, t)
      else if euid_a \<noteq> unchanged \<and> \<not> uid_valid K keuid then (- EINVAL, t)
      else case prepare_creds K t of
        (None, t) \<Rightarrow> (- ENOMEM, t)
      | (Some new, t) \<Rightarrow>
          let old = tcred t;
              new = (if ruid_a \<noteq> unchanged then new\<lparr>uid := kruid\<rparr> else new) in
          if ruid_a \<noteq> unchanged \<and> uid old \<noteq> kruid \<and> euid old \<noteq> kruid \<and> \<not> ns_capable K old CAP_SETUID
          then abort_with K new (- EPERM) t
          else let new = (if euid_a \<noteq> unchanged then new\<lparr>euid := keuid\<rparr> else new) in
          if euid_a \<noteq> unchanged \<and> uid old \<noteq> keuid \<and> euid old \<noteq> keuid \<and> suid old \<noteq> keuid \<and>
             \<not> ns_capable K old CAP_SETUID
          then abort_with K new (- EPERM) t
          else let (retval, new, t) = (if uid new \<noteq> uid old then set_user K new t else (0, new, t)) in
          if retval < 0 then abort_with K new retval t
          else let new = (if ruid_a \<noteq> unchanged \<or> (euid_a \<noteq> unchanged \<and> keuid \<noteq> uid old)
                          then new\<lparr>suid := euid new\<rparr> else new);
                   new = new\<lparr>fsuid := euid new\<rparr>
               in fix_and_commit K new old LSM_SETID_RE t)"

definition setuid :: "('c, 'k) ckern \<Rightarrow> u32 \<Rightarrow> ('c, 'k) task \<Rightarrow> int \<times> ('c, 'k) task" where
  "setuid K uid_a t =
     (let kuid = make_kuid K uid_a in
      if \<not> uid_valid K kuid then (- EINVAL, t)
      else case prepare_creds K t of
        (None, t) \<Rightarrow> (- ENOMEM, t)
      | (Some new, t) \<Rightarrow>
          let old = tcred t in
          if ns_capable K old CAP_SETUID then
            let new = new\<lparr>suid := kuid, uid := kuid\<rparr>;
                (retval, new, t) = (if kuid \<noteq> uid old then set_user K new t else (0, new, t)) in
            if retval < 0 then abort_with K new retval t
            else fix_and_commit K (new\<lparr>fsuid := kuid, euid := kuid\<rparr>) old LSM_SETID_ID t
          else if kuid \<noteq> uid old \<and> kuid \<noteq> suid new then abort_with K new (- EPERM) t
          else fix_and_commit K (new\<lparr>fsuid := kuid, euid := kuid\<rparr>) old LSM_SETID_ID t)"

text \<open>\<^verbatim>\<open>*id != -1\<close> and none of the three old IDs\<close>

definition foreign :: "u32 \<Rightarrow> u32 \<Rightarrow> u32 \<Rightarrow> u32 \<Rightarrow> u32 \<Rightarrow> bool" where
  "foreign arg k a b c \<longleftrightarrow> arg \<noteq> unchanged \<and> k \<noteq> a \<and> k \<noteq> b \<and> k \<noteq> c"

definition setresuid :: "('c, 'k) ckern \<Rightarrow> u32 \<Rightarrow> u32 \<Rightarrow> u32 \<Rightarrow> ('c, 'k) task \<Rightarrow> int \<times> ('c, 'k) task" where
  "setresuid K ruid_a euid_a suid_a t =
     (let kruid = make_kuid K ruid_a; keuid = make_kuid K euid_a; ksuid = make_kuid K suid_a in
      if ruid_a \<noteq> unchanged \<and> \<not> uid_valid K kruid then (- EINVAL, t)
      else if euid_a \<noteq> unchanged \<and> \<not> uid_valid K keuid then (- EINVAL, t)
      else if suid_a \<noteq> unchanged \<and> \<not> uid_valid K ksuid then (- EINVAL, t)
      else case prepare_creds K t of
        (None, t) \<Rightarrow> (- ENOMEM, t)
      | (Some new, t) \<Rightarrow>
          let old = tcred t in
          if \<not> ns_capable K old CAP_SETUID \<and>
             (foreign ruid_a kruid (uid old) (euid old) (suid old) \<or>
              foreign euid_a keuid (uid old) (euid old) (suid old) \<or>
              foreign suid_a ksuid (uid old) (euid old) (suid old))
          then abort_with K new (- EPERM) t
          else let new = (if ruid_a \<noteq> unchanged then new\<lparr>uid := kruid\<rparr> else new);
                   (retval, new, t) = (if ruid_a \<noteq> unchanged \<and> kruid \<noteq> uid old then set_user K new t
                                       else (0, new, t)) in
          if retval < 0 then abort_with K new retval t
          else let new = (if euid_a \<noteq> unchanged then new\<lparr>euid := keuid\<rparr> else new);
                   new = (if suid_a \<noteq> unchanged then new\<lparr>suid := ksuid\<rparr> else new);
                   new = new\<lparr>fsuid := euid new\<rparr>
               in fix_and_commit K new old LSM_SETID_RES t)"

text \<open>
  Three words copied to user addresses one after the other, as \<^verbatim>\<open>getresuid\<close> and \<^verbatim>\<open>getresgid\<close> do.
\<close>

definition put3 :: "('c, 'k) ckern \<Rightarrow> u32 \<Rightarrow> nat \<Rightarrow> u32 \<Rightarrow> nat \<Rightarrow> u32 \<Rightarrow> nat \<Rightarrow> ('c, 'k) task
    \<Rightarrow> int \<times> ('c, 'k) task" where
  "put3 K a p b q c r t =
     (let (retval, t) = put_user K a p t in
      if retval \<noteq> 0 then (retval, t)
      else let (retval, t) = put_user K b q t in
      if retval \<noteq> 0 then (retval, t)
      else put_user K c r t)"

definition getresuid :: "('c, 'k) ckern \<Rightarrow> nat \<Rightarrow> nat \<Rightarrow> nat \<Rightarrow> ('c, 'k) task \<Rightarrow> int \<times> ('c, 'k) task" where
  "getresuid K ruidp euidp suidp t =
     (let c = tcred t in
      put3 K (from_kuid_munged K (uid c)) ruidp (from_kuid_munged K (euid c)) euidp
        (from_kuid_munged K (suid c)) suidp t)"

definition setresgid :: "('c, 'k) ckern \<Rightarrow> u32 \<Rightarrow> u32 \<Rightarrow> u32 \<Rightarrow> ('c, 'k) task \<Rightarrow> int \<times> ('c, 'k) task" where
  "setresgid K rgid_a egid_a sgid_a t =
     (let krgid = make_kgid K rgid_a; kegid = make_kgid K egid_a; ksgid = make_kgid K sgid_a in
      if rgid_a \<noteq> unchanged \<and> \<not> gid_valid K krgid then (- EINVAL, t)
      else if egid_a \<noteq> unchanged \<and> \<not> gid_valid K kegid then (- EINVAL, t)
      else if sgid_a \<noteq> unchanged \<and> \<not> gid_valid K ksgid then (- EINVAL, t)
      else case prepare_creds K t of
        (None, t) \<Rightarrow> (- ENOMEM, t)
      | (Some new, t) \<Rightarrow>
          let old = tcred t in
          if \<not> ns_capable K old CAP_SETGID \<and>
             (foreign rgid_a krgid (gid old) (egid old) (sgid old) \<or>
              foreign egid_a kegid (gid old) (egid old) (sgid old) \<or>
              foreign sgid_a ksgid (gid old) (egid old) (sgid old))
          then abort_with K new (- EPERM) t
          else let new = (if rgid_a \<noteq> unchanged then new\<lparr>gid := krgid\<rparr> else new);
                   new = (if egid_a \<noteq> unchanged then new\<lparr>egid := kegid\<rparr> else new);
                   new = (if sgid_a \<noteq> unchanged then new\<lparr>sgid := ksgid\<rparr> else new);
                   new = new\<lparr>fsgid := egid new\<rparr>
               in commit_creds K new t)"

definition getresgid :: "('c, 'k) ckern \<Rightarrow> nat \<Rightarrow> nat \<Rightarrow> nat \<Rightarrow> ('c, 'k) task \<Rightarrow> int \<times> ('c, 'k) task" where
  "getresgid K rgidp egidp sgidp t =
     (let c = tcred t in
      put3 K (from_kgid_munged K (gid c)) rgidp (from_kgid_munged K (egid c)) egidp
        (from_kgid_munged K (sgid c)) sgidp t)"

subsection \<open>File system IDs\<close>

definition setfsuid :: "('c, 'k) ckern \<Rightarrow> u32 \<Rightarrow> ('c, 'k) task \<Rightarrow> int \<times> ('c, 'k) task" where
  "setfsuid K uid_a t =
     (let old = tcred t;
          old_fsuid = uint (from_kuid_munged K (fsuid old));
          kuid = make_kuid K uid_a in
      if \<not> uid_valid K kuid then (old_fsuid, t)
      else case prepare_creds K t of
        (None, t) \<Rightarrow> (old_fsuid, t)
      | (Some new, t) \<Rightarrow>
          if (kuid = uid old \<or> kuid = euid old \<or> kuid = suid old \<or> kuid = fsuid old \<or>
              ns_capable K old CAP_SETUID) \<and> kuid \<noteq> fsuid old
          then let (retval, new) = security_task_fix_setuid K (new\<lparr>fsuid := kuid\<rparr>) old LSM_SETID_FS in
               if retval = 0 then (old_fsuid, snd (commit_creds K new t))
               else (old_fsuid, abort_creds K new t)
          else (old_fsuid, abort_creds K new t))"

definition setfsgid :: "('c, 'k) ckern \<Rightarrow> u32 \<Rightarrow> ('c, 'k) task \<Rightarrow> int \<times> ('c, 'k) task" where
  "setfsgid K gid_a t =
     (let old = tcred t;
          old_fsgid = uint (from_kgid_munged K (fsgid old));
          kgid = make_kgid K gid_a in
      if \<not> gid_valid K kgid then (old_fsgid, t)
      else case prepare_creds K t of
        (None, t) \<Rightarrow> (old_fsgid, t)
      | (Some new, t) \<Rightarrow>
          if (kgid = gid old \<or> kgid = egid old \<or> kgid = sgid old \<or> kgid = fsgid old \<or>
              ns_capable K old CAP_SETGID) \<and> kgid \<noteq> fsgid old
          then (old_fsgid, snd (commit_creds K (new\<lparr>fsgid := kgid\<rparr>) t))
          else (old_fsgid, abort_creds K new t))"

definition getuid :: "('c, 'k) ckern \<Rightarrow> ('c, 'k) task \<Rightarrow> u32" where
  "getuid K t = from_kuid_munged K (uid (tcred t))"

definition geteuid :: "('c, 'k) ckern \<Rightarrow> ('c, 'k) task \<Rightarrow> u32" where
  "geteuid K t = from_kuid_munged K (euid (tcred t))"

definition getgid :: "('c, 'k) ckern \<Rightarrow> ('c, 'k) task \<Rightarrow> u32" where
  "getgid K t = from_kgid_munged K (gid (tcred t))"

definition getegid :: "('c, 'k) ckern \<Rightarrow> ('c, 'k) task \<Rightarrow> u32" where
  "getegid K t = from_kgid_munged K (egid (tcred t))"

end
