(* ===== verification/CredSafety.thy ===== *)
theory CredSafety
  imports Credentials
begin

text \<open>
  Safety of the credential system calls over any kernel that satisfies the documented laws
  of the credential functions: the outcome of every call, confinement of the IDs of an
  unprivileged task over arbitrary call sequences, permanence of a privileged \<^verbatim>\<open>setuid\<close>, and
  balance of prepared credentials.
\<close>

subsection \<open>The kernel interface\<close>

text \<open>The eight IDs of a credential, in the order uid, euid, suid, fsuid, gid, egid, sgid, fsgid.\<close>

definition ids :: "'c cred \<Rightarrow> u32 list" where
  "ids c = [uid c, euid c, suid c, fsuid c, gid c, egid c, sgid c, fsgid c]"

locale cred_kernel =
  fixes K :: "('c, 'k) ckern"
  assumes prepare_copies: "prepare_creds K t = (Some n, t') \<Longrightarrow> n = tcred t"
    and prepare_keeps: "prepare_creds K t = (r, t') \<Longrightarrow> tcred t' = tcred t"
    and alloc_keeps: "alloc_uid K u t = (x, t') \<Longrightarrow> tcred t' = tcred t"
    and free_keeps: "tcred (free_uid K i t) = tcred t"
    and abort_keeps: "tcred (abort_creds K n t) = tcred t"
    and commit_installs: "commit_creds K n t = (e, t') \<Longrightarrow> e = 0 \<and> tcred t' = n"
    and fix_keeps: "security_task_fix_setuid K n old f = (e, n') \<Longrightarrow> ids n' = ids n"

text \<open>How a call ends: refused, with the credentials as they were, or done, with new IDs.\<close>

definition outcome :: "('c, 'k) task \<Rightarrow> int \<times> ('c, 'k) task \<Rightarrow> bool \<Rightarrow> u32 list \<Rightarrow> bool" where
  "outcome t res permitted new \<longleftrightarrow>
     fst res < 0 \<and> tcred (snd res) = tcred t \<or>
     fst res = 0 \<and> permitted \<and> ids (tcred (snd res)) = new"

definition pick :: "u32 \<Rightarrow> u32 \<Rightarrow> u32 \<Rightarrow> u32" where
  "pick arg k old = (if arg \<noteq> unchanged then k else old)"

context cred_kernel
begin

lemma prepare_split:
  obtains t' where "prepare_creds K t = (None, t')" "tcred t' = tcred t"
  | t' where "prepare_creds K t = (Some (tcred t), t')" "tcred t' = tcred t"
proof (cases "prepare_creds K t")
  case (Pair r t')
  then show thesis using that prepare_copies prepare_keeps by (cases r) metis+
qed

lemma set_user_keeps:
  assumes "set_user K n t = (e, n', t')"
  shows "ids n' = ids n \<and> tcred t' = tcred t \<and> (e = 0 \<or> e = - EAGAIN)"
  using assms alloc_keeps [of "uid n" t]
  by (auto simp: set_user_def ids_def Let_def free_keeps split: prod.splits option.splits)

lemma abort_outcome: "e < 0 \<Longrightarrow> tcred u = tcred t \<Longrightarrow> outcome t (abort_with K n e u) ok new"
  by (simp add: outcome_def abort_with_def abort_keeps)

lemma commit_outcome: "ok \<Longrightarrow> ids n = new \<Longrightarrow> outcome t (commit_creds K n u) ok new"
  by (cases "commit_creds K n u") (simp add: outcome_def commit_installs)

lemma fix_outcome:
  assumes "tcred u = tcred t" and "ok" and "ids n = new"
  shows "outcome t (fix_and_commit K n old f u) ok new"
proof (cases "security_task_fix_setuid K n old f")
  case (Pair e n')
  then show ?thesis
    using assms fix_keeps [OF Pair] by (simp add: fix_and_commit_def abort_outcome commit_outcome)
qed

lemma refused_outcome: "e < 0 \<Longrightarrow> tcred u = tcred t \<Longrightarrow> outcome t (e, u) ok new"
  by (simp add: outcome_def)

lemma outcome_if:
  "(b \<Longrightarrow> outcome t x ok new) \<Longrightarrow> (\<not> b \<Longrightarrow> outcome t y ok new) \<Longrightarrow> outcome t (if b then x else y) ok new"
  by simp

lemma set_user_outcome:
  assumes "tcred u = tcred t"
    and "\<And>n' u'. ids n' = ids n \<Longrightarrow> tcred u' = tcred t \<Longrightarrow> outcome t (F n' u') ok new"
  shows "outcome t (case if b then set_user K n u else (0, n, u) of
    (e, n', u') \<Rightarrow> if e < 0 then abort_with K n' e u' else F n' u') ok new"
proof (cases "if b then set_user K n u else (0, n, u)")
  case (fields e n' u')
  then have "ids n' = ids n \<and> tcred u' = tcred t"
    using set_user_keeps [of n u e n' u'] assms(1) by (auto split: if_splits)
  then show ?thesis using assms(2) fields by (simp add: abort_outcome)
qed

lemmas outcome_intros = outcome_if refused_outcome abort_outcome commit_outcome set_user_outcome fix_outcome

lemma setregid_outcome:
  fixes t :: "('c, 'k) task"
  defines "c \<equiv> tcred t"
  shows "outcome t (setregid K r e t)
    (ns_capable K c CAP_SETGID \<or>
      (r \<noteq> unchanged \<longrightarrow> make_kgid K r \<in> {gid c, egid c}) \<and> (e \<noteq> unchanged \<longrightarrow> make_kgid K e \<in> {gid c, egid c, sgid c}))
    [uid c, euid c, suid c, fsuid c, pick r (make_kgid K r) (gid c), pick e (make_kgid K e) (egid c),
     if r \<noteq> unchanged \<or> (e \<noteq> unchanged \<and> make_kgid K e \<noteq> gid c) then pick e (make_kgid K e) (egid c) else sgid c,
     pick e (make_kgid K e) (egid c)]"
proof (cases rule: prepare_split [of t])
  case (1 t')
  then show ?thesis
    unfolding setregid_def Let_def by (intro outcome_intros) (simp_all add: refused_outcome)
next
  case (2 t')
  show ?thesis
    unfolding setregid_def Let_def 2(1) prod.case option.case
    by (intro outcome_intros) (auto simp: 2(2) c_def ids_def pick_def)
qed

lemma setgid_outcome:
  fixes t :: "('c, 'k) task"
  defines "c \<equiv> tcred t"
  shows "outcome t (setgid K g t)
    (ns_capable K c CAP_SETGID \<or> make_kgid K g \<in> {gid c, sgid c})
    (let k = make_kgid K g; all = ns_capable K c CAP_SETGID in
     [uid c, euid c, suid c, fsuid c, if all then k else gid c, k, if all then k else sgid c, k])"
proof (cases rule: prepare_split [of t])
  case (1 t')
  then show ?thesis
    unfolding setgid_def Let_def by (intro outcome_intros) (simp_all add: refused_outcome)
next
  case (2 t')
  show ?thesis
    unfolding setgid_def Let_def 2(1) prod.case option.case
    by (intro outcome_intros) (auto simp: 2(2) c_def ids_def)
qed

lemma setresgid_outcome:
  fixes t :: "('c, 'k) task"
  defines "c \<equiv> tcred t"
  shows "outcome t (setresgid K r e s t)
    (ns_capable K c CAP_SETGID \<or>
      (\<forall>a \<in> {r, e, s}. a \<noteq> unchanged \<longrightarrow> make_kgid K a \<in> {gid c, egid c, sgid c}))
    [uid c, euid c, suid c, fsuid c, pick r (make_kgid K r) (gid c), pick e (make_kgid K e) (egid c),
     pick s (make_kgid K s) (sgid c), pick e (make_kgid K e) (egid c)]"
proof (cases rule: prepare_split [of t])
  case (1 t')
  then show ?thesis
    unfolding setresgid_def Let_def by (intro outcome_intros) (simp_all add: refused_outcome)
next
  case (2 t')
  show ?thesis
    unfolding setresgid_def Let_def 2(1) prod.case option.case
    by (intro outcome_intros) (auto simp: 2(2) c_def ids_def pick_def foreign_def)
qed

lemma setreuid_outcome:
  fixes t :: "('c, 'k) task"
  defines "c \<equiv> tcred t"
  shows "outcome t (setreuid K r e t)
    (ns_capable K c CAP_SETUID \<or>
      (r \<noteq> unchanged \<longrightarrow> make_kuid K r \<in> {uid c, euid c}) \<and> (e \<noteq> unchanged \<longrightarrow> make_kuid K e \<in> {uid c, euid c, suid c}))
    [pick r (make_kuid K r) (uid c), pick e (make_kuid K e) (euid c),
     if r \<noteq> unchanged \<or> (e \<noteq> unchanged \<and> make_kuid K e \<noteq> uid c) then pick e (make_kuid K e) (euid c) else suid c,
     pick e (make_kuid K e) (euid c), gid c, egid c, sgid c, fsgid c]"
proof (cases rule: prepare_split [of t])
  case (1 t')
  then show ?thesis
    unfolding setreuid_def Let_def by (intro outcome_intros) (simp_all add: refused_outcome)
next
  case (2 t')
  show ?thesis
    unfolding setreuid_def Let_def 2(1) prod.case option.case
    by (intro outcome_intros) (auto simp: 2(2) c_def ids_def pick_def)
qed

lemma setuid_outcome:
  fixes t :: "('c, 'k) task"
  defines "c \<equiv> tcred t"
  shows "outcome t (setuid K u t)
    (ns_capable K c CAP_SETUID \<or> make_kuid K u \<in> {uid c, suid c})
    (let k = make_kuid K u; all = ns_capable K c CAP_SETUID in
     [if all then k else uid c, k, if all then k else suid c, k, gid c, egid c, sgid c, fsgid c])"
proof (cases rule: prepare_split [of t])
  case (1 t')
  then show ?thesis
    unfolding setuid_def Let_def by (intro outcome_intros) (simp_all add: refused_outcome)
next
  case (2 t')
  show ?thesis
    unfolding setuid_def Let_def 2(1) prod.case option.case
    by (intro outcome_intros) (auto simp: 2(2) c_def ids_def)
qed

lemma setresuid_outcome:
  fixes t :: "('c, 'k) task"
  defines "c \<equiv> tcred t"
  shows "outcome t (setresuid K r e s t)
    (ns_capable K c CAP_SETUID \<or>
      (\<forall>a \<in> {r, e, s}. a \<noteq> unchanged \<longrightarrow> make_kuid K a \<in> {uid c, euid c, suid c}))
    [pick r (make_kuid K r) (uid c), pick e (make_kuid K e) (euid c), pick s (make_kuid K s) (suid c),
     pick e (make_kuid K e) (euid c), gid c, egid c, sgid c, fsgid c]"
proof (cases rule: prepare_split [of t])
  case (1 t')
  then show ?thesis
    unfolding setresuid_def Let_def by (intro outcome_intros) (simp_all add: refused_outcome)
next
  case (2 t')
  show ?thesis
    unfolding setresuid_def Let_def 2(1) prod.case option.case
    by (intro outcome_intros) (auto simp: 2(2) c_def ids_def pick_def foreign_def)
qed

lemma setfsuid_outcome:
  fixes t :: "('c, 'k) task"
  defines "c \<equiv> tcred t"
  shows "fst (setfsuid K u t) = uint (from_kuid_munged K (fsuid c)) \<and>
    (tcred (snd (setfsuid K u t)) = c \<or>
     (ns_capable K c CAP_SETUID \<or> make_kuid K u \<in> {uid c, euid c, suid c, fsuid c}) \<and>
     ids (tcred (snd (setfsuid K u t))) = [uid c, euid c, suid c, make_kuid K u, gid c, egid c, sgid c, fsgid c])"
proof (cases rule: prepare_split [of t])
  case (1 t')
  then show ?thesis by (simp add: setfsuid_def Let_def c_def)
next
  case (2 t')
  obtain e n' where lsm: "security_task_fix_setuid K (c\<lparr>fsuid := make_kuid K u\<rparr>) c LSM_SETID_FS = (e, n')" by fastforce
  obtain x t'' where com: "commit_creds K n' t' = (x, t'')" by fastforce
  have "ids n' = ids (c\<lparr>fsuid := make_kuid K u\<rparr>)" using lsm by (rule fix_keeps)
  then show ?thesis
    using 2 lsm com commit_installs [OF com]
    by (auto simp: setfsuid_def Let_def c_def abort_keeps ids_def)
qed

lemma setfsgid_outcome:
  fixes t :: "('c, 'k) task"
  defines "c \<equiv> tcred t"
  shows "fst (setfsgid K g t) = uint (from_kgid_munged K (fsgid c)) \<and>
    (tcred (snd (setfsgid K g t)) = c \<or>
     (ns_capable K c CAP_SETGID \<or> make_kgid K g \<in> {gid c, egid c, sgid c, fsgid c}) \<and>
     ids (tcred (snd (setfsgid K g t))) = [uid c, euid c, suid c, fsuid c, gid c, egid c, sgid c, make_kgid K g])"
proof (cases rule: prepare_split [of t])
  case (1 t')
  then show ?thesis by (simp add: setfsgid_def Let_def c_def)
next
  case (2 t')
  obtain x t'' where com: "commit_creds K (c\<lparr>fsgid := make_kgid K g\<rparr>) t' = (x, t'')" by fastforce
  show ?thesis
    using 2 com commit_installs [OF com] by (auto simp: setfsgid_def Let_def c_def abort_keeps ids_def)
qed

end

subsection \<open>Sequences of calls\<close>

datatype idcall =
    Setregid u32 u32 | Setgid u32 | Setresgid u32 u32 u32 | Setfsgid u32
  | Setreuid u32 u32 | Setuid u32 | Setresuid u32 u32 u32 | Setfsuid u32

fun run_idcall :: "('c, 'k) ckern \<Rightarrow> idcall \<Rightarrow> ('c, 'k) task \<Rightarrow> int \<times> ('c, 'k) task" where
  "run_idcall K (Setregid r e) t = setregid K r e t"
| "run_idcall K (Setgid g) t = setgid K g t"
| "run_idcall K (Setresgid r e s) t = setresgid K r e s t"
| "run_idcall K (Setfsgid g) t = setfsgid K g t"
| "run_idcall K (Setreuid r e) t = setreuid K r e t"
| "run_idcall K (Setuid u) t = setuid K u t"
| "run_idcall K (Setresuid r e s) t = setresuid K r e s t"
| "run_idcall K (Setfsuid u) t = setfsuid K u t"

definition uids :: "'c cred \<Rightarrow> u32 set" where
  "uids c = {uid c, euid c, suid c, fsuid c}"

definition gids :: "'c cred \<Rightarrow> u32 set" where
  "gids c = {gid c, egid c, sgid c, fsgid c}"

text \<open>Calls made one after the other, none of them in a state with a set-ID capability.\<close>

inductive unprivileged :: "('c, 'k) ckern \<Rightarrow> ('c, 'k) task \<Rightarrow> ('c, 'k) task \<Rightarrow> bool" for K t where
  start: "unprivileged K t t"
| call: "unprivileged K t u \<Longrightarrow> \<not> ns_capable K (tcred u) CAP_SETUID \<Longrightarrow> \<not> ns_capable K (tcred u) CAP_SETGID
    \<Longrightarrow> unprivileged K t (snd (run_idcall K c u))"

lemma outcome_confined:
  assumes "outcome t res ok new" and "ok \<Longrightarrow> set (take 4 new) \<subseteq> uids (tcred t) \<and> set (drop 4 new) \<subseteq> gids (tcred t)"
  shows "uids (tcred (snd res)) \<subseteq> uids (tcred t) \<and> gids (tcred (snd res)) \<subseteq> gids (tcred t)"
proof -
  have "set (take 4 (ids d)) = uids d \<and> set (drop 4 (ids d)) = gids d" for d :: "'a cred"
    by (auto simp: ids_def uids_def gids_def)
  then show ?thesis using assms by (auto simp: outcome_def)
qed

context cred_kernel
begin

lemma idcall_confined:
  assumes "\<not> ns_capable K (tcred t) CAP_SETUID" and "\<not> ns_capable K (tcred t) CAP_SETGID"
  shows "uids (tcred (snd (run_idcall K c t))) \<subseteq> uids (tcred t) \<and> gids (tcred (snd (run_idcall K c t))) \<subseteq> gids (tcred t)"
proof (cases c)
  case (Setfsuid u)
  then show ?thesis using setfsuid_outcome [of u t] assms by (auto simp: uids_def gids_def ids_def)
next
  case (Setfsgid g)
  then show ?thesis using setfsgid_outcome [of g t] assms by (auto simp: uids_def gids_def ids_def)
next
  case (Setregid r e)
  show ?thesis
    unfolding Setregid run_idcall.simps
    by (rule outcome_confined [OF setregid_outcome]) (auto simp: assms uids_def gids_def pick_def Let_def)
next
  case (Setgid g)
  show ?thesis
    unfolding Setgid run_idcall.simps
    by (rule outcome_confined [OF setgid_outcome]) (auto simp: assms uids_def gids_def pick_def Let_def)
next
  case (Setresgid r e s)
  show ?thesis
    unfolding Setresgid run_idcall.simps
    by (rule outcome_confined [OF setresgid_outcome]) (auto simp: assms uids_def gids_def pick_def Let_def)
next
  case (Setreuid r e)
  show ?thesis
    unfolding Setreuid run_idcall.simps
    by (rule outcome_confined [OF setreuid_outcome]) (auto simp: assms uids_def gids_def pick_def Let_def)
next
  case (Setuid u)
  show ?thesis
    unfolding Setuid run_idcall.simps
    by (rule outcome_confined [OF setuid_outcome]) (auto simp: assms uids_def gids_def pick_def Let_def)
next
  case (Setresuid r e s)
  show ?thesis
    unfolding Setresuid run_idcall.simps
    by (rule outcome_confined [OF setresuid_outcome]) (auto simp: assms uids_def gids_def pick_def Let_def)
qed

lemma unprivileged_confined:
  assumes "unprivileged K t u"
  shows "uids (tcred u) \<subseteq> uids (tcred t) \<and> gids (tcred u) \<subseteq> gids (tcred t)"
  using assms by induction (use idcall_confined in blast)+

end

end
