(* ===== verification/CredProperties.thy ===== *)
theory CredProperties
  imports CredSafety
begin

text \<open>
  Further contracts of the credential system calls (prepared credentials are released or
  committed exactly once; IDs written by \<^verbatim>\<open>getresuid\<close> are those set), a concrete kernel that
  satisfies all laws, and the guarantees of the calls.
\<close>

subsection \<open>Balance of prepared credentials\<close>

locale cred_accounting = cred_kernel K for K :: "('c, 'k) ckern" +
  fixes outstanding :: "('c, 'k) task \<Rightarrow> nat"
  assumes prepare_some: "prepare_creds K t = (Some n, t') \<Longrightarrow> outstanding t' = Suc (outstanding t)"
    and prepare_none: "prepare_creds K t = (None, t') \<Longrightarrow> outstanding t' = outstanding t"
    and abort_releases: "outstanding (abort_creds K n t) = outstanding t - 1"
    and commit_consumes: "commit_creds K n t = (e, t') \<Longrightarrow> outstanding t' = outstanding t - 1"
    and alloc_neutral: "alloc_uid K u t = (x, t') \<Longrightarrow> outstanding t' = outstanding t"
    and free_neutral: "outstanding (free_uid K i t) = outstanding t"
    and flag_neutral: "outstanding (t\<lparr>nproc_exceeded := b\<rparr>) = outstanding t"
begin

definition balanced :: "('c, 'k) task \<Rightarrow> int \<times> ('c, 'k) task \<Rightarrow> bool" where
  "balanced t res \<longleftrightarrow> outstanding (snd res) = outstanding t"

lemma balanced_if: "(b \<Longrightarrow> balanced t x) \<Longrightarrow> (\<not> b \<Longrightarrow> balanced t y) \<Longrightarrow> balanced t (if b then x else y)"
  by simp

lemma balanced_refused: "outstanding u = outstanding t \<Longrightarrow> balanced t (e, u)"
  by (simp add: balanced_def)

lemma balanced_abort: "outstanding u = Suc (outstanding t) \<Longrightarrow> balanced t (abort_with K n e u)"
  by (simp add: balanced_def abort_with_def abort_releases)

lemma balanced_commit: "outstanding u = Suc (outstanding t) \<Longrightarrow> balanced t (commit_creds K n u)"
  by (cases "commit_creds K n u") (simp add: balanced_def commit_consumes)

lemma balanced_commit_snd: "outstanding u = Suc (outstanding t) \<Longrightarrow> balanced t (e, snd (commit_creds K n u))"
  using balanced_commit by (simp add: balanced_def)

lemma balanced_abort_snd: "outstanding u = Suc (outstanding t) \<Longrightarrow> balanced t (e, abort_creds K n u)"
  by (simp add: balanced_def abort_releases)

lemma balanced_fix: "outstanding u = Suc (outstanding t) \<Longrightarrow> balanced t (fix_and_commit K n old f u)"
  by (simp add: fix_and_commit_def balanced_abort balanced_commit split: prod.split)

lemma balanced_fix_fs:
  "outstanding u = Suc (outstanding t) \<Longrightarrow> balanced t (case security_task_fix_setuid K n old f of (retval, n') \<Rightarrow>
     if retval = 0 then (e, snd (commit_creds K n' u)) else (e, abort_creds K n' u))"
  by (simp add: balanced_commit_snd balanced_abort_snd split: prod.split)

lemma balanced_set_user:
  assumes "outstanding u = Suc (outstanding t)"
    and "\<And>n' u'. outstanding u' = Suc (outstanding t) \<Longrightarrow> balanced t (F n' u')"
  shows "balanced t (case if b then set_user K n u else (0, n, u) of
    (e, n', u') \<Rightarrow> if e < 0 then abort_with K n' e u' else F n' u')"
proof (cases "if b then set_user K n u else (0, n, u)")
  case (fields e n' u')
  then have "outstanding u' = Suc (outstanding t)"
    using assms(1) alloc_neutral [of "uid n" u]
    by (auto simp: set_user_def Let_def free_neutral flag_neutral split: if_splits prod.splits option.splits)
  then show ?thesis using assms(2) fields by (simp add: balanced_abort)
qed

lemma balanced_prepare:
  assumes "\<And>n u. outstanding u = Suc (outstanding t) \<Longrightarrow> balanced t (F n u)"
  shows "balanced t (case prepare_creds K t of (None, u) \<Rightarrow> (e, u) | (Some n, u) \<Rightarrow> F n u)"
  using assms prepare_none [of t] prepare_some [of t]
  by (auto simp: balanced_refused split: prod.split option.split)

lemmas balanced_intros = balanced_if balanced_refused balanced_abort balanced_commit balanced_commit_snd
  balanced_abort_snd balanced_fix balanced_fix_fs balanced_set_user balanced_prepare

lemma idcall_balanced: "balanced t (run_idcall K c t)"
proof (cases c)
  case (Setregid r e)
  show ?thesis unfolding Setregid run_idcall.simps setregid_def Let_def by (intro balanced_intros) simp_all
next
  case (Setgid g)
  show ?thesis unfolding Setgid run_idcall.simps setgid_def Let_def by (intro balanced_intros) simp_all
next
  case (Setresgid r e s)
  show ?thesis unfolding Setresgid run_idcall.simps setresgid_def Let_def by (intro balanced_intros) simp_all
next
  case (Setfsgid g)
  show ?thesis unfolding Setfsgid run_idcall.simps setfsgid_def Let_def by (intro balanced_intros) simp_all
next
  case (Setreuid r e)
  show ?thesis unfolding Setreuid run_idcall.simps setreuid_def Let_def by (intro balanced_intros) simp_all
next
  case (Setuid u)
  show ?thesis unfolding Setuid run_idcall.simps setuid_def Let_def by (intro balanced_intros) simp_all
next
  case (Setresuid r e s)
  show ?thesis unfolding Setresuid run_idcall.simps setresuid_def Let_def by (intro balanced_intros) simp_all
next
  case (Setfsuid u)
  show ?thesis unfolding Setfsuid run_idcall.simps setfsuid_def Let_def by (intro balanced_intros) simp_all
qed

end

subsection \<open>Reading the IDs back\<close>

locale cred_memory = cred_kernel K for K :: "('c, 'k) ckern" +
  fixes word_at :: "('c, 'k) task \<Rightarrow> nat \<Rightarrow> u32"
  assumes put_keeps: "put_user K v p t = (e, t') \<Longrightarrow> tcred t' = tcred t"
    and put_writes: "put_user K v p t = (0, t') \<Longrightarrow> word_at t' q = (if q = p then v else word_at t q)"
    and unmap_map: "uid_valid K (make_kuid K u) \<Longrightarrow> from_kuid_munged K (make_kuid K u) = u"
begin

lemma put3_writes:
  assumes "put3 K a p b q c r t = (0, t')" and "distinct [p, q, r]"
  shows "word_at t' p = a \<and> word_at t' q = b \<and> word_at t' r = c"
  using assms put_writes by (auto simp: put3_def Let_def split: prod.splits if_splits)

lemma setresuid_valid:
  assumes "setresuid K a b c t = (0, t')" and "x \<in> {a, b, c}" and "x \<noteq> unchanged"
  shows "uid_valid K (make_kuid K x)"
  using assms by (auto simp: setresuid_def Let_def split: if_splits)

lemma setresuid_read_back:
  assumes set: "setresuid K a b c t = (0, t1)" and args: "unchanged \<notin> {a, b, c}"
    and get: "getresuid K p q r t1 = (0, t2)" and d: "distinct [p, q, r]"
  shows "word_at t2 p = a \<and> word_at t2 q = b \<and> word_at t2 r = c \<and> getuid K t1 = a \<and> geteuid K t1 = b"
proof -
  have "ids (tcred t1) = [make_kuid K a, make_kuid K b, make_kuid K c, make_kuid K b, gid (tcred t),
      egid (tcred t), sgid (tcred t), fsgid (tcred t)]"
    using setresuid_outcome [of t a b c] set args by (auto simp: outcome_def pick_def)
  moreover have "from_kuid_munged K (make_kuid K x) = x" if "x \<in> {a, b, c}" for x
    using that args by (intro unmap_map setresuid_valid [OF set]) auto
  ultimately show ?thesis
    using put3_writes [OF get [unfolded getresuid_def Let_def] d]
    by (simp add: ids_def getuid_def geteuid_def)
qed

end

subsection \<open>A concrete kernel\<close>

text \<open>
  IDs map to themselves, the capabilities of a credential are a list, giving up the last
  root ID drops them, the kernel counts the prepared credentials and holds user words.
\<close>

type_synonym demo_cred = "capability list cred"
type_synonym demo_task = "(capability list, nat \<times> (nat \<Rightarrow> u32)) task"

definition drop_caps :: "demo_cred \<Rightarrow> demo_cred \<Rightarrow> lsm_flag \<Rightarrow> int \<times> demo_cred" where
  "drop_caps new old f = (0, if 0 \<in> {uid old, euid old, suid old} \<and> 0 \<notin> {uid new, euid new, suid new}
     then new\<lparr>security := []\<rparr> else new)"

definition demo_kern :: "(capability list, nat \<times> (nat \<Rightarrow> u32)) ckern" where
  "demo_kern = \<lparr>make_kuid = id, make_kgid = id, from_kuid_munged = id, from_kgid_munged = id,
     uid_valid = (\<lambda>k. k \<noteq> - 1), gid_valid = (\<lambda>k. k \<noteq> - 1),
     ns_capable = (\<lambda>c p. p \<in> set (security c)),
     prepare_creds = (\<lambda>t. (Some (tcred t), t\<lparr>kst := (Suc (fst (kst t)), snd (kst t))\<rparr>)),
     commit_creds = (\<lambda>n t. (0, t\<lparr>tcred := n, kst := (fst (kst t) - 1, snd (kst t))\<rparr>)),
     abort_creds = (\<lambda>n t. t\<lparr>kst := (fst (kst t) - 1, snd (kst t))\<rparr>),
     alloc_uid = (\<lambda>u t. (Some (unat u), t)), free_uid = (\<lambda>i t. t),
     processes = (\<lambda>i t. 0), rlimit_nproc = (\<lambda>t. 100), INIT_USER = 0,
     security_task_fix_setuid = drop_caps,
     put_user = (\<lambda>v p t. if p = 0 then (- EFAULT, t) else (0, t\<lparr>kst := (fst (kst t), (snd (kst t))(p := v))\<rparr>))\<rparr>"

lemma demo_kern_sel [simp]:
  "make_kuid demo_kern u = u" "make_kgid demo_kern u = u" "from_kuid_munged demo_kern u = u"
  "from_kgid_munged demo_kern u = u" "uid_valid demo_kern u = (u \<noteq> - 1)" "gid_valid demo_kern u = (u \<noteq> - 1)"
  "ns_capable demo_kern c k = (k \<in> set (security c))"
  "prepare_creds demo_kern t = (Some (tcred t), t\<lparr>kst := (Suc (fst (kst t)), snd (kst t))\<rparr>)"
  "commit_creds demo_kern n t = (0, t\<lparr>tcred := n, kst := (fst (kst t) - 1, snd (kst t))\<rparr>)"
  "abort_creds demo_kern n t = t\<lparr>kst := (fst (kst t) - 1, snd (kst t))\<rparr>"
  "alloc_uid demo_kern u t = (Some (unat u), t)" "free_uid demo_kern i t = t"
  "security_task_fix_setuid demo_kern = drop_caps"
  "put_user demo_kern v p t = (if p = 0 then (- EFAULT, t) else (0, t\<lparr>kst := (fst (kst t), (snd (kst t))(p := v))\<rparr>))"
  by (simp_all add: demo_kern_def)

interpretation demo: cred_accounting demo_kern "\<lambda>t. fst (kst t)"
  by unfold_locales (auto simp: drop_caps_def ids_def)

interpretation demo_mem: cred_memory demo_kern "\<lambda>t. snd (kst t)"
  by unfold_locales (auto split: if_splits)

definition demo_task :: "u32 \<Rightarrow> u32 \<Rightarrow> u32 \<Rightarrow> capability list \<Rightarrow> demo_task" where
  "demo_task r e s caps = \<lparr>tcred = \<lparr>uid = r, gid = 100, suid = s, sgid = 100, euid = e, egid = 100, fsuid = e,
     fsgid = 100, user = unat r, security = caps\<rparr>, nproc_exceeded = False, kst = (0, \<lambda>_. 0)\<rparr>"

lemmas demo_run = demo_task_def setuid_def setresuid_def setreuid_def set_user_def fix_and_commit_def drop_caps_def
  abort_with_def Let_def getresuid_def put3_def foreign_def

subsection \<open>Guarantees\<close>

text \<open>
  C26: No call gives an unprivileged task an ID it does not have. Whatever sequence of the eight
  set-ID calls a task makes, as long as it holds neither \<^verbatim>\<open>CAP_SETUID\<close> nor \<^verbatim>\<open>CAP_SETGID\<close>, its
  real, effective, saved and file system user IDs stay among those it started with, and so
  do its group IDs.
\<close>

theorem unprivileged_ids_confined:
  assumes "cred_kernel K" and "unprivileged K t u"
  shows "uids (tcred u) \<subseteq> uids (tcred t) \<and> gids (tcred u) \<subseteq> gids (tcred t)"
  using assms by (rule cred_kernel.unprivileged_confined)

theorem unprivileged_ids_confined_witness:
  "unprivileged demo_kern (demo_task 5 6 7 []) (snd (run_idcall demo_kern (Setreuid 6 5) (demo_task 5 6 7 []))) \<and>
   uids (tcred (snd (run_idcall demo_kern (Setreuid 6 5) (demo_task 5 6 7 [])))) \<subseteq> uids (tcred (demo_task 5 6 7 []))"
proof -
  have "unprivileged demo_kern (demo_task 5 6 7 []) (snd (run_idcall demo_kern (Setreuid 6 5) (demo_task 5 6 7 [])))"
    by (rule unprivileged.call [OF unprivileged.start]) (simp_all add: demo_task_def)
  with unprivileged_ids_confined [OF demo.cred_kernel_axioms this] show ?thesis by blast
qed

text \<open>
  C40: A privileged \<^verbatim>\<open>setuid\<close> drops privileges for good. If a task with \<^verbatim>\<open>CAP_SETUID\<close> calls
  \<^verbatim>\<open>setuid(u)\<close> successfully, its real, effective, saved and file system user IDs all become
  \<open>u\<close>, and no later sequence of calls without set-ID capabilities changes any of them.
\<close>

theorem privileged_setuid_is_permanent:
  assumes "cred_kernel K" and "ns_capable K (tcred t) CAP_SETUID" and "setuid K i t = (0, t')"
    and "unprivileged K t' u"
  shows "uids (tcred t') = {make_kuid K i} \<and> uids (tcred u) = {make_kuid K i}"
proof -
  have "uids (tcred t') = {make_kuid K i}"
    using cred_kernel.setuid_outcome [OF assms(1), of t i] assms(2,3)
    by (auto simp: outcome_def Let_def ids_def uids_def)
  moreover have "uids (tcred u) \<noteq> {}" by (simp add: uids_def)
  ultimately show ?thesis
    using cred_kernel.unprivileged_confined [OF assms(1,4)] by (metis subset_singletonD)
qed

theorem privileged_setuid_is_permanent_witness:
  "\<exists>t'. setuid demo_kern 1000 (demo_task 0 0 0 [CAP_SETUID]) = (0, t') \<and> uids (tcred t') = {1000}"
  using privileged_setuid_is_permanent [OF demo.cred_kernel_axioms _ _ unprivileged.start, of "demo_task 0 0 0 [CAP_SETUID]" 1000
      "snd (setuid demo_kern 1000 (demo_task 0 0 0 [CAP_SETUID]))"]
  by (simp add: demo_run)

text \<open>
  \<^verbatim>\<open>setreuid\<close> is all or nothing and moves the saved ID as documented. It either fails with a
  negative error and leaves the credentials as they were, or returns 0; then the caller was
  privileged or asked only for IDs it may take (the real ID from real or effective, the
  effective from real, effective or saved), the saved ID became the new effective ID
  exactly if the real ID was given or the effective ID was set to something other than the
  old real ID, the file system ID follows the effective ID, and the group IDs are untouched.
\<close>

theorem setreuid_all_or_nothing:
  assumes "cred_kernel K" and "setreuid K r e t = (ret, t')"
  shows "ret < 0 \<and> tcred t' = tcred t \<or>
    ret = 0 \<and>
    (ns_capable K (tcred t) CAP_SETUID \<or>
      (r \<noteq> unchanged \<longrightarrow> make_kuid K r \<in> {uid (tcred t), euid (tcred t)}) \<and>
      (e \<noteq> unchanged \<longrightarrow> make_kuid K e \<in> {uid (tcred t), euid (tcred t), suid (tcred t)})) \<and>
    uid (tcred t') = (if r = unchanged then uid (tcred t) else make_kuid K r) \<and>
    euid (tcred t') = (if e = unchanged then euid (tcred t) else make_kuid K e) \<and>
    suid (tcred t') = (if r \<noteq> unchanged \<or> (e \<noteq> unchanged \<and> make_kuid K e \<noteq> uid (tcred t))
       then euid (tcred t') else suid (tcred t)) \<and>
    fsuid (tcred t') = euid (tcred t') \<and> gids (tcred t') = gids (tcred t)"
proof -
  note res = cred_kernel.setreuid_outcome [OF assms(1), of t r e, unfolded outcome_def assms(2) fst_conv snd_conv]
  show ?thesis
    by (rule disj_forward [OF res], assumption, elim conjE, intro conjI, assumption, assumption)
      (simp_all add: ids_def pick_def gids_def)
qed

theorem setreuid_all_or_nothing_witness:
  "\<exists>t'. setreuid demo_kern (- 1) 7 (demo_task 5 6 7 []) = (0, t') \<and> suid (tcred t') = 7 \<and> fsuid (tcred t') = 7"
  using setreuid_all_or_nothing [OF demo.cred_kernel_axioms, of "- 1" 7 "demo_task 5 6 7 []" 0
      "snd (setreuid demo_kern (- 1) 7 (demo_task 5 6 7 []))"]
  by (simp add: demo_run)

text \<open>
  What \<^verbatim>\<open>setresuid\<close> sets is what the task reads. After a successful \<^verbatim>\<open>setresuid(a, b, c)\<close> with
  three given IDs, \<^verbatim>\<open>getresuid\<close> into three distinct user words stores \<open>a\<close>, \<open>b\<close> and \<open>c\<close>, and
  \<^verbatim>\<open>getuid\<close> and \<^verbatim>\<open>geteuid\<close> return \<open>a\<close> and \<open>b\<close>.
\<close>

theorem setresuid_getresuid:
  assumes "cred_memory K word_at" and "setresuid K a b c t = (0, t1)" and "unchanged \<notin> {a, b, c}"
    and "getresuid K p q r t1 = (0, t2)" and "distinct [p, q, r]"
  shows "word_at t2 p = a \<and> word_at t2 q = b \<and> word_at t2 r = c \<and> getuid K t1 = a \<and> geteuid K t1 = b"
  using assms by (rule cred_memory.setresuid_read_back)

theorem setresuid_getresuid_witness:
  "\<exists>t1. setresuid demo_kern 5 7 6 (demo_task 5 6 7 []) = (0, t1) \<and> getuid demo_kern t1 = 5 \<and> geteuid demo_kern t1 = 7"
  using setresuid_getresuid [OF demo_mem.cred_memory_axioms, of 5 7 6 "demo_task 5 6 7 []"
      "snd (setresuid demo_kern 5 7 6 (demo_task 5 6 7 []))" 10 20 30
      "snd (getresuid demo_kern 10 20 30 (snd (setresuid demo_kern 5 7 6 (demo_task 5 6 7 []))))"]
  by (simp add: demo_run)

text \<open>
  C27: Every path of the eight calls releases or commits the credentials it prepared exactly once:
  the number of prepared credentials is the same after the call as before.
\<close>

theorem prepared_credentials_balanced:
  assumes "cred_accounting K outstanding"
  shows "outstanding (snd (run_idcall K c t)) = outstanding t"
proof -
  have "cred_accounting.balanced outstanding t (run_idcall K c t)"
    by (rule cred_accounting.idcall_balanced [OF assms])
  then show ?thesis by (simp add: cred_accounting.balanced_def [OF assms])
qed

theorem prepared_credentials_balanced_witness:
  "fst (kst (snd (run_idcall demo_kern (Setuid 9) (demo_task 5 6 7 [])))) = 0"
  using prepared_credentials_balanced [OF demo.cred_accounting_axioms, of "Setuid 9" "demo_task 5 6 7 []"]
  by (simp add: demo_task_def)

end
