(* ===== verification/ResourceLimits.thy ===== *)
theory ResourceLimits
  imports Credentials
begin

text \<open>
  Resource limits (\<^verbatim>\<open>src/HW2/Ques5/sys.c\<close>: \<^verbatim>\<open>do_prlimit\<close>, \<^verbatim>\<open>getrlimit\<close>, \<^verbatim>\<open>setrlimit\<close>,
  \<^verbatim>\<open>prlimit64\<close>, the compat and old variants and the conversions between limit formats).

  \<^verbatim>\<open>unsigned long\<close> is a word of arbitrary width \<open>'w\<close>; the results are about widths 32 and 64.
  Locks are not modelled: each call runs on its own. Capabilities, security hooks, the task
  table and user memory are parameters (record \<open>renv\<close>). A structure in user memory is read
  or written as a whole; a fault is \<^const>\<open>None\<close>.
\<close>

subsection \<open>Data\<close>

record 'u rlimit =
  rlim_cur :: 'u
  rlim_max :: 'u

definition RLIM_NLIMITS :: nat where "RLIM_NLIMITS = 16"
definition RLIMIT_CPU :: nat where "RLIMIT_CPU = 0"
definition RLIMIT_NOFILE :: nat where "RLIMIT_NOFILE = 7"

abbreviation RLIM_INFINITY :: "'w::len word" where "RLIM_INFINITY \<equiv> - 1"
abbreviation RLIM64_INFINITY :: u64 where "RLIM64_INFINITY \<equiv> - 1"
abbreviation COMPAT_RLIM_INFINITY :: u32 where "COMPAT_RLIM_INFINITY \<equiv> - 1"

text \<open>
  The limits belong to the thread group: \<open>signal_of\<close> is the structure \<^verbatim>\<open>tsk->signal\<close> the threads of a group share,
  \<open>rlims\<close> its limits by resource. Then whether a task still has signal handling, and the kernel.
\<close>

record ('u, 'k) rworld =
  signal_of :: "nat \<Rightarrow> nat"
  rlims :: "nat \<Rightarrow> nat \<Rightarrow> 'u rlimit"
  sighand :: "nat \<Rightarrow> bool"
  rkst :: 'k

definition task_rlim :: "('u, 'k) rworld \<Rightarrow> nat \<Rightarrow> nat \<Rightarrow> 'u rlimit" where
  "task_rlim w tsk = rlims w (signal_of w tsk)"

record ('u, 'c, 'k) renv =
  current :: nat
  sysctl_nr_open :: 'u
  posix_timers :: bool
  capable_sys_resource :: "'k \<Rightarrow> bool"
  ns_capable_sys_resource :: "nat \<Rightarrow> 'k \<Rightarrow> bool"
  security_task_setrlimit :: "nat \<Rightarrow> nat \<Rightarrow> 'u rlimit \<Rightarrow> 'k \<Rightarrow> int"
  security_task_prlimit :: "'c cred \<Rightarrow> 'c cred \<Rightarrow> bool \<Rightarrow> bool \<Rightarrow> 'k \<Rightarrow> int"
  task_cred :: "nat \<Rightarrow> 'c cred"
  find_task_by_vpid :: "int \<Rightarrow> 'k \<Rightarrow> nat option"
  update_rlimit_cpu :: "nat \<Rightarrow> 'u \<Rightarrow> 'k \<Rightarrow> 'k"
  copy_rlimit_from_user :: "nat \<Rightarrow> 'k \<Rightarrow> 'u rlimit option"
  copy_rlimit_to_user :: "nat \<Rightarrow> 'u rlimit \<Rightarrow> 'k \<Rightarrow> 'k option"
  copy_rlimit64_from_user :: "nat \<Rightarrow> 'k \<Rightarrow> u64 rlimit option"
  copy_rlimit64_to_user :: "nat \<Rightarrow> u64 rlimit \<Rightarrow> 'k \<Rightarrow> 'k option"
  copy_compat_from_user :: "nat \<Rightarrow> 'k \<Rightarrow> u32 rlimit option"
  copy_compat_to_user :: "nat \<Rightarrow> u32 rlimit \<Rightarrow> 'k \<Rightarrow> 'k option"

subsection \<open>Conversions\<close>

definition rlim64_is_infinity :: "'w::len itself \<Rightarrow> u64 \<Rightarrow> bool" where
  "rlim64_is_infinity _ rlim64 =
     (if LENGTH('w) < 64 then (ucast (- 1 :: 'w word) :: u64) \<le> rlim64 else rlim64 = RLIM64_INFINITY)"

definition rlim_to_rlim64 :: "'w::len word rlimit \<Rightarrow> u64 rlimit" where
  "rlim_to_rlim64 l =
     \<lparr>rlim_cur = (if rlim_cur l = RLIM_INFINITY then RLIM64_INFINITY else ucast (rlim_cur l)),
      rlim_max = (if rlim_max l = RLIM_INFINITY then RLIM64_INFINITY else ucast (rlim_max l))\<rparr>"

definition rlim64_to_rlim :: "u64 rlimit \<Rightarrow> 'w::len word rlimit" where
  "rlim64_to_rlim l =
     \<lparr>rlim_cur = (if rlim64_is_infinity TYPE('w) (rlim_cur l) then RLIM_INFINITY else ucast (rlim_cur l)),
      rlim_max = (if rlim64_is_infinity TYPE('w) (rlim_max l) then RLIM_INFINITY else ucast (rlim_max l))\<rparr>"

subsection \<open>Reading and changing a limit\<close>

text \<open>
  \<open>new\<close> is the new limit or \<^const>\<open>None\<close> for a NULL pointer. The result carries the old limit,
  which the code stores through \<^verbatim>\<open>old_rlim\<close> when that is not NULL.
\<close>

definition do_prlimit :: "('w::len word, 'c, 'k) renv \<Rightarrow> nat \<Rightarrow> nat \<Rightarrow> 'w word rlimit option \<Rightarrow> ('w word, 'k) rworld
    \<Rightarrow> int \<times> 'w word rlimit \<times> ('w word, 'k) rworld" where
  "do_prlimit E tsk resource new w =
     (let old = task_rlim w tsk resource in
      if RLIM_NLIMITS \<le> resource then (- EINVAL, old, w)
      else if (case new of None \<Rightarrow> False | Some n \<Rightarrow> rlim_max n < rlim_cur n) then (- EINVAL, old, w)
      else if (case new of None \<Rightarrow> False | Some n \<Rightarrow> resource = RLIMIT_NOFILE \<and> sysctl_nr_open E < rlim_max n)
      then (- EPERM, old, w)
      else if \<not> sighand w tsk then (- ESRCH, old, w)
      else case new of
        None \<Rightarrow> (0, old, w)
      | Some n \<Rightarrow>
          let retval = (if rlim_max old < rlim_max n \<and> \<not> capable_sys_resource E (rkst w) then - EPERM else 0);
              retval = (if retval = 0 then security_task_setrlimit E tsk resource n (rkst w) else retval);
              n = (if resource = RLIMIT_CPU \<and> rlim_cur n = 0 then n\<lparr>rlim_cur := 1\<rparr> else n)
          in if retval \<noteq> 0 then (retval, old, w)
             else let w = w\<lparr>rlims := (rlims w)(signal_of w tsk := (task_rlim w tsk)(resource := n))\<rparr>;
                      w = (if resource = RLIMIT_CPU \<and> rlim_cur n \<noteq> RLIM_INFINITY \<and> posix_timers E
                           then w\<lparr>rkst := update_rlimit_cpu E tsk (rlim_cur n) (rkst w)\<rparr> else w)
                  in (0, old, w))"

definition getrlimit :: "('w::len word, 'c, 'k) renv \<Rightarrow> nat \<Rightarrow> nat \<Rightarrow> ('w word, 'k) rworld \<Rightarrow> int \<times> ('w word, 'k) rworld" where
  "getrlimit E resource p w =
     (let (ret, v, w) = do_prlimit E (current E) resource None w in
      if ret = 0 then
        (case copy_rlimit_to_user E p v (rkst w) of
           None \<Rightarrow> (- EFAULT, w)
         | Some k \<Rightarrow> (0, w\<lparr>rkst := k\<rparr>))
      else (ret, w))"

definition setrlimit :: "('w::len word, 'c, 'k) renv \<Rightarrow> nat \<Rightarrow> nat \<Rightarrow> ('w word, 'k) rworld \<Rightarrow> int \<times> ('w word, 'k) rworld" where
  "setrlimit E resource p w =
     (case copy_rlimit_from_user E p (rkst w) of
        None \<Rightarrow> (- EFAULT, w)
      | Some n \<Rightarrow> let (ret, _, w) = do_prlimit E (current E) resource (Some n) w in (ret, w))"

subsection \<open>The compat and old variants\<close>

definition compat_to_rlimit :: "u32 rlimit \<Rightarrow> 'w::len word rlimit" where
  "compat_to_rlimit r32 =
     \<lparr>rlim_cur = (if rlim_cur r32 = COMPAT_RLIM_INFINITY then RLIM_INFINITY else ucast (rlim_cur r32)),
      rlim_max = (if rlim_max r32 = COMPAT_RLIM_INFINITY then RLIM_INFINITY else ucast (rlim_max r32))\<rparr>"

definition rlimit_to_compat :: "'w::len word rlimit \<Rightarrow> u32 rlimit" where
  "rlimit_to_compat r =
     \<lparr>rlim_cur = (if ucast COMPAT_RLIM_INFINITY < rlim_cur r then COMPAT_RLIM_INFINITY else ucast (rlim_cur r)),
      rlim_max = (if ucast COMPAT_RLIM_INFINITY < rlim_max r then COMPAT_RLIM_INFINITY else ucast (rlim_max r))\<rparr>"

definition compat_setrlimit :: "('w::len word, 'c, 'k) renv \<Rightarrow> nat \<Rightarrow> nat \<Rightarrow> ('w word, 'k) rworld
    \<Rightarrow> int \<times> ('w word, 'k) rworld" where
  "compat_setrlimit E resource p w =
     (case copy_compat_from_user E p (rkst w) of
        None \<Rightarrow> (- EFAULT, w)
      | Some r32 \<Rightarrow>
          let (ret, _, w) = do_prlimit E (current E) resource (Some (compat_to_rlimit r32)) w in (ret, w))"

definition compat_getrlimit :: "('w::len word, 'c, 'k) renv \<Rightarrow> nat \<Rightarrow> nat \<Rightarrow> ('w word, 'k) rworld
    \<Rightarrow> int \<times> ('w word, 'k) rworld" where
  "compat_getrlimit E resource p w =
     (let (ret, r, w) = do_prlimit E (current E) resource None w in
      if ret = 0 then
        (case copy_compat_to_user E p (rlimit_to_compat r) (rkst w) of
           None \<Rightarrow> (- EFAULT, w)
         | Some k \<Rightarrow> (ret, w\<lparr>rkst := k\<rparr>))
      else (ret, w))"

definition old_getrlimit :: "('w::len word, 'c, 'k) renv \<Rightarrow> nat \<Rightarrow> nat \<Rightarrow> ('w word, 'k) rworld
    \<Rightarrow> int \<times> ('w word, 'k) rworld" where
  "old_getrlimit E resource p w =
     (if RLIM_NLIMITS \<le> resource then (- EINVAL, w)
      else let x = task_rlim w (current E) resource;
               x = (if 0x7FFFFFFF < rlim_cur x then x\<lparr>rlim_cur := 0x7FFFFFFF\<rparr> else x);
               x = (if 0x7FFFFFFF < rlim_max x then x\<lparr>rlim_max := 0x7FFFFFFF\<rparr> else x)
           in case copy_rlimit_to_user E p x (rkst w) of
                None \<Rightarrow> (- EFAULT, w)
              | Some k \<Rightarrow> (0, w\<lparr>rkst := k\<rparr>))"

definition compat_old_getrlimit :: "('w::len word, 'c, 'k) renv \<Rightarrow> nat \<Rightarrow> nat \<Rightarrow> ('w word, 'k) rworld
    \<Rightarrow> int \<times> ('w word, 'k) rworld" where
  "compat_old_getrlimit E resource p w =
     (if RLIM_NLIMITS \<le> resource then (- EINVAL, w)
      else let r = task_rlim w (current E) resource;
               r = (if 0x7FFFFFFF < rlim_cur r then r\<lparr>rlim_cur := 0x7FFFFFFF\<rparr> else r);
               r = (if 0x7FFFFFFF < rlim_max r then r\<lparr>rlim_max := 0x7FFFFFFF\<rparr> else r)
           in case copy_compat_to_user E p \<lparr>rlim_cur = ucast (rlim_cur r), rlim_max = ucast (rlim_max r)\<rparr> (rkst w) of
                None \<Rightarrow> (- EFAULT, w)
              | Some k \<Rightarrow> (0, w\<lparr>rkst := k\<rparr>))"

subsection \<open>Limits of another task\<close>

definition check_prlimit_permission :: "('u, 'c, 'k) renv \<Rightarrow> nat \<Rightarrow> bool \<Rightarrow> bool \<Rightarrow> 'k \<Rightarrow> int" where
  "check_prlimit_permission E tsk rd wr k =
     (if current E = tsk then 0
      else let c = task_cred E (current E); tc = task_cred E tsk;
               id_match = (uid c = euid tc \<and> uid c = suid tc \<and> uid c = uid tc \<and>
                           gid c = egid tc \<and> gid c = sgid tc \<and> gid c = gid tc)
           in if \<not> id_match \<and> \<not> ns_capable_sys_resource E tsk k then - EPERM
              else security_task_prlimit E c tc rd wr k)"

definition prlimit64 :: "('w::len word, 'c, 'k) renv \<Rightarrow> int \<Rightarrow> nat \<Rightarrow> nat option \<Rightarrow> nat option \<Rightarrow> ('w word, 'k) rworld
    \<Rightarrow> int \<times> ('w word, 'k) rworld" where
  "prlimit64 E pid resource newp oldp w =
     (case (case newp of None \<Rightarrow> Some None | Some p \<Rightarrow> map_option Some (copy_rlimit64_from_user E p (rkst w))) of
        None \<Rightarrow> (- EFAULT, w)
      | Some new64 \<Rightarrow>
          (case (if pid = 0 then Some (current E) else find_task_by_vpid E pid (rkst w)) of
             None \<Rightarrow> (- ESRCH, w)
           | Some tsk \<Rightarrow>
               let ret = check_prlimit_permission E tsk (oldp \<noteq> None) (newp \<noteq> None) (rkst w) in
               if ret \<noteq> 0 then (ret, w)
               else let (ret, old, w) = do_prlimit E tsk resource (map_option rlim64_to_rlim new64) w in
               case oldp of
                 Some p \<Rightarrow>
                   if ret = 0 then
                     (case copy_rlimit64_to_user E p (rlim_to_rlim64 old) (rkst w) of
                        None \<Rightarrow> (- EFAULT, w)
                      | Some k \<Rightarrow> (ret, w\<lparr>rkst := k\<rparr>))
                   else (ret, w)
               | None \<Rightarrow> (ret, w)))"

end
