(* ===== verification/RlimitProperties.thy ===== *)
theory RlimitProperties
  imports ResourceLimits
begin

text \<open>
  Guarantees of the resource limit calls: limits stay well formed, hard limits only go down
  without \<^verbatim>\<open>CAP_SYS_RESOURCE\<close>, failed calls change nothing, conversions saturate and round
  trip, and \<^verbatim>\<open>prlimit64\<close> exchanges the limits of the task it names.
\<close>

subsection \<open>The outcome of \<^verbatim>\<open>do_prlimit\<close>\<close>

text \<open>The limit that is stored: a CPU limit of zero seconds becomes one.\<close>

definition stored :: "nat \<Rightarrow> 'w::len word rlimit \<Rightarrow> 'w word rlimit" where
  "stored resource n = (if resource = RLIMIT_CPU \<and> rlim_cur n = 0 then n\<lparr>rlim_cur := 1\<rparr> else n)"

lemma do_prlimit_outcome:
  assumes "do_prlimit E tsk r new w = (ret, old, w')"
  shows "old = task_rlim w tsk r \<and> signal_of w' = signal_of w \<and> sighand w' = sighand w \<and>
    (ret \<noteq> 0 \<and> w' = w \<or>
     ret = 0 \<and> r < RLIM_NLIMITS \<and> sighand w tsk \<and>
     (case new of None \<Rightarrow> w' = w
      | Some n \<Rightarrow> rlim_cur n \<le> rlim_max n \<and>
          (rlim_max n \<le> rlim_max (task_rlim w tsk r) \<or> capable_sys_resource E (rkst w)) \<and>
          rlims w' = (rlims w)(signal_of w tsk := (task_rlim w tsk)(r := stored r n))))"
  using assms
  by (auto simp: do_prlimit_def Let_def stored_def not_le not_less split: if_splits option.splits)

text \<open>All calls that reach it, and one uniform fact about what they do to the limits.\<close>

datatype rcall =
    Getrlimit nat nat | Setrlimit nat nat | Compat_setrlimit nat nat | Compat_getrlimit nat nat
  | Old_getrlimit nat nat | Prlimit64 int nat "nat option" "nat option"

fun run_rcall :: "('w::len word, 'c, 'k) renv \<Rightarrow> rcall \<Rightarrow> ('w word, 'k) rworld \<Rightarrow> int \<times> ('w word, 'k) rworld" where
  "run_rcall E (Getrlimit r p) w = getrlimit E r p w"
| "run_rcall E (Setrlimit r p) w = setrlimit E r p w"
| "run_rcall E (Compat_setrlimit r p) w = compat_setrlimit E r p w"
| "run_rcall E (Compat_getrlimit r p) w = compat_getrlimit E r p w"
| "run_rcall E (Old_getrlimit r p) w = old_getrlimit E r p w"
| "run_rcall E (Prlimit64 pid r np op) w = prlimit64 E pid r np op w"

definition changes :: "('w::len word, 'c, 'k) renv \<Rightarrow> ('w word, 'k) rworld \<Rightarrow> ('w word, 'k) rworld \<Rightarrow> bool" where
  "changes E w w' \<longleftrightarrow> signal_of w' = signal_of w \<and> (rlims w' = rlims w \<or>
     (\<exists>g r n. rlims w' = (rlims w)(g := (rlims w g)(r := stored r n)) \<and> rlim_cur n \<le> rlim_max n \<and>
        (rlim_max n \<le> rlim_max (rlims w g r) \<or> capable_sys_resource E (rkst w))))"

lemma do_prlimit_changes: "changes E w (snd (snd (do_prlimit E tsk r new w)))"
proof -
  obtain ret old w' where "do_prlimit E tsk r new w = (ret, old, w')" by (metis prod_cases3)
  from do_prlimit_outcome [OF this] this show ?thesis unfolding changes_def task_rlim_def by (cases new) auto
qed

lemma changes_kst: "changes E w w' \<Longrightarrow> changes E w (w'\<lparr>rkst := k\<rparr>)"
  by (simp add: changes_def)

lemma changes_refl: "changes E w w"
  by (simp add: changes_def)

lemmas changes_simps = split_beta Let_def changes_refl do_prlimit_changes changes_kst

lemma rcall_changes: "changes E w (snd (run_rcall E c w))"
proof (cases c)
  case (Prlimit64 pid r np op)
  then show ?thesis by (simp add: prlimit64_def changes_simps split: option.split)
qed (simp_all add: getrlimit_def setrlimit_def compat_setrlimit_def compat_getrlimit_def old_getrlimit_def
      changes_simps split: option.split)

subsection \<open>Invariants\<close>

text \<open>
  A soft limit does not exceed its hard limit, except that a CPU limit of 0/0 is stored as 1/0.
\<close>

definition limit_ok :: "nat \<Rightarrow> 'w::len word rlimit \<Rightarrow> bool" where
  "limit_ok r l \<longleftrightarrow> rlim_cur l \<le> rlim_max l \<or> r = RLIMIT_CPU \<and> l = \<lparr>rlim_cur = 1, rlim_max = 0\<rparr>"

definition limits_ok :: "('w::len word, 'k) rworld \<Rightarrow> bool" where
  "limits_ok w \<longleftrightarrow> (\<forall>g r. limit_ok r (rlims w g r))"

lemma stored_ok:
  assumes "rlim_cur n \<le> rlim_max n"
  shows "limit_ok r (stored r n)"
proof (cases "r = RLIMIT_CPU \<and> rlim_cur n = 0")
  case True
  show ?thesis
  proof (cases "rlim_max n = 0")
    case False
    then have "1 \<le> rlim_max n" by (simp add: word_le_nat_alt Suc_le_eq unat_gt_0)
    then show ?thesis using True by (simp add: stored_def limit_ok_def)
  qed (use True in \<open>simp add: stored_def limit_ok_def\<close>)
qed (use assms in \<open>auto simp: stored_def limit_ok_def\<close>)

lemma stored_max [simp]: "rlim_max (stored r n) = rlim_max n"
  by (simp add: stored_def)

lemma changes_limits_ok: "changes E w w' \<Longrightarrow> limits_ok w \<Longrightarrow> limits_ok w'"
  by (auto simp: changes_def limits_ok_def stored_ok)

text \<open>Calls by any task, privileged or not, and calls by tasks without the capability.\<close>

inductive calls :: "('w::len word, 'c, 'k) renv \<Rightarrow> bool \<Rightarrow> ('w word, 'k) rworld \<Rightarrow> ('w word, 'k) rworld \<Rightarrow> bool"
  for E priv w where
  first: "calls E priv w w"
| more: "calls E priv w u \<Longrightarrow> priv \<or> \<not> capable_sys_resource E (rkst u)
    \<Longrightarrow> calls E priv w (snd (run_rcall (E\<lparr>current := c\<rparr>) call u))"

lemma changes_max:
  "changes E w w' \<Longrightarrow> \<not> capable_sys_resource E (rkst w) \<Longrightarrow> rlim_max (task_rlim w' tsk r) \<le> rlim_max (task_rlim w tsk r)"
  by (auto simp: changes_def task_rlim_def)

subsection \<open>Conversions\<close>

lemma unat_minus_1: "unat (- 1 :: 'w::len word) = 2 ^ LENGTH('w) - 1"
  by (simp add: unsigned_minus_1_eq_mask mask_eq_exp_minus_1)

lemma unat_ucast_up:
  fixes x :: "'w::len word"
  assumes "LENGTH('w) \<le> 64"
  shows "unat (ucast x :: u64) = unat x"
proof -
  have "unat x < 2 ^ LENGTH('w)" by (rule unsigned_less)
  also have "\<dots> \<le> 2 ^ 64" using assms by (intro power_increasing) auto
  finally show ?thesis by (simp add: unsigned_ucast_eq take_bit_eq_mod)
qed

lemma ucast_ones: "(ucast (- 1 :: u32) :: u64) = 4294967295"
proof -
  have "unat (ucast (- 1 :: u32) :: u64) = unat (4294967295 :: u64)"
    using unat_ucast_up [of "- 1 :: u32"] by (simp add: unat_minus_1)
  then show ?thesis by (simp add: word_unat_eq_iff)
qed

lemma to_ulong_saturates:
  assumes "LENGTH('w::len) \<le> 64"
  shows "unat (if rlim64_is_infinity TYPE('w) v then - 1 else ucast v :: 'w word) = min (unat v) (2 ^ LENGTH('w) - 1)"
proof -
  have lt: "unat v < 2 ^ 64" using unsigned_less [of v] by simp
  have inf: "rlim64_is_infinity TYPE('w) v \<longleftrightarrow> 2 ^ LENGTH('w) - 1 \<le> unat v"
  proof (cases "LENGTH('w) < 64")
    case True
    then show ?thesis
      using unat_ucast_up [OF assms, of "- 1"] by (simp add: rlim64_is_infinity_def word_le_nat_alt unat_minus_1)
  next
    case False
    then have L: "LENGTH('w) = 64" using assms by simp
    have "v = - 1 \<longleftrightarrow> unat v = unat (- 1 :: u64)" by (simp add: word_unat_eq_iff)
    then show ?thesis using lt by (simp add: rlim64_is_infinity_def L unat_minus_1) linarith
  qed
  show ?thesis
  proof (cases "rlim64_is_infinity TYPE('w) v")
    case True
    then show ?thesis using inf by (simp add: unat_minus_1)
  next
    case False
    then have "unat v < 2 ^ LENGTH('w) - 1" using inf by simp
    then show ?thesis using False by (simp add: unsigned_ucast_eq take_bit_eq_mod)
  qed
qed

lemma to_ulong_inverse:
  fixes x :: "'w::len word"
  assumes "LENGTH('w) \<le> 64"
  defines "y \<equiv> (if x = - 1 then - 1 else ucast x :: u64)"
  shows "(if rlim64_is_infinity TYPE('w) y then - 1 else ucast y) = x"
proof -
  have "(2::nat) ^ LENGTH('w) \<le> 2 ^ 64" using assms(1) by (intro power_increasing) auto
  moreover have "unat x < 2 ^ LENGTH('w)" by (rule unsigned_less)
  then have "unat x \<le> 2 ^ LENGTH('w) - 1" by linarith
  ultimately have "min (unat y) (2 ^ LENGTH('w) - 1) = unat x"
    using unat_ucast_up [OF assms(1), of x]
    by (auto simp: y_def unat_minus_1 min_def)
  then show ?thesis using to_ulong_saturates [OF assms(1), of y] by (simp add: word_unat_eq_iff)
qed

subsection \<open>A concrete system\<close>

text \<open>
  A 32-bit kernel: the structure at a user address holds the address in both fields, address
  0 faults, and the kernel records the limits it writes to user memory.
\<close>

definition demo_renv :: "bool \<Rightarrow> (u32, unit, u64 rlimit list) renv" where
  "demo_renv cap = \<lparr>current = 0, sysctl_nr_open = 4096, posix_timers = True,
     capable_sys_resource = (\<lambda>k. cap), ns_capable_sys_resource = (\<lambda>t k. cap),
     security_task_setrlimit = (\<lambda>t r l k. 0), security_task_prlimit = (\<lambda>c d rd wr k. 0),
     task_cred = (\<lambda>t. \<lparr>uid = 5, gid = 5, suid = 5, sgid = 5, euid = 5, egid = 5, fsuid = 5, fsgid = 5, user = 5, security = ()\<rparr>),
     find_task_by_vpid = (\<lambda>p k. if p < 10 then Some (nat p) else None),
     update_rlimit_cpu = (\<lambda>t v k. k),
     copy_rlimit_from_user = (\<lambda>p k. if p = 0 then None else Some \<lparr>rlim_cur = of_nat p, rlim_max = of_nat p\<rparr>),
     copy_rlimit_to_user = (\<lambda>p l k. Some k),
     copy_rlimit64_from_user = (\<lambda>p k. if p = 0 then None else Some \<lparr>rlim_cur = of_nat p, rlim_max = of_nat p\<rparr>),
     copy_rlimit64_to_user = (\<lambda>p l k. Some (k @ [l])),
     copy_compat_from_user = (\<lambda>p k. None), copy_compat_to_user = (\<lambda>p l k. None)\<rparr>"

definition demo_world :: "u32 \<Rightarrow> u32 \<Rightarrow> (u32, u64 rlimit list) rworld" where
  "demo_world c m = \<lparr>signal_of = (\<lambda>t. t div 2), rlims = (\<lambda>t r. \<lparr>rlim_cur = c, rlim_max = m\<rparr>), sighand = (\<lambda>t. True), rkst = []\<rparr>"

subsection \<open>Guarantees\<close>

text \<open>
  C28: Resource limits stay well formed. Whatever sequence of limit calls the tasks of the system
  make, privileged or not, no soft limit ever exceeds its hard limit, with the single
  exception of a CPU limit of zero seconds, which is stored as one second under a hard limit
  of zero.
\<close>

theorem limits_stay_ok:
  assumes "calls E priv w u" and "limits_ok w"
  shows "limits_ok u"
  using assms by induction (auto intro: changes_limits_ok [OF rcall_changes])

theorem limits_stay_ok_witness:
  "limits_ok (snd (run_rcall (demo_renv False\<lparr>current := 3\<rparr>) (Setrlimit 7 50) (demo_world 10 100)))"
  by (rule limits_stay_ok [OF calls.more [OF calls.first, of True]])
    (simp_all add: limits_ok_def limit_ok_def demo_world_def)

text \<open>
  C29: Without \<^verbatim>\<open>CAP_SYS_RESOURCE\<close> hard limits only go down. Over any sequence of limit calls, none
  of them made with the capability, no task's hard limit for any resource is higher after
  than before.
\<close>

theorem hard_limits_only_drop:
  assumes "calls E False w u"
  shows "rlim_max (task_rlim u tsk r) \<le> rlim_max (task_rlim w tsk r)"
  using assms
proof induction
  case (more u c call)
  have "rlim_max (task_rlim (snd (run_rcall (E\<lparr>current := c\<rparr>) call u)) tsk r) \<le> rlim_max (task_rlim u tsk r)"
    by (rule changes_max [OF rcall_changes]) (use more.hyps(2) in simp)
  then show ?case using more.IH by simp
qed simp

theorem hard_limits_only_drop_witness:
  "rlim_max (task_rlim (snd (run_rcall (demo_renv False\<lparr>current := 3\<rparr>) (Setrlimit 7 50) (demo_world 10 100))) 3 7) \<le> 100"
  using hard_limits_only_drop [OF calls.more [OF calls.first], of "demo_renv False" "demo_world 10 100" 3 "Setrlimit 7 50" 3 7]
  by (simp add: demo_renv_def) (simp add: demo_world_def task_rlim_def)

text \<open>
  A CPU limit of zero breaks the order of the limits. Setting \<^verbatim>\<open>RLIMIT_CPU\<close> to 0/0 is accepted
  from every task (the hard limit is not raised), and stores a soft limit of one second
  above a hard limit of zero.
\<close>

theorem cpu_limit_zero_exceeds_hard_limit:
  assumes "sighand w tsk" and "security_task_setrlimit E tsk RLIMIT_CPU \<lparr>rlim_cur = 0, rlim_max = 0\<rparr> (rkst w) = 0"
  shows "\<exists>w'. do_prlimit E tsk RLIMIT_CPU (Some \<lparr>rlim_cur = 0, rlim_max = 0\<rparr>) w = (0, task_rlim w tsk RLIMIT_CPU, w') \<and>
    rlim_max (task_rlim w' tsk RLIMIT_CPU) < rlim_cur (task_rlim w' tsk RLIMIT_CPU)"
  using assms by (simp add: do_prlimit_def task_rlim_def Let_def RLIMIT_CPU_def RLIM_NLIMITS_def RLIMIT_NOFILE_def not_less)

theorem cpu_limit_zero_exceeds_hard_limit_witness:
  "\<exists>w'. do_prlimit (demo_renv False) 0 RLIMIT_CPU (Some \<lparr>rlim_cur = 0, rlim_max = 0\<rparr>) (demo_world 10 100)
      = (0, task_rlim (demo_world 10 100) 0 RLIMIT_CPU, w') \<and>
    rlim_max (task_rlim w' 0 RLIMIT_CPU) < rlim_cur (task_rlim w' 0 RLIMIT_CPU)"
  by (rule cpu_limit_zero_exceeds_hard_limit) (simp_all add: demo_renv_def demo_world_def)

text \<open>
  Converting a 64-bit limit to the kernel's \<^verbatim>\<open>unsigned long\<close> saturates instead of truncating:
  the result is the smaller of the limit and the largest \<^verbatim>\<open>unsigned long\<close> (infinity). And a
  kernel limit that is sent out as 64 bits and read back is unchanged. Both hold for kernels
  whose \<^verbatim>\<open>unsigned long\<close> has at most 64 bits.
\<close>

theorem rlimit64_conversion_saturates:
  fixes l :: "'w::len word rlimit"
  assumes "LENGTH('w) \<le> 64"
  shows "unat (rlim_cur (rlim64_to_rlim l64 :: 'w word rlimit)) = min (unat (rlim_cur l64)) (2 ^ LENGTH('w) - 1) \<and>
    unat (rlim_max (rlim64_to_rlim l64 :: 'w word rlimit)) = min (unat (rlim_max l64)) (2 ^ LENGTH('w) - 1) \<and>
    (rlim64_to_rlim (rlim_to_rlim64 l) :: 'w word rlimit) = l"
  unfolding rlim64_to_rlim_def rlim_to_rlim64_def rlimit.select_convs to_ulong_saturates [OF assms]
    to_ulong_inverse [OF assms]
  by simp

theorem rlimit64_conversion_saturates_witness:
  "unat (rlim_cur (rlim64_to_rlim \<lparr>rlim_cur = 4294967301, rlim_max = 4294967301\<rparr> :: u32 rlimit)) = 4294967295 \<and>
   rlim64_to_rlim (rlim_to_rlim64 \<lparr>rlim_cur = 7, rlim_max = - 1 :: u32\<rparr>) = \<lparr>rlim_cur = 7, rlim_max = - 1 :: u32\<rparr>"
  using rlimit64_conversion_saturates [of "\<lparr>rlim_cur = 4294967301, rlim_max = 4294967301\<rparr>"
      "\<lparr>rlim_cur = 7, rlim_max = - 1 :: u32\<rparr>"]
  by simp

text \<open>
  A successful \<^verbatim>\<open>prlimit64\<close> with both pointers given found the task, had permission, stored the
  new limit (saturated) for exactly its thread group and that resource, and wrote the previous limit of
  that task to the caller.
\<close>

theorem prlimit64_exchanges:
  assumes "prlimit64 E pid r (Some np) (Some op) w = (0, w')" and "copy_rlimit64_from_user E np (rkst w) = Some n64"
  shows "\<exists>tsk k. (if pid = 0 then tsk = current E else find_task_by_vpid E pid (rkst w) = Some tsk) \<and>
    check_prlimit_permission E tsk True True (rkst w) = 0 \<and>
    rlims w' = (rlims w)(signal_of w tsk := (task_rlim w tsk)(r := stored r (rlim64_to_rlim n64))) \<and>
    copy_rlimit64_to_user E op (rlim_to_rlim64 (task_rlim w tsk r)) k = Some (rkst w')"
proof -
  from assms obtain tsk where tsk: "(if pid = 0 then Some (current E) else find_task_by_vpid E pid (rkst w)) = Some tsk"
    and perm: "check_prlimit_permission E tsk True True (rkst w) = 0"
    by (auto simp: prlimit64_def Let_def split: if_splits option.splits)
  obtain ret old u where do: "do_prlimit E tsk r (Some (rlim64_to_rlim n64)) w = (ret, old, u)"
    by (cases "do_prlimit E tsk r (Some (rlim64_to_rlim n64)) w") auto
  have fin: "ret = 0 \<and> (\<exists>k. copy_rlimit64_to_user E op (rlim_to_rlim64 old) (rkst u) = Some k \<and> w' = u\<lparr>rkst := k\<rparr>)"
    using assms tsk perm do by (simp add: prlimit64_def Let_def split: if_splits option.splits)
  then obtain k where k: "copy_rlimit64_to_user E op (rlim_to_rlim64 old) (rkst u) = Some k" "w' = u\<lparr>rkst := k\<rparr>" by blast
  have "rlims u = (rlims w)(signal_of w tsk := (task_rlim w tsk)(r := stored r (rlim64_to_rlim n64))) \<and> old = task_rlim w tsk r"
    using do_prlimit_outcome [OF do] fin by simp
  then show ?thesis
    using tsk perm k by (intro exI [of _ tsk] exI [of _ "rkst u"]) (simp split: if_splits)
qed

theorem prlimit64_exchanges_witness:
  "rkst (snd (prlimit64 (demo_renv False) 4 7 (Some 50) (Some 1) (demo_world 10 100))) = [\<lparr>rlim_cur = 10, rlim_max = 100\<rparr>]"
  using prlimit64_exchanges [of "demo_renv False" 4 7 50 1 "demo_world 10 100"
      "snd (prlimit64 (demo_renv False) 4 7 (Some 50) (Some 1) (demo_world 10 100))" "\<lparr>rlim_cur = 50, rlim_max = 50\<rparr>"]
  by (simp add: prlimit64_def demo_renv_def demo_world_def task_rlim_def do_prlimit_def Let_def check_prlimit_permission_def
      RLIM_NLIMITS_def RLIMIT_NOFILE_def RLIMIT_CPU_def rlim64_to_rlim_def rlim64_is_infinity_def rlim_to_rlim64_def
      ucast_ones)

end
