(* ===== verification/ProcessGroups.thy ===== *)
theory ProcessGroups
  imports Prelude
begin

text \<open>
  Process groups and sessions (\<^verbatim>\<open>src/HW2/Ques5/sys.c\<close>: \<^verbatim>\<open>setpgid\<close>, \<^verbatim>\<open>getpgid\<close>, \<^verbatim>\<open>getpgrp\<close>,
  \<^verbatim>\<open>getsid\<close>, \<^verbatim>\<open>setsid\<close> and \<^verbatim>\<open>set_special_pids\<close>).

  A task and its \<^verbatim>\<open>struct pid\<close> are the same natural number. The table \<open>ptasks\<close> holds the fields
  the code reads; group and session are those of the thread group leader, as
  \<^verbatim>\<open>task_pgrp\<close> and \<^verbatim>\<open>task_session\<close> return them. The PID tables, the security hooks and the
  terminal and scheduler notifications are parameters (record \<open>penv\<close>, laws in the locale
  \<open>pid_kernel\<close>). Locks are not modelled: the calls hold the task list lock throughout.
\<close>

subsection \<open>Data\<close>

record ptask =
  group_leader :: nat
  real_parent :: nat
  pgrp :: nat
  session :: nat
  sig_leader :: bool
  forknoexec :: bool

record 'k pworld =
  ptasks :: "nat \<Rightarrow> ptask"
  live :: "nat list"
  pkst :: 'k

record 'k penv =
  current_leader :: nat
  find_task_by_vpid :: "int \<Rightarrow> 'k pworld \<Rightarrow> nat option"
  find_vpid :: "int \<Rightarrow> 'k pworld \<Rightarrow> nat option"
  pid_task_pgid :: "nat option \<Rightarrow> 'k pworld \<Rightarrow> nat option"
  pid_vnr :: "nat \<Rightarrow> int"
  change_pid_pgid :: "nat \<Rightarrow> nat \<Rightarrow> 'k pworld \<Rightarrow> 'k pworld"
  change_pid_sid :: "nat \<Rightarrow> nat \<Rightarrow> 'k pworld \<Rightarrow> 'k pworld"
  security_task_setpgid :: "nat \<Rightarrow> int \<Rightarrow> 'k pworld \<Rightarrow> int"
  security_task_getpgid :: "nat \<Rightarrow> 'k pworld \<Rightarrow> int"
  security_task_getsid :: "nat \<Rightarrow> 'k pworld \<Rightarrow> int"
  proc_clear_tty :: "nat \<Rightarrow> 'k pworld \<Rightarrow> 'k pworld"
  proc_sid_connector :: "nat \<Rightarrow> 'k pworld \<Rightarrow> 'k pworld"
  sched_autogroup_create_attach :: "nat \<Rightarrow> 'k pworld \<Rightarrow> 'k pworld"

text \<open>The group and the session of a task that is being released are the NULL pointer.\<close>

definition NULL_PID :: nat where "NULL_PID = 0"

definition leader_of :: "'k pworld \<Rightarrow> nat \<Rightarrow> ptask" where
  "leader_of w p = ptasks w (group_leader (ptasks w p))"

definition task_pgrp :: "'k pworld \<Rightarrow> nat \<Rightarrow> nat" where
  "task_pgrp w p = pgrp (leader_of w p)"

definition task_session :: "'k pworld \<Rightarrow> nat \<Rightarrow> nat" where
  "task_session w p = session (leader_of w p)"

definition same_thread_group :: "'k pworld \<Rightarrow> nat \<Rightarrow> nat \<Rightarrow> bool" where
  "same_thread_group w p q \<longleftrightarrow> group_leader (ptasks w p) = group_leader (ptasks w q)"

subsection \<open>Operations\<close>

text \<open>The checks on the task before the group is looked at; 0 if it may be moved.\<close>

definition setpgid_check :: "'k penv \<Rightarrow> nat \<Rightarrow> 'k pworld \<Rightarrow> int" where
  "setpgid_check E p w =
     (if group_leader (ptasks w p) \<noteq> p then - EINVAL
      else if same_thread_group w (real_parent (ptasks w p)) (current_leader E) then
        if task_session w p \<noteq> task_session w (current_leader E) then - EPERM
        else if \<not> forknoexec (ptasks w p) then - EACCES
        else if sig_leader (ptasks w p) then - EPERM else 0
      else if p \<noteq> current_leader E then - ESRCH
      else if sig_leader (ptasks w p) then - EPERM else 0)"

text \<open>The group to join: the task's own, or an existing group of the caller's session.\<close>

definition setpgid_target :: "'k penv \<Rightarrow> nat \<Rightarrow> int \<Rightarrow> int \<Rightarrow> 'k pworld \<Rightarrow> nat option" where
  "setpgid_target E p pid pgid w =
     (if pgid = pid then Some p
      else let grp = find_vpid E pgid w in
        case pid_task_pgid E grp w of
          None \<Rightarrow> None
        | Some g \<Rightarrow> if task_session w g \<noteq> task_session w (current_leader E) then None else grp)"

definition setpgid :: "'k penv \<Rightarrow> int \<Rightarrow> int \<Rightarrow> 'k pworld \<Rightarrow> int \<times> 'k pworld" where
  "setpgid E pid_a pgid_a w =
     (let pid = (if pid_a = 0 then pid_vnr E (current_leader E) else pid_a);
          pgid = (if pgid_a = 0 then pid else pgid_a) in
      if pgid < 0 then (- EINVAL, w)
      else case find_task_by_vpid E pid w of
        None \<Rightarrow> (- ESRCH, w)
      | Some p \<Rightarrow>
          let err = setpgid_check E p w in
          if err \<noteq> 0 then (err, w)
          else case setpgid_target E p pid pgid w of
            None \<Rightarrow> (- EPERM, w)
          | Some grp \<Rightarrow>
              let err = security_task_setpgid E p pgid w in
              if err \<noteq> 0 then (err, w)
              else (0, if task_pgrp w p \<noteq> grp then change_pid_pgid E p grp w else w))"

definition getpgid :: "'k penv \<Rightarrow> nat \<Rightarrow> int \<Rightarrow> 'k pworld \<Rightarrow> int" where
  "getpgid E cur pid w =
     (if pid = 0 then pid_vnr E (task_pgrp w cur)
      else case find_task_by_vpid E pid w of
        None \<Rightarrow> - ESRCH
      | Some p \<Rightarrow>
          if task_pgrp w p = NULL_PID then - ESRCH
          else let retval = security_task_getpgid E p w in
          if retval \<noteq> 0 then retval else pid_vnr E (task_pgrp w p))"

definition getpgrp :: "'k penv \<Rightarrow> nat \<Rightarrow> 'k pworld \<Rightarrow> int" where
  "getpgrp E cur w = getpgid E cur 0 w"

definition getsid :: "'k penv \<Rightarrow> nat \<Rightarrow> int \<Rightarrow> 'k pworld \<Rightarrow> int" where
  "getsid E cur pid w =
     (if pid = 0 then pid_vnr E (task_session w cur)
      else case find_task_by_vpid E pid w of
        None \<Rightarrow> - ESRCH
      | Some p \<Rightarrow>
          if task_session w p = NULL_PID then - ESRCH
          else let retval = security_task_getsid E p w in
          if retval \<noteq> 0 then retval else pid_vnr E (task_session w p))"

definition set_special_pids :: "'k penv \<Rightarrow> nat \<Rightarrow> 'k pworld \<Rightarrow> 'k pworld" where
  "set_special_pids E pid w =
     (let curr = current_leader E;
          w = (if task_session w curr \<noteq> pid then change_pid_sid E curr pid w else w)
      in if task_pgrp w curr \<noteq> pid then change_pid_pgid E curr pid w else w)"

definition setsid :: "'k penv \<Rightarrow> 'k pworld \<Rightarrow> int \<times> 'k pworld" where
  "setsid E w =
     (let gl = current_leader E;
          sid = gl;
          sess = pid_vnr E sid in
      if sig_leader (ptasks w gl) then (- EPERM, w)
      else if pid_task_pgid E (Some sid) w \<noteq> None then (- EPERM, w)
      else let w = w\<lparr>ptasks := (ptasks w)(gl := (ptasks w gl)\<lparr>sig_leader := True\<rparr>)\<rparr>;
               w = set_special_pids E sid w;
               w = proc_clear_tty E gl w;
               w = (if sess > 0 then sched_autogroup_create_attach E gl (proc_sid_connector E gl w) else w)
           in (sess, w))"

subsection \<open>The kernel interface\<close>

text \<open>Processes: live tasks that lead their thread group.\<close>

definition proc :: "'k pworld \<Rightarrow> nat \<Rightarrow> bool" where
  "proc w p \<longleftrightarrow> p \<in> set (live w) \<and> group_leader (ptasks w p) = p"

locale pid_kernel =
  fixes E :: "'k penv"
  assumes find_task: "find_task_by_vpid E n w = Some p \<Longrightarrow> p \<in> set (live w) \<and> pid_vnr E p = n"
    and find_pid: "find_vpid E n w = Some g \<Longrightarrow> pid_vnr E g = n"
    and member: "pid_task_pgid E (Some g) w = Some q \<Longrightarrow> proc w q \<and> pgrp (ptasks w q) = g"
    and no_member: "pid_task_pgid E (Some g) w = None \<Longrightarrow> proc w q \<Longrightarrow> pgrp (ptasks w q) \<noteq> g"
    and null_pid: "pid_task_pgid E None w = None"
    and change_pgid: "ptasks (change_pid_pgid E p g w) = (ptasks w)(p := (ptasks w p)\<lparr>pgrp := g\<rparr>)"
      "live (change_pid_pgid E p g w) = live w"
    and change_sid: "ptasks (change_pid_sid E p g w) = (ptasks w)(p := (ptasks w p)\<lparr>session := g\<rparr>)"
      "live (change_pid_sid E p g w) = live w"
    and tty: "ptasks (proc_clear_tty E p w) = ptasks w" "live (proc_clear_tty E p w) = live w"
    and connector: "ptasks (proc_sid_connector E p w) = ptasks w" "live (proc_sid_connector E p w) = live w"
    and autogroup: "ptasks (sched_autogroup_create_attach E p w) = ptasks w"
      "live (sched_autogroup_create_attach E p w) = live w"

text \<open>
  No group spans two sessions: members of a group share a session, and if the process that
  gave the group its number is alive, it is in that session too.
\<close>

definition sessions_ok :: "'k pworld \<Rightarrow> bool" where
  "sessions_ok w \<longleftrightarrow>
     (\<forall>p q. proc w p \<longrightarrow> proc w q \<longrightarrow> pgrp (ptasks w p) = pgrp (ptasks w q) \<longrightarrow>
        session (ptasks w p) = session (ptasks w q)) \<and>
     (\<forall>q. proc w q \<longrightarrow> proc w (pgrp (ptasks w q)) \<longrightarrow>
        session (ptasks w q) = session (ptasks w (pgrp (ptasks w q))))"

lemma group_session:
  "sessions_ok w \<Longrightarrow> proc w p \<Longrightarrow> proc w q \<Longrightarrow> pgrp (ptasks w p) = pgrp (ptasks w q) \<Longrightarrow>
    session (ptasks w p) = session (ptasks w q)"
  unfolding sessions_ok_def by blast

lemma number_session:
  "sessions_ok w \<Longrightarrow> proc w q \<Longrightarrow> pgrp (ptasks w q) = g \<Longrightarrow> proc w g \<Longrightarrow> session (ptasks w q) = session (ptasks w g)"
  unfolding sessions_ok_def by blast

lemma proc_task [simp]:
  "proc w p \<Longrightarrow> task_pgrp w p = pgrp (ptasks w p)" "proc w p \<Longrightarrow> task_session w p = session (ptasks w p)"
  by (simp_all add: proc_def task_pgrp_def task_session_def leader_of_def)

lemma setpgid_cases:
  fixes E :: "'k penv" and w :: "'k pworld"
  defines "pid \<equiv> \<lambda>a. if a = 0 then pid_vnr E (current_leader E) else a"
  shows "fst (setpgid E a b w) \<noteq> 0 \<and> snd (setpgid E a b w) = w \<or>
   (\<exists>p grp. find_task_by_vpid E (pid a) w = Some p \<and> setpgid_check E p w = 0 \<and>
      setpgid_target E p (pid a) (if b = 0 then pid a else b) w = Some grp \<and>
      setpgid E a b w = (0, if task_pgrp w p \<noteq> grp then change_pid_pgid E p grp w else w))"
proof -
  define P where "P = pid a"
  define G where "G = (if b = 0 then P else b)"
  have run: "setpgid E a b w = (if G < 0 then (- EINVAL, w) else case find_task_by_vpid E P w of
        None \<Rightarrow> (- ESRCH, w)
      | Some p \<Rightarrow> if setpgid_check E p w \<noteq> 0 then (setpgid_check E p w, w)
          else case setpgid_target E p P G w of
            None \<Rightarrow> (- EPERM, w)
          | Some grp \<Rightarrow> if security_task_setpgid E p G w \<noteq> 0 then (security_task_setpgid E p G w, w)
              else (0, if task_pgrp w p \<noteq> grp then change_pid_pgid E p grp w else w))"
    by (simp only: setpgid_def Let_def G_def P_def pid_def)
  show ?thesis
    unfolding run P_def [symmetric] G_def [symmetric] by (simp split: option.split) blast
qed

context pid_kernel
begin

lemma target_session:
  assumes ok: "sessions_ok w" and gl: "proc w (current_leader E)" and p: "proc w p"
    and s: "session (ptasks w p) = session (ptasks w (current_leader E))"
    and t: "setpgid_target E p pid pgid w = Some grp" and q: "proc w q" "pgrp (ptasks w q) = grp \<or> q = grp \<and> proc w grp"
  shows "session (ptasks w q) = session (ptasks w p)"
proof (cases "pgid = pid")
  case True
  then have "grp = p" using t by (simp add: setpgid_target_def)
  then show ?thesis using number_session [OF ok q(1) _ p] q(2) by blast
next
  case False
  then obtain g where g: "find_vpid E pgid w = Some grp" "pid_task_pgid E (Some grp) w = Some g"
    "task_session w g = task_session w (current_leader E)"
    using t null_pid by (auto simp: setpgid_target_def Let_def split: option.splits if_splits)
  have m: "proc w g" "pgrp (ptasks w g) = grp" using member [OF g(2)] by auto
  then have sg: "session (ptasks w g) = session (ptasks w p)" using g(3) gl s by simp
  from q(2) show ?thesis
  proof
    assume "pgrp (ptasks w q) = grp"
    then show ?thesis using group_session [OF ok q(1) m(1)] m(2) sg by simp
  next
    assume "q = grp \<and> proc w grp"
    then show ?thesis using number_session [OF ok m] sg by simp
  qed
qed

lemma check_session:
  assumes "setpgid_check E p w = 0" and "proc w (current_leader E)" and "p \<in> set (live w)"
  shows "proc w p \<and> session (ptasks w p) = session (ptasks w (current_leader E))"
proof -
  have p: "proc w p" using assms(1,3) by (auto simp: setpgid_check_def proc_def split: if_splits)
  then show ?thesis using assms(1,2) by (auto simp: setpgid_check_def split: if_splits)
qed

lemma setpgid_ok:
  assumes ok: "sessions_ok w" and gl: "proc w (current_leader E)"
  shows "sessions_ok (snd (setpgid E a b w)) \<and> (\<forall>q. proc (snd (setpgid E a b w)) q = proc w q)"
proof -
  have step: "sessions_ok (change_pid_pgid E p grp w) \<and> (\<forall>q. proc (change_pid_pgid E p grp w) q = proc w q)"
    if "find_task_by_vpid E pid w = Some p" "setpgid_check E p w = 0" "setpgid_target E p pid pgid w = Some grp" for p grp pid pgid
  proof -
    have p: "proc w p" "session (ptasks w p) = session (ptasks w (current_leader E))"
      using check_session [OF that(2) gl] find_task [OF that(1)] by auto
    have same: "proc (change_pid_pgid E p grp w) q = proc w q" for q by (simp add: proc_def change_pgid)
    note ts = target_session [OF ok gl p that(3)]
    let ?P = "ptasks (change_pid_pgid E p grp w)"
    have ses: "session (?P q) = session (ptasks w q)" for q by (simp add: change_pgid)
    have pg: "pgrp (?P q) = (if q = p then grp else pgrp (ptasks w q))" for q by (simp add: change_pgid)
    have "session (ptasks w x) = session (ptasks w y)" if "proc w x" "proc w y" "pgrp (?P x) = pgrp (?P y)" for x y
      using that ts [of x] ts [of y] group_session [OF ok, of x y] by (simp add: pg split: if_splits)
    moreover have "session (ptasks w x) = session (ptasks w (pgrp (?P x)))" if "proc w x" "proc w (pgrp (?P x))" for x
      using that ts [of grp] number_session [OF ok, of x] by (simp add: pg split: if_splits)
    ultimately have "sessions_ok (change_pid_pgid E p grp w)"
      unfolding sessions_ok_def ses same by blast
    then show ?thesis using same by simp
  qed
  from setpgid_cases [of E a b w] show ?thesis
  proof (elim disjE conjE exE)
    assume "snd (setpgid E a b w) = w"
    then show ?thesis using ok by simp
  next
    fix p grp
    assume *: "find_task_by_vpid E (if a = 0 then pid_vnr E (current_leader E) else a) w = Some p"
      "setpgid_check E p w = 0"
      "setpgid_target E p (if a = 0 then pid_vnr E (current_leader E) else a)
        (if b = 0 then if a = 0 then pid_vnr E (current_leader E) else a else b) w = Some grp"
      and c: "setpgid E a b w = (0, if task_pgrp w p \<noteq> grp then change_pid_pgid E p grp w else w)"
    from step [OF *] ok show ?thesis unfolding c by (cases "task_pgrp w p \<noteq> grp") simp_all
  qed
qed

lemma setsid_ok:
  assumes ok: "sessions_ok w" and gl: "proc w (current_leader E)"
  shows "sessions_ok (snd (setsid E w)) \<and> (\<forall>q. proc (snd (setsid E w)) q = proc w q)"
proof (cases "sig_leader (ptasks w (current_leader E)) \<or> pid_task_pgid E (Some (current_leader E)) w \<noteq> None")
  case True
  then show ?thesis using ok by (auto simp: setsid_def Let_def)
next
  case False
  define c where "c = current_leader E"
  define u where "u = snd (setsid E w)"
  have nm: "proc w q \<Longrightarrow> pgrp (ptasks w q) \<noteq> c" for q using False no_member [of c w q] by (simp add: c_def)
  have lead: "group_leader (ptasks w c) = c" using gl by (simp add: proc_def c_def)
  have u: "ptasks u = (ptasks w)(c := (ptasks w c)\<lparr>pgrp := c, session := c, sig_leader := True\<rparr>)" "live u = live w"
    using False lead
    by (auto simp: u_def setsid_def Let_def c_def [symmetric] set_special_pids_def tty connector autogroup change_pgid
        change_sid task_pgrp_def task_session_def leader_of_def fun_eq_iff)
  have same: "proc u q = proc w q" for q by (simp add: proc_def u)
  have ses: "session (ptasks u q) = (if q = c then c else session (ptasks w q))" for q by (simp add: u)
  have pg: "pgrp (ptasks u q) = (if q = c then c else pgrp (ptasks w q))" for q by (simp add: u)
  have "session (ptasks u x) = session (ptasks u y)" if "proc w x" "proc w y" "pgrp (ptasks u x) = pgrp (ptasks u y)" for x y
    using that nm [of x] nm [of y] group_session [OF ok, of x y] by (simp add: ses pg split: if_splits)
  moreover have "session (ptasks u x) = session (ptasks u (pgrp (ptasks u x)))" if "proc w x" "proc w (pgrp (ptasks u x))" for x
    using that nm [of x] number_session [OF ok, of x] by (simp add: ses pg split: if_splits)
  ultimately have "sessions_ok u" unfolding sessions_ok_def same by blast
  then show ?thesis using same by (simp add: u_def)
qed

end

subsection \<open>Sequences of calls\<close>

text \<open>Calls made by any live processes, one after the other.\<close>

inductive pruns :: "'k penv \<Rightarrow> 'k pworld \<Rightarrow> 'k pworld \<Rightarrow> bool" for E w where
  none: "pruns E w w"
| group: "pruns E w u \<Longrightarrow> proc u c \<Longrightarrow> pruns E w (snd (setpgid (E\<lparr>current_leader := c\<rparr>) a b u))"
| session: "pruns E w u \<Longrightarrow> proc u c \<Longrightarrow> pruns E w (snd (setsid (E\<lparr>current_leader := c\<rparr>) u))"

lemma pid_kernel_caller: "pid_kernel E \<Longrightarrow> pid_kernel (E\<lparr>current_leader := c\<rparr>)"
  by (simp add: pid_kernel_def)

subsection \<open>A concrete kernel\<close>

definition demo_penv :: "unit penv" where
  "demo_penv = \<lparr>current_leader = 1,
     find_task_by_vpid = (\<lambda>n w. if 0 \<le> n \<and> nat n \<in> set (live w) then Some (nat n) else None),
     find_vpid = (\<lambda>n w. if 0 \<le> n then Some (nat n) else None),
     pid_task_pgid = (\<lambda>g w. Option.bind g (\<lambda>g. List.find (\<lambda>q. group_leader (ptasks w q) = q \<and> pgrp (ptasks w q) = g) (live w))),
     pid_vnr = int,
     change_pid_pgid = (\<lambda>p g w. w\<lparr>ptasks := (ptasks w)(p := (ptasks w p)\<lparr>pgrp := g\<rparr>)\<rparr>),
     change_pid_sid = (\<lambda>p g w. w\<lparr>ptasks := (ptasks w)(p := (ptasks w p)\<lparr>session := g\<rparr>)\<rparr>),
     security_task_setpgid = (\<lambda>_ _ _. 0), security_task_getpgid = (\<lambda>_ _. 0), security_task_getsid = (\<lambda>_ _. 0),
     proc_clear_tty = (\<lambda>_ w. w), proc_sid_connector = (\<lambda>_ w. w), sched_autogroup_create_attach = (\<lambda>_ w. w)\<rparr>"

interpretation demo_pids: pid_kernel demo_penv
  by unfold_locales (auto simp: demo_penv_def proc_def find_Some_iff find_None_iff split: if_splits)

definition demo_pworld :: "unit pworld" where
  "demo_pworld = \<lparr>ptasks = (\<lambda>p. \<lparr>group_leader = p, real_parent = 1, pgrp = 1, session = 1, sig_leader = p = 1,
     forknoexec = True\<rparr>), live = [1, 2, 3], pkst = ()\<rparr>"

subsection \<open>Guarantees\<close>

text \<open>
  C30: Process groups never span sessions. Starting from tables in which the members of each group
  share a session (with the process the group is named after, if it lives), every sequence
  of \<^verbatim>\<open>setpgid\<close> and \<^verbatim>\<open>setsid\<close> calls by live processes leads to tables with the same property.
\<close>

theorem groups_never_span_sessions:
  assumes "pid_kernel E" and "pruns E w u" and "sessions_ok w"
  shows "sessions_ok u"
  using assms(2,3)
proof induction
  case (group u c a b)
  then show ?case using pid_kernel.setpgid_ok [OF pid_kernel_caller [OF assms(1), of c], of u a b] by (simp add: proc_def)
next
  case (session u c)
  then show ?case using pid_kernel.setsid_ok [OF pid_kernel_caller [OF assms(1), of c], of u] by (simp add: proc_def)
qed

theorem groups_never_span_sessions_witness:
  "sessions_ok (snd (setsid (demo_penv\<lparr>current_leader := 2\<rparr>)
    (snd (setpgid (demo_penv\<lparr>current_leader := 1\<rparr>) 3 0 demo_pworld))))"
proof (rule groups_never_span_sessions [OF demo_pids.pid_kernel_axioms])
  have "proc demo_pworld 1" by (simp add: proc_def demo_pworld_def)
  from pruns.group [OF pruns.none this]
  show "pruns demo_penv demo_pworld (snd (setsid (demo_penv\<lparr>current_leader := 2\<rparr>)
      (snd (setpgid (demo_penv\<lparr>current_leader := 1\<rparr>) 3 0 demo_pworld))))"
    by (rule pruns.session) (simp add: proc_def demo_pworld_def setpgid_def demo_penv_def setpgid_check_def
        setpgid_target_def same_thread_group_def task_session_def task_pgrp_def leader_of_def)
  show "sessions_ok demo_pworld" by (simp add: sessions_ok_def demo_pworld_def proc_def)
qed

text \<open>
  A successful \<^verbatim>\<open>setpgid\<close> moves exactly the named process. The call found the process (the
  caller itself for 0), which is a thread group leader, no session leader, the caller or an
  unexeced child of it in its session; the process is then in the group with the requested
  number (its own number for 0), and no other task changed.
\<close>

theorem setpgid_moves_process:
  assumes "pid_kernel E" and "proc w (current_leader E)" and "setpgid E a b w = (0, w')"
  shows "\<exists>p. find_task_by_vpid E (if a = 0 then pid_vnr E (current_leader E) else a) w = Some p \<and> proc w p \<and>
    \<not> sig_leader (ptasks w p) \<and>
    (p = current_leader E \<or> same_thread_group w (real_parent (ptasks w p)) (current_leader E) \<and> forknoexec (ptasks w p)) \<and>
    session (ptasks w p) = session (ptasks w (current_leader E)) \<and>
    pid_vnr E (pgrp (ptasks w' p)) = (if b = 0 then pid_vnr E p else b) \<and> (\<forall>q. q \<noteq> p \<longrightarrow> ptasks w' q = ptasks w q)"
proof -
  define pid where "pid = (if a = 0 then pid_vnr E (current_leader E) else a)"
  define pgid where "pgid = (if b = 0 then pid else b)"
  from setpgid_cases [of E a b w] assms(3) obtain p grp where p: "find_task_by_vpid E pid w = Some p"
    and c: "setpgid_check E p w = 0" and g: "setpgid_target E p pid pgid w = Some grp"
    and w': "w' = (if task_pgrp w p \<noteq> grp then change_pid_pgid E p grp w else w)"
    unfolding pid_def [symmetric] pgid_def [symmetric] by auto
  have pr: "proc w p" "session (ptasks w p) = session (ptasks w (current_leader E))"
    using pid_kernel.check_session [OF assms(1) c assms(2)] pid_kernel.find_task [OF assms(1) p] by auto
  have vp: "pid_vnr E p = pid" using pid_kernel.find_task [OF assms(1) p] by simp
  have "pid_vnr E grp = pgid"
    using g vp pid_kernel.find_pid [OF assms(1)] by (auto simp: setpgid_target_def Let_def split: if_splits option.splits)
  moreover have "pgrp (ptasks w' p) = grp \<and> (\<forall>q. q \<noteq> p \<longrightarrow> ptasks w' q = ptasks w q)"
    using w' pr(1) pid_kernel.change_pgid [OF assms(1)] by auto
  moreover have "\<not> sig_leader (ptasks w p) \<and> (p = current_leader E \<or>
      same_thread_group w (real_parent (ptasks w p)) (current_leader E) \<and> forknoexec (ptasks w p))"
    using c by (auto simp: setpgid_check_def split: if_splits)
  ultimately show ?thesis using p pr vp by (intro exI [of _ p]) (simp add: pid_def [symmetric] pgid_def)
qed

theorem setpgid_moves_process_witness:
  "fst (setpgid demo_penv 3 0 demo_pworld) = 0 \<and> pgrp (ptasks (snd (setpgid demo_penv 3 0 demo_pworld)) 3) = 3"
proof -
  have ok: "setpgid demo_penv 3 0 demo_pworld = (0, snd (setpgid demo_penv 3 0 demo_pworld))"
    by (simp add: demo_pworld_def setpgid_def demo_penv_def setpgid_check_def setpgid_target_def same_thread_group_def
        task_session_def task_pgrp_def leader_of_def)
  have "proc demo_pworld (current_leader demo_penv)" by (simp add: proc_def demo_pworld_def demo_penv_def)
  from setpgid_moves_process [OF demo_pids.pid_kernel_axioms this ok] obtain p where
    p: "find_task_by_vpid demo_penv 3 demo_pworld = Some p"
      "pid_vnr demo_penv (pgrp (ptasks (snd (setpgid demo_penv 3 0 demo_pworld)) p)) = pid_vnr demo_penv p" by auto
  have "p = 3" using p(1) by (simp add: demo_penv_def demo_pworld_def)
  moreover have "pid_vnr demo_penv = int" by (simp add: demo_penv_def)
  ultimately show ?thesis using ok p(2) by (metis fst_conv of_nat_eq_iff)
qed

end
