(* ===== verification/Priority.thy ===== *)
theory Priority
  imports Credentials
begin

text \<open>
  Scheduling priorities (\<^verbatim>\<open>src/HW2/Ques5/sys.c\<close>: \<^verbatim>\<open>set_one_prio_perm\<close>, \<^verbatim>\<open>set_one_prio\<close>,
  \<^verbatim>\<open>setpriority\<close>, \<^verbatim>\<open>getpriority\<close>).

  The task and user tables, capabilities, security hooks and the scheduler are parameters
  (record \<open>nenv\<close>, laws in the locale \<open>nice_kernel\<close>); the threads of a group and of the system
  are given in the order in which the kernel's iteration macros visit them. Locks are not
  modelled.
\<close>

subsection \<open>Data\<close>

record 'k nworld =
  nice :: "nat \<Rightarrow> int"
  nkst :: 'k

record ('c, 'k) nenv =
  current_task :: nat
  cred_of :: "nat \<Rightarrow> 'c cred"
  ns_capable_sys_nice :: "nat \<Rightarrow> 'k nworld \<Rightarrow> bool"
  can_nice :: "nat \<Rightarrow> int \<Rightarrow> 'k nworld \<Rightarrow> bool"
  security_task_setnice :: "nat \<Rightarrow> int \<Rightarrow> 'k nworld \<Rightarrow> int"
  set_user_nice :: "nat \<Rightarrow> int \<Rightarrow> 'k nworld \<Rightarrow> 'k nworld"
  task_of_vpid :: "int \<Rightarrow> nat option"
  threads_of_vpgrp :: "int \<Rightarrow> nat list"
  threads_of_own_pgrp :: "nat list"
  all_threads :: "nat list"
  task_pid_vnr :: "nat \<Rightarrow> int"
  kuid_of :: "int \<Rightarrow> u32"
  find_user :: "u32 \<Rightarrow> 'k nworld \<Rightarrow> nat option \<times> 'k nworld"
  put_found_user :: "nat \<Rightarrow> 'k nworld \<Rightarrow> 'k nworld"

abbreviation (input) PRIO_PROCESS :: int where "PRIO_PROCESS \<equiv> 0"
abbreviation (input) PRIO_PGRP :: int where "PRIO_PGRP \<equiv> 1"
abbreviation (input) PRIO_USER :: int where "PRIO_USER \<equiv> 2"
abbreviation (input) MIN_NICE :: int where "MIN_NICE \<equiv> - 20"
abbreviation (input) MAX_NICE :: int where "MAX_NICE \<equiv> 19"

text \<open>\<^verbatim>\<open>nice_to_rlimit\<close>: nice values 19 to -20 as 1 to 40.\<close>

definition nice_to_rlimit :: "int \<Rightarrow> int" where
  "nice_to_rlimit n = MAX_NICE - n + 1"

subsection \<open>Operations\<close>

definition set_one_prio_perm :: "('c, 'k) nenv \<Rightarrow> nat \<Rightarrow> 'k nworld \<Rightarrow> bool" where
  "set_one_prio_perm E p w =
     (let c = cred_of E (current_task E); pc = cred_of E p in
      if uid pc = euid c \<or> euid pc = euid c then True
      else if ns_capable_sys_nice E p w then True
      else False)"

definition set_one_prio :: "('c, 'k) nenv \<Rightarrow> nat \<Rightarrow> int \<Rightarrow> int \<Rightarrow> 'k nworld \<Rightarrow> int \<times> 'k nworld" where
  "set_one_prio E p niceval error w =
     (if \<not> set_one_prio_perm E p w then (- EPERM, w)
      else if niceval < nice w p \<and> \<not> can_nice E p niceval w then (- EACCES, w)
      else let no_nice = security_task_setnice E p niceval w in
      if no_nice \<noteq> 0 then (no_nice, w)
      else (if error = - ESRCH then 0 else error, set_user_nice E p niceval w))"

text \<open>The body of the iteration macros: each visited thread that is selected, in turn.\<close>

fun set_prio_all :: "('c, 'k) nenv \<Rightarrow> (nat \<Rightarrow> bool) \<Rightarrow> int \<Rightarrow> nat list \<Rightarrow> int \<Rightarrow> 'k nworld \<Rightarrow> int \<times> 'k nworld" where
  "set_prio_all E sel niceval [] error w = (error, w)"
| "set_prio_all E sel niceval (p # ps) error w =
     (let (error, w) = (if sel p then set_one_prio E p niceval error w else (error, w))
      in set_prio_all E sel niceval ps error w)"

definition clamp_nice :: "int \<Rightarrow> int" where
  "clamp_nice niceval =
     (let niceval = (if niceval < MIN_NICE then MIN_NICE else niceval)
      in if niceval > MAX_NICE then MAX_NICE else niceval)"

text \<open>Threads of a user that are visible in the caller's PID namespace.\<close>

definition of_user :: "('c, 'k) nenv \<Rightarrow> u32 \<Rightarrow> nat \<Rightarrow> bool" where
  "of_user E u p \<longleftrightarrow> uid (cred_of E p) = u \<and> task_pid_vnr E p \<noteq> 0"

definition setpriority :: "('c, 'k) nenv \<Rightarrow> int \<Rightarrow> int \<Rightarrow> int \<Rightarrow> 'k nworld \<Rightarrow> int \<times> 'k nworld" where
  "setpriority E which who niceval_a w =
     (if which > PRIO_USER \<or> which < PRIO_PROCESS then (- EINVAL, w)
      else let niceval = clamp_nice niceval_a; error = - ESRCH; c = cred_of E (current_task E) in
      if which = PRIO_PROCESS then
        (case (if who \<noteq> 0 then task_of_vpid E who else Some (current_task E)) of
           None \<Rightarrow> (error, w)
         | Some p \<Rightarrow> set_one_prio E p niceval error w)
      else if which = PRIO_PGRP then
        set_prio_all E (\<lambda>_. True) niceval (if who \<noteq> 0 then threads_of_vpgrp E who else threads_of_own_pgrp E) error w
      else let u = (if who = 0 then uid c else kuid_of E who) in
        if u = uid c then set_prio_all E (of_user E u) niceval (all_threads E) error w
        else (case find_user E u w of
           (None, w) \<Rightarrow> (error, w)
         | (Some usr, w) \<Rightarrow>
             let (error, w) = set_prio_all E (of_user E u) niceval (all_threads E) error w
             in (error, put_found_user E usr w)))"

text \<open>The largest value among the selected threads, starting from \<open>retval\<close>.\<close>

fun max_prio :: "(nat \<Rightarrow> bool) \<Rightarrow> nat list \<Rightarrow> int \<Rightarrow> 'k nworld \<Rightarrow> int" where
  "max_prio sel [] retval w = retval"
| "max_prio sel (p # ps) retval w =
     max_prio sel ps
       (if sel p then let niceval = nice_to_rlimit (nice w p) in if niceval > retval then niceval else retval
        else retval) w"

definition getpriority :: "('c, 'k) nenv \<Rightarrow> int \<Rightarrow> int \<Rightarrow> 'k nworld \<Rightarrow> int \<times> 'k nworld" where
  "getpriority E which who w =
     (if which > PRIO_USER \<or> which < PRIO_PROCESS then (- EINVAL, w)
      else let retval = - ESRCH; c = cred_of E (current_task E) in
      if which = PRIO_PROCESS then
        (case (if who \<noteq> 0 then task_of_vpid E who else Some (current_task E)) of
           None \<Rightarrow> (retval, w)
         | Some p \<Rightarrow> (max_prio (\<lambda>_. True) [p] retval w, w))
      else if which = PRIO_PGRP then
        (max_prio (\<lambda>_. True) (if who \<noteq> 0 then threads_of_vpgrp E who else threads_of_own_pgrp E) retval w, w)
      else let u = (if who = 0 then uid c else kuid_of E who) in
        if u = uid c then (max_prio (of_user E u) (all_threads E) retval w, w)
        else (case find_user E u w of
           (None, w) \<Rightarrow> (retval, w)
         | (Some usr, w) \<Rightarrow> (max_prio (of_user E u) (all_threads E) retval w, put_found_user E usr w)))"

subsection \<open>The kernel interface\<close>

text \<open>
  The scheduler sets the nice value it is given; user lookups leave nice values alone; what
  a task may do does not depend on the nice values set so far.
\<close>

locale nice_kernel =
  fixes E :: "('c, 'k) nenv"
  assumes set_nice: "nice (set_user_nice E p n w) = (nice w)(p := n)"
    and user_lookup: "find_user E u w = (x, w') \<Longrightarrow> nice w' = nice w"
    and user_put: "nice (put_found_user E i w) = nice w"
    and capability_fixed: "ns_capable_sys_nice E p w = ns_capable_sys_nice E p w'"
    and ability_fixed: "can_nice E p n w = can_nice E p n w'"
begin

text \<open>What a change of one task's nice value has to respect.\<close>

definition allowed :: "int \<Rightarrow> 'k nworld \<Rightarrow> 'k nworld \<Rightarrow> bool" where
  "allowed n w w' \<longleftrightarrow> (\<forall>p. nice w' p = nice w p \<or>
     nice w' p = n \<and> set_one_prio_perm E p w \<and> (nice w p \<le> n \<or> can_nice E p n w))"

lemma perm_fixed: "set_one_prio_perm E p w = set_one_prio_perm E p w'"
  unfolding set_one_prio_perm_def capability_fixed [of p w w'] by simp

lemma allowed_trans: "allowed n w u \<Longrightarrow> allowed n u v \<Longrightarrow> allowed n w v"
  unfolding allowed_def perm_fixed [of _ u w] ability_fixed [of _ _ u w] by metis

lemma set_one_prio_allowed: "allowed n w (snd (set_one_prio E p n e w))"
  by (auto simp: allowed_def set_one_prio_def Let_def set_nice not_less)

lemma set_prio_all_allowed: "allowed n w (snd (set_prio_all E sel n ps e w))"
proof (induction ps arbitrary: e w)
  case (Cons p ps)
  obtain e' w' where r: "(if sel p then set_one_prio E p n e w else (e, w)) = (e', w')" by fastforce
  then have "allowed n w w'"
    using set_one_prio_allowed [of n w p e] by (auto simp: allowed_def split: if_splits)
  then show ?case using Cons.IH [of w' e'] allowed_trans by (simp add: r)
qed (simp add: allowed_def)

lemma allowed_same: "nice w = nice u \<Longrightarrow> nice w' = nice u' \<Longrightarrow> allowed n u u' \<Longrightarrow> allowed n w w'"
  unfolding allowed_def perm_fixed [of _ w u] ability_fixed [of _ _ w u] by simp

lemma allowed_refl: "allowed n w w"
  by (simp add: allowed_def)

lemma setpriority_allowed: "allowed (clamp_nice n) w (snd (setpriority E which who n w))"
proof -
  have user: "allowed (clamp_nice n) w (snd (case find_user E u w of
      (None, w) \<Rightarrow> (e, w)
    | (Some usr, w) \<Rightarrow> let (error, w) = set_prio_all E sel (clamp_nice n) ps e w in (error, put_found_user E usr w)))"
    for u e sel ps
  proof (cases "find_user E u w")
    case (Pair x w')
    note f = user_lookup [OF Pair]
    show ?thesis
    proof (cases x)
      case None
      then show ?thesis using allowed_same [OF _ f allowed_refl] Pair by simp
    next
      case (Some usr)
      show ?thesis
        using allowed_same [OF f [symmetric] user_put set_prio_all_allowed] Pair Some by (simp add: split_beta)
    qed
  qed
  show ?thesis
    unfolding setpriority_def Let_def
    by (auto simp: allowed_refl set_one_prio_allowed set_prio_all_allowed user [unfolded Let_def] split: option.split)
qed

end

lemma clamp_nice_range: "- 20 \<le> clamp_nice n \<and> clamp_nice n \<le> 19"
  by (simp add: clamp_nice_def Let_def)

subsection \<open>A concrete kernel\<close>

definition demo_nenv :: "u32 \<Rightarrow> (unit, unit) nenv" where
  "demo_nenv me = \<lparr>current_task = 1,
     cred_of = (\<lambda>p. let u = (if p = 1 then me else 7) in \<lparr>uid = u, gid = u, suid = u, sgid = u, euid = u, egid = u,
       fsuid = u, fsgid = u, user = 0, security = ()\<rparr>),
     ns_capable_sys_nice = (\<lambda>p w. False), can_nice = (\<lambda>p n w. n \<ge> 0), security_task_setnice = (\<lambda>p n w. 0),
     set_user_nice = (\<lambda>p n w. w\<lparr>nice := (nice w)(p := n)\<rparr>),
     task_of_vpid = (\<lambda>n. if 0 < n \<and> n < 5 then Some (nat n) else None),
     threads_of_vpgrp = (\<lambda>n. [1, 2]), threads_of_own_pgrp = [1, 2], all_threads = [1, 2, 3, 4],
     task_pid_vnr = int, kuid_of = word_of_int, find_user = (\<lambda>u w. (Some 0, w)), put_found_user = (\<lambda>i w. w)\<rparr>"

interpretation demo_nice: nice_kernel "demo_nenv me" for me
  by unfold_locales (auto simp: demo_nenv_def)

subsection \<open>Guarantees\<close>

text \<open>
  \<^verbatim>\<open>setpriority\<close> changes only what the caller may change. Whatever \<^verbatim>\<open>which\<close> and \<^verbatim>\<open>who\<close> select, a task
  whose nice value differs after the call has the requested value, limited to -20..19; the
  caller's effective user ID is the task's real or effective one or the caller has
  \<^verbatim>\<open>CAP_SYS_NICE\<close>; and the value did not go down unless the task may be given that nice value.
\<close>

theorem setpriority_respects_permissions:
  assumes "nice_kernel E" and "nice (snd (setpriority E which who n w)) p \<noteq> nice w p"
  shows "nice (snd (setpriority E which who n w)) p = clamp_nice n \<and> - 20 \<le> clamp_nice n \<and> clamp_nice n \<le> 19 \<and>
    (uid (cred_of E p) = euid (cred_of E (current_task E)) \<or> euid (cred_of E p) = euid (cred_of E (current_task E)) \<or>
      ns_capable_sys_nice E p w) \<and>
    (nice w p \<le> clamp_nice n \<or> can_nice E p (clamp_nice n) w)"
proof -
  have "nice (snd (setpriority E which who n w)) p = clamp_nice n \<and> set_one_prio_perm E p w \<and>
      (nice w p \<le> clamp_nice n \<or> can_nice E p (clamp_nice n) w)"
    using nice_kernel.setpriority_allowed [OF assms(1), of n w which who] assms(2)
    unfolding nice_kernel.allowed_def [OF assms(1)] by blast
  then show ?thesis using clamp_nice_range [of n] by (auto simp: set_one_prio_perm_def Let_def split: if_splits)
qed

theorem setpriority_respects_permissions_witness:
  "nice (snd (setpriority (demo_nenv 7) 2 0 50 \<lparr>nice = (\<lambda>_. 0), nkst = ()\<rparr>)) 3 = 19 \<and>
   uid (cred_of (demo_nenv 7) 3) = euid (cred_of (demo_nenv 7) (current_task (demo_nenv 7)))"
  using setpriority_respects_permissions [OF demo_nice.nice_kernel_axioms [of 7], where which = 2 and who = 0 and n = 50
      and p = 3 and w = "\<lparr>nice = (\<lambda>_. 0), nkst = ()\<rparr>"]
  by (simp add: setpriority_def demo_nenv_def of_user_def set_one_prio_def set_one_prio_perm_def Let_def clamp_nice_def)

text \<open>
  \<^verbatim>\<open>getpriority\<close> reads what \<^verbatim>\<open>setpriority\<close> set, shifted to stay positive. After a successful
  \<^verbatim>\<open>setpriority\<close> of one process, \<^verbatim>\<open>getpriority\<close> of that process returns 20 minus the nice value
  limited to -20..19: a number from 1 to 40, which no error code collides with.
\<close>

theorem setpriority_getpriority:
  assumes "nice_kernel E" and "setpriority E 0 who n w = (0, w')"
  shows "fst (getpriority E 0 who w') = 20 - clamp_nice n \<and> 1 \<le> 20 - clamp_nice n \<and> 20 - clamp_nice n \<le> 40"
proof -
  from assms(2) obtain p where p: "(if who \<noteq> 0 then task_of_vpid E who else Some (current_task E)) = Some p"
    and s: "set_one_prio E p (clamp_nice n) (- 3) w = (0, w')"
    by (simp add: setpriority_def Let_def split: option.splits)
  have "w' = set_user_nice E p (clamp_nice n) w"
    using s by (auto simp: set_one_prio_def Let_def split: if_splits)
  then have "nice w' p = clamp_nice n" by (simp add: nice_kernel.set_nice [OF assms(1)])
  then show ?thesis using p clamp_nice_range [of n] by (simp add: getpriority_def Let_def nice_to_rlimit_def)
qed

theorem setpriority_getpriority_witness:
  "fst (getpriority (demo_nenv 7) 0 2 (snd (setpriority (demo_nenv 7) 0 2 5 \<lparr>nice = (\<lambda>_. 0), nkst = ()\<rparr>))) = 15"
  using setpriority_getpriority [OF demo_nice.nice_kernel_axioms [of 7], where who = 2 and n = 5
      and w = "\<lparr>nice = (\<lambda>_. 0), nkst = ()\<rparr>"
      and w' = "snd (setpriority (demo_nenv 7) 0 2 5 \<lparr>nice = (\<lambda>_. 0), nkst = ()\<rparr>)"]
  by (simp add: setpriority_def demo_nenv_def set_one_prio_def set_one_prio_perm_def Let_def clamp_nice_def)

end
