(* ===== verification/SensorBus.thy ===== *)
theory SensorBus
  imports Complex_Main Prelude
begin

text \<open>
  The temperature sensor of the firmware (\<^verbatim>\<open>src/HW5/CCS_Homework5/i2cHelper.c\<close>,
  \<^verbatim>\<open>tempSensor.c\<close>, \<^verbatim>\<open>LED.c\<close>): the I2C transaction with its busy-wait loops and the conversion of the
  register value.

  Calls of the vendor's driver library are recorded in a trace, in order and with their
  arguments; what the hardware answers is a parameter (record \<open>i2c_hw\<close>), a function of the
  calls made so far: the readings of the busy flag, numbered from the last call on, and the
  byte in the data register. A busy-wait loop that never sees the value it waits for does not
  end (\<^const>\<open>None\<close>). The
  floating point result is given as a rational number: it is a multiple of one sixteenth with
  a 13-bit numerator, which the 24-bit significand of a \<^verbatim>\<open>float\<close> represents exactly.
\<close>

unbundle bit_operations_syntax

datatype i2c_cmd = I2C_MASTER_CMD_SINGLE_SEND | I2C_MASTER_CMD_BURST_RECEIVE_START
  | I2C_MASTER_CMD_BURST_RECEIVE_FINISH

datatype drv =
    SysCtlPeripheralEnable string
  | GPIOPinConfigure string
  | GPIOPinTypeI2CSCL string string
  | GPIOPinTypeI2C string string
  | I2CMasterInitExpClk string bool
  | I2CMasterSlaveAddrSet u8 bool
  | I2CMasterDataPut u8
  | I2CMasterControl i2c_cmd
  | GPIOPinTypeGPIOOutput string u8
  | GPIOPinWrite string u8 u8

record i2c_hw =
  I2CMasterBusy :: "drv list \<Rightarrow> nat \<Rightarrow> bool"
  I2CMasterDataGet :: "drv list \<Rightarrow> u32"

text \<open>The driver calls made, and how often the busy flag was read since the last of them.\<close>

record bus =
  polls :: nat
  trace :: "drv list"

definition call_drv :: "drv list \<Rightarrow> bus \<Rightarrow> bus" where
  "call_drv ds b = b\<lparr>trace := trace b @ ds, polls := 0\<rparr>"

definition I2CInit :: "bus \<Rightarrow> bus" where
  "I2CInit = call_drv
     [SysCtlPeripheralEnable ''I2C2'', SysCtlPeripheralEnable ''GPION'',
      GPIOPinConfigure ''PN4_I2C2SDA'', GPIOPinConfigure ''PN5_I2C2SCL'',
      GPIOPinTypeI2CSCL ''PORTN'' ''PIN_5'', GPIOPinTypeI2C ''PORTN'' ''PIN_4'',
      I2CMasterInitExpClk ''I2C2'' False]"

text \<open>\<open>wait_for b\<close> is the loop that polls the busy flag until it reads \<open>b\<close>.\<close>

partial_function (option) poll :: "(nat \<Rightarrow> bool) \<Rightarrow> bool \<Rightarrow> nat \<Rightarrow> nat option" where
  "poll busy b n = (if busy n = b then Some (n + 1) else poll busy b (n + 1))"

definition wait_for :: "i2c_hw \<Rightarrow> bool \<Rightarrow> bus \<Rightarrow> bus option" where
  "wait_for H b s = map_option (\<lambda>n. s\<lparr>polls := n\<rparr>) (poll (I2CMasterBusy H (trace s)) b (polls s))"

text \<open>Start a transfer and wait: \<^verbatim>\<open>BUSY_WAIT\<close> is defined, so both loops are compiled.\<close>

definition transfer :: "i2c_hw \<Rightarrow> i2c_cmd \<Rightarrow> bus \<Rightarrow> bus option" where
  "transfer H cmd s = do {
     s \<leftarrow> wait_for H True (call_drv [I2CMasterControl cmd] s);
     wait_for H False s
   }"

definition I2CGet2Bytes :: "i2c_hw \<Rightarrow> u8 \<Rightarrow> u8 \<Rightarrow> bus \<Rightarrow> (u16 \<times> bus) option" where
  "I2CGet2Bytes H target_address register_address s = do {
     let s = call_drv [I2CMasterSlaveAddrSet target_address False, I2CMasterDataPut register_address] s;
     s \<leftarrow> transfer H I2C_MASTER_CMD_SINGLE_SEND s;
     let s = call_drv [I2CMasterSlaveAddrSet target_address True] s;
     s \<leftarrow> transfer H I2C_MASTER_CMD_BURST_RECEIVE_START s;
     let data_one = I2CMasterDataGet H (trace s);
     s \<leftarrow> transfer H I2C_MASTER_CMD_BURST_RECEIVE_FINISH s;
     let data_two = I2CMasterDataGet H (trace s);
     Some (ucast ((push_bit 8 data_one) OR data_two), s)
   }"

definition SLAVE_ADDRESS_TMP102 :: u8 where "SLAVE_ADDRESS_TMP102 = 0x48"
definition TEMP_REG_ADDR :: u8 where "TEMP_REG_ADDR = 0x00"

definition decode :: "u16 \<Rightarrow> u16" where
  "decode tempReg =
     (if tempReg AND 0x01 \<noteq> 0 then drop_bit 3 (tempReg AND 0xFFF8)
      else drop_bit 4 (tempReg AND 0xFFF0))"

definition readTemp :: "i2c_hw \<Rightarrow> bus \<Rightarrow> (rat \<times> bus) option" where
  "readTemp H s = do {
     (tempReg, s) \<leftarrow> I2CGet2Bytes H SLAVE_ADDRESS_TMP102 TEMP_REG_ADDR s;
     Some (of_nat (unat (decode tempReg)) * (1 / 16), s)
   }"

subsection \<open>Busy waiting\<close>

text \<open>The loop ends exactly if the awaited value is read at some point.\<close>

lemma poll_hit: "busy n = b \<Longrightarrow> poll busy b n = Some (n + 1)"
  by (subst poll.simps) simp

lemma poll_until:
  assumes "n \<le> k" and "\<And>i. n \<le> i \<Longrightarrow> i < k \<Longrightarrow> busy i \<noteq> b" and "busy k = b"
  shows "poll busy b n = Some (k + 1)"
  using assms(1,2)
proof (induction "k - n" arbitrary: n)
  case 0
  then have "n = k" by simp
  then show ?case using assms(3) by (simp add: poll_hit)
next
  case (Suc d)
  then have "busy n \<noteq> b" "poll busy b (n + 1) = Some (k + 1)" by auto
  then show ?case by (subst poll.simps) simp
qed

lemma poll_Some_hit: "poll busy b n = Some k \<Longrightarrow> \<exists>i \<ge> n. busy i = b"
proof (erule poll.raw_induct [where P = "\<lambda>busy b n k. \<exists>i \<ge> n. busy i = b", rotated])
  fix f and busy :: "nat \<Rightarrow> bool" and b n and k :: nat
  assume IH: "\<And>busy b n k. f busy b n = Some k \<Longrightarrow> \<exists>i \<ge> n. busy i = b"
    and run: "(if busy n = b then Some (n + 1) else f busy b (n + 1)) = Some k"
  show "\<exists>i \<ge> n. busy i = b"
  proof (cases "busy n = b")
    case False
    with run have "f busy b (n + 1) = Some k" by simp
    from IH [OF this] show ?thesis by (metis Suc_eq_plus1 Suc_leD)
  qed blast
qed

lemma poll_never: "(\<And>i. n \<le> i \<Longrightarrow> busy i \<noteq> b) \<Longrightarrow> poll busy b n = None"
  using poll_Some_hit [of busy b n] by (cases "poll busy b n") auto

subsection \<open>The transaction\<close>

text \<open>
  The busy flag as the data sheet and its erratum I2C#08 describe it: after a command has been
  written, the flag still reads idle for a while (\<open>lat\<close> readings), then busy while the
  transfer lasts (\<open>dur\<close> readings), then idle. Both depend on the command and on how fast the
  task polls; \<open>dur\<close> is 0 when the transfer began and ended between two readings, for example
  because the task was preempted, or never began.
\<close>

definition busy_timing :: "i2c_hw \<Rightarrow> (drv list \<Rightarrow> nat) \<Rightarrow> (drv list \<Rightarrow> nat) \<Rightarrow> bool" where
  "busy_timing H lat dur \<longleftrightarrow> (\<forall>tr n. I2CMasterBusy H tr n \<longleftrightarrow> lat tr \<le> n \<and> n < lat tr + dur tr)"

lemma call_drv_simps [simp]:
  "polls (call_drv ds s) = 0" "trace (call_drv ds s) = trace s @ ds"
  by (simp_all add: call_drv_def)

lemma transfer_timing:
  assumes "busy_timing H lat dur"
  shows "transfer H cmd s = (let tr = trace s @ [I2CMasterControl cmd] in
    if 0 < dur tr then Some (s\<lparr>trace := tr, polls := lat tr + dur tr + 1\<rparr>) else None)"
proof -
  define tr where "tr = trace s @ [I2CMasterControl cmd]"
  have H: "I2CMasterBusy H tr n \<longleftrightarrow> lat tr \<le> n \<and> n < lat tr + dur tr" for n
    using assms by (simp add: busy_timing_def)
  show ?thesis
  proof (cases "0 < dur tr")
    case True
    have "poll (I2CMasterBusy H tr) True 0 = Some (lat tr + 1)"
      using True by (intro poll_until) (simp_all add: H)
    moreover have "poll (I2CMasterBusy H tr) False (lat tr + 1) = Some (lat tr + dur tr + 1)"
      using True by (intro poll_until) (simp_all add: H)
    ultimately show ?thesis
      using True by (simp add: transfer_def wait_for_def call_drv_def tr_def [symmetric] Let_def)
  next
    case False
    then have "poll (I2CMasterBusy H tr) True 0 = None" by (intro poll_never) (simp add: H)
    then show ?thesis using False by (simp add: transfer_def wait_for_def call_drv_def tr_def [symmetric] Let_def)
  qed
qed

text \<open>The driver calls of one register read, up to each of its three transfers.\<close>

definition send_calls :: "u8 \<Rightarrow> u8 \<Rightarrow> drv list" where
  "send_calls a r = [I2CMasterSlaveAddrSet a False, I2CMasterDataPut r, I2CMasterControl I2C_MASTER_CMD_SINGLE_SEND]"

definition first_byte_calls :: "u8 \<Rightarrow> u8 \<Rightarrow> drv list" where
  "first_byte_calls a r = send_calls a r @ [I2CMasterSlaveAddrSet a True, I2CMasterControl I2C_MASTER_CMD_BURST_RECEIVE_START]"

definition second_byte_calls :: "u8 \<Rightarrow> u8 \<Rightarrow> drv list" where
  "second_byte_calls a r = first_byte_calls a r @ [I2CMasterControl I2C_MASTER_CMD_BURST_RECEIVE_FINISH]"

text \<open>Each of the three transfers is seen busy by at least one reading.\<close>

definition all_seen :: "(drv list \<Rightarrow> nat) \<Rightarrow> drv list \<Rightarrow> u8 \<Rightarrow> u8 \<Rightarrow> bool" where
  "all_seen dur tr a r \<longleftrightarrow> 0 < dur (tr @ send_calls a r) \<and> 0 < dur (tr @ first_byte_calls a r) \<and>
     0 < dur (tr @ second_byte_calls a r)"

lemmas byte_calls = send_calls_def first_byte_calls_def second_byte_calls_def

lemma I2CGet2Bytes_timing:
  assumes "busy_timing H lat dur"
  shows "map_option (\<lambda>(w, s'). (w, trace s')) (I2CGet2Bytes H a r s) = (if all_seen dur (trace s) a r
    then Some (ucast (push_bit 8 (I2CMasterDataGet H (trace s @ first_byte_calls a r)) OR
      I2CMasterDataGet H (trace s @ second_byte_calls a r)), trace s @ second_byte_calls a r) else None)"
  by (simp add: I2CGet2Bytes_def transfer_timing [OF assms] Let_def all_seen_def byte_calls)

text \<open>Two bytes put together.\<close>

lemma unat_bytes:
  fixes hi lo :: u32
  assumes "unat hi < 256" and "unat lo < 256"
  shows "unat (ucast (push_bit 8 hi OR lo) :: u16) = 256 * unat hi + unat lo"
proof -
  have d: "bit (push_bit 8 hi) n \<Longrightarrow> \<not> bit lo n" for n
  proof -
    have "take_bit 8 (unat lo) = unat lo" using assms(2) by (simp add: take_bit_eq_mod)
    moreover have "bit (unat lo) n" if "bit lo n" using that by (simp add: bit_unsigned_iff)
    ultimately have "n < 8" if "bit lo n" using that by (metis bit_take_bit_iff)
    then show "bit (push_bit 8 hi) n \<Longrightarrow> \<not> bit lo n" by (auto simp: bit_push_bit_iff)
  qed
  have "push_bit 8 hi OR lo = push_bit 8 hi + lo"
    by (rule disjunctive_add [symmetric]) (use d in blast)
  moreover have "unat (push_bit 8 hi) = 256 * unat hi"
    using assms(1) by (simp add: push_bit_eq_mult unat_word_ariths)
  ultimately have "unat (push_bit 8 hi OR lo) = 256 * unat hi + unat lo"
    using assms by (simp add: unat_word_ariths)
  then show ?thesis using assms by (simp add: unsigned_ucast_eq take_bit_eq_mod)
qed

lemma decode_unat: "unat (decode r) = (if odd (unat r) then unat r div 8 else unat r div 16)"
proof -
  have m: "(0xFFF8 :: u16) = NOT (mask 3)" "(0xFFF0 :: u16) = NOT (mask 4)" by (simp_all add: mask_eq_exp_minus_1 not_eq_complement)
  have "drop_bit 3 (r AND 0xFFF8) = drop_bit 3 r" "drop_bit 4 (r AND 0xFFF0) = drop_bit 4 r"
    unfolding m by (rule bit_word_eqI; auto simp: bit_simps dest: bit_imp_le_length)+
  moreover have "r AND 1 \<noteq> 0 \<longleftrightarrow> odd (unat r)"
    by (simp add: and_one_eq mod_2_eq_odd bit_unsigned_iff flip: bit_0)
  moreover have "unat r < 65536" using unsigned_less [of r] by simp
  then have d: "unat (drop_bit k r) = drop_bit k (unat r)" for k
    by (simp add: unsigned_drop_bit_eq take_bit_nat_eq_self)
  have "unat (drop_bit 3 r) = unat r div 8" "unat (drop_bit 4 r) = unat r div 16"
    unfolding d by (simp_all add: drop_bit_eq_div)
  ultimately show ?thesis unfolding decode_def by presburger
qed

text \<open>
  The register contents the sensor documents for a temperature of \<open>n\<close> sixteenths of a degree:
  two's complement, left-justified, 12 bits (bit 0 clear) or 13 bits (bit 0 set).
\<close>

definition tmp102 :: "bool \<Rightarrow> int \<Rightarrow> u16" where
  "tmp102 extended n = (if extended then word_of_int (8 * n + 1) else word_of_int (16 * n))"

lemma decode_tmp102: "uint (decode (tmp102 ext n)) = n mod (if ext then 8192 else 4096)"
proof -
  have u: "unat (word_of_int k :: u16) = nat (k mod 65536)" for k
    by (simp add: unat_eq_nat_uint uint_word_of_int)
  have "unat (decode (tmp102 ext n)) = nat (n mod (if ext then 8192 else 4096))"
  proof (cases ext)
    case True
    obtain j where j: "n mod 8192 = int j" using nonneg_int_cases [of "n mod 8192"] by auto
    have "j < 8192" using pos_mod_bound [of 8192 n] j by simp
    moreover have "(8 * n) mod 65536 = 8 * int j" using mod_mult_mult1 [of 8 n 8192] j by simp
    ultimately have "(8 * n + 1) mod 65536 = 8 * (n mod 8192) + 1"
      using mod_add_left_eq [of "8 * n" 65536 1] j by simp
    moreover have "unat (tmp102 ext n) = nat ((8 * n + 1) mod 65536)" by (simp only: tmp102_def True if_True u)
    ultimately have "unat (tmp102 ext n) = 8 * j + 1" using j by (simp add: nat_add_distrib nat_mult_distrib)
    then show ?thesis using True j by (simp add: decode_unat)
  next
    case False
    obtain j where j: "n mod 4096 = int j" using nonneg_int_cases [of "n mod 4096"] by auto
    have "(16 * n) mod 65536 = 16 * (n mod 4096)" using mod_mult_mult1 [of 16 n 4096] by simp
    moreover have "unat (tmp102 ext n) = nat ((16 * n) mod 65536)" by (simp only: tmp102_def False if_False u)
    ultimately have "unat (tmp102 ext n) = 16 * j" using j by (simp add: nat_mult_distrib)
    then show ?thesis using False j by (simp add: decode_unat)
  qed
  then show ?thesis by (simp add: uint_nat)
qed

lemma mod_negative:
  fixes n m :: int
  assumes "n < 0" and "- m \<le> n"
  shows "n mod m = n + m"
proof -
  have "n mod m = (n + m) mod m" by simp
  also have "\<dots> = n + m" using assms by (intro mod_pos_pos_trivial) auto
  finally show ?thesis .
qed

lemma rat_of_word: "uint w = k \<Longrightarrow> (unsigned w :: rat) = of_int k" for w :: u16
  by (metis of_int_uint)

text \<open>
  What the sensor promises: after the calls of a register read the data register holds the
  high and then the low byte of the temperature register.
\<close>

definition sensor_shows :: "i2c_hw \<Rightarrow> drv list \<Rightarrow> u16 \<Rightarrow> bool" where
  "sensor_shows H tr reg \<longleftrightarrow>
     I2CMasterDataGet H (tr @ first_byte_calls SLAVE_ADDRESS_TMP102 TEMP_REG_ADDR) = word_of_nat (unat reg div 256) \<and>
     I2CMasterDataGet H (tr @ second_byte_calls SLAVE_ADDRESS_TMP102 TEMP_REG_ADDR) = word_of_nat (unat reg mod 256)"

lemma readTemp_decodes:
  assumes "busy_timing H lat dur" and "sensor_shows H (trace s) reg"
  shows "map_option fst (readTemp H s) = (if all_seen dur (trace s) SLAVE_ADDRESS_TMP102 TEMP_REG_ADDR
    then Some (of_nat (unat (decode reg)) / 16) else None)"
proof -
  define hi lo :: u32 where "hi = word_of_nat (unat reg div 256)" and "lo = word_of_nat (unat reg mod 256)"
  have "unat reg < 65536" using unsigned_less [of reg] by simp
  then have b: "unat hi = unat reg div 256" "unat lo = unat reg mod 256" by (simp_all add: hi_def lo_def unat_of_nat)
  then have "unat (ucast (push_bit 8 hi OR lo) :: u16) = unat reg"
    using unat_bytes [of hi lo] \<open>unat reg < 65536\<close> by simp
  then have w: "(ucast (push_bit 8 hi OR lo) :: u16) = reg" by (simp add: word_unat_eq_iff)
  have "map_option (\<lambda>(w, s'). (w, trace s')) (I2CGet2Bytes H SLAVE_ADDRESS_TMP102 TEMP_REG_ADDR s)
      = (if all_seen dur (trace s) SLAVE_ADDRESS_TMP102 TEMP_REG_ADDR
         then Some (reg, trace s @ second_byte_calls SLAVE_ADDRESS_TMP102 TEMP_REG_ADDR) else None)"
    using I2CGet2Bytes_timing [OF assms(1)] assms(2) w
    by (simp add: sensor_shows_def hi_def [symmetric] lo_def [symmetric])
  then show ?thesis
    by (cases "I2CGet2Bytes H SLAVE_ADDRESS_TMP102 TEMP_REG_ADDR s") (auto simp: readTemp_def split: if_splits)
qed

lemma readTemp_value:
  assumes "busy_timing H lat dur" and "sensor_shows H (trace s) (tmp102 extended n)"
    and "0 \<le> n" and "n < (if extended then 4096 else 2048)"
  shows "map_option fst (readTemp H s) = (if all_seen dur (trace s) SLAVE_ADDRESS_TMP102 TEMP_REG_ADDR
    then Some (of_int n / 16) else None)"
proof -
  have "uint (decode (tmp102 extended n)) = n"
    using assms(3,4) by (simp add: decode_tmp102 split: if_splits)
  from rat_of_word [OF this] show ?thesis using readTemp_decodes [OF assms(1,2)] by simp
qed

subsection \<open>Guarantees\<close>

text \<open>Hardware whose flag rises at the third reading and falls after \<open>k\<close> more.\<close>

definition demo_hw :: "nat \<Rightarrow> u16 \<Rightarrow> i2c_hw" where
  "demo_hw k reg = \<lparr>I2CMasterBusy = (\<lambda>tr n. 2 \<le> n \<and> n < 2 + k), I2CMasterDataGet = (\<lambda>tr. word_of_nat
     (if last tr = I2CMasterControl I2C_MASTER_CMD_BURST_RECEIVE_START then unat reg div 256 else unat reg mod 256))\<rparr>"

lemma demo_hw_timing: "busy_timing (demo_hw k reg) (\<lambda>_. 2) (\<lambda>_. k)"
  by (simp add: busy_timing_def demo_hw_def)

lemma demo_hw_shows: "sensor_shows (demo_hw k reg) tr reg"
  by (simp add: sensor_shows_def demo_hw_def byte_calls)

text \<open>
  C33: The register read, and when its busy-waits end. After each command the busy flag reads
  idle for some readings, then busy for some, then idle, as documented (\<^const>\<open>busy_timing\<close>); the
  sensor's register holds a temperature of \<open>n\<close> sixteenths of a degree, 0 or above, in 12-bit or
  13-bit format. Then \<^verbatim>\<open>readTemp\<close> returns \<open>n / 16\<close> degrees exactly if each of its three
  transfers is seen busy by at least one reading of the flag; if one of them begins and ends
  between two readings, the loop that waits for it to begin never ends and \<^verbatim>\<open>readTemp\<close> does not
  return.
\<close>

theorem readTemp_exact:
  assumes "busy_timing H lat dur" and "sensor_shows H (trace s) (tmp102 extended n)"
    and "0 \<le> n" and "n < (if extended then 4096 else 2048)"
  shows "map_option fst (readTemp H s) = (if all_seen dur (trace s) SLAVE_ADDRESS_TMP102 TEMP_REG_ADDR
    then Some (of_int n / 16) else None)"
  using assms by (rule readTemp_value)

theorem readTemp_exact_witness:
  "map_option fst (readTemp (demo_hw 3 (tmp102 False 400)) \<lparr>polls = 0, trace = []\<rparr>) = Some (of_int 400 / 16) \<and>
   map_option fst (readTemp (demo_hw 0 (tmp102 False 400)) \<lparr>polls = 0, trace = []\<rparr>) = None"
  using readTemp_exact [OF demo_hw_timing demo_hw_shows, where n = 400 and extended = False and s = "\<lparr>polls = 0, trace = []\<rparr>", of 3]
    readTemp_exact [OF demo_hw_timing demo_hw_shows, where n = 400 and extended = False and s = "\<lparr>polls = 0, trace = []\<rparr>", of 0]
  by (simp add: all_seen_def)

text \<open>
  Temperatures below zero are read as hot. For \<open>n\<close> sixteenths below 0 the conversion does not
  extend the sign: when all transfers are seen, \<^verbatim>\<open>readTemp\<close> returns 256 degrees (512 in 13-bit
  format) more than the sensor shows, which is above the alert threshold of 27 degrees.
\<close>

theorem readTemp_negative_misread:
  assumes "busy_timing H lat dur" and "sensor_shows H (trace s) (tmp102 extended n)"
    and "all_seen dur (trace s) SLAVE_ADDRESS_TMP102 TEMP_REG_ADDR"
    and "n < 0" and "- (if extended then 4096 else 2048) \<le> n"
  shows "map_option fst (readTemp H s) = Some (of_int n / 16 + (if extended then 512 else 256)) \<and>
    of_int n / 16 + (if extended then 512 else 256) > (27 :: rat)"
proof -
  have "n mod (if extended then 8192 else 4096) = n + (if extended then 8192 else 4096)"
    using assms(4,5) by (intro mod_negative) (auto split: if_splits)
  then have "(unsigned (decode (tmp102 extended n)) :: rat) = of_int (n + (if extended then 8192 else 4096))"
    by (intro rat_of_word) (simp add: decode_tmp102)
  moreover have "rat_of_int n \<ge> - (if extended then 4096 else 2048)"
    using assms(5) by (cases extended) (simp_all flip: of_int_le_iff [where ?'a = rat])
  ultimately show ?thesis using readTemp_decodes [OF assms(1,2)] assms(3) by (auto simp: field_simps split: if_splits)
qed

theorem readTemp_negative_misread_witness:
  "map_option fst (readTemp (demo_hw 3 (tmp102 False (- 16))) \<lparr>polls = 0, trace = []\<rparr>) = Some 255"
  using readTemp_negative_misread [OF demo_hw_timing demo_hw_shows, where n = "- 16" and extended = False
      and s = "\<lparr>polls = 0, trace = []\<rparr>", of 3] by (simp add: all_seen_def)

end
