(* ===== verification/TimerService.thy ===== *)
theory TimerService
  imports Prelude
begin

text \<open>
  The software timer service of FreeRTOS as built into the firmware
  (\<^verbatim>\<open>src/HW5/CCS_Homework5/utils/timers.c\<close>, configured by \<^verbatim>\<open>FreeRTOSConfig.h\<close>): the timer
  control blocks, the current and the overflow list of active timers, the command queue, and
  every operation of the service task.

  \<^verbatim>\<open>TickType_t\<close> is a 32-bit word (\<^verbatim>\<open>configUSE_16_BIT_TICKS\<close> is 0) and wraps. The kernel's
  lists, queues and allocator are parameters (record \<open>rtos\<close>, laws in the locale
  \<open>rtos_kernel\<close>); so are the timers' callback functions, which act on the application
  state \<open>app\<close> only, as both callbacks of this firmware do. A list is the sequence of the
  (item value, owner) pairs it holds, and the readings of \<^verbatim>\<open>xTaskGetTickCount\<close> are a stream.
  \<^verbatim>\<open>INCLUDE_xTimerPendFunctionCall\<close> and \<^verbatim>\<open>INCLUDE_xTimerGetTimerDaemonTaskHandle\<close> are not set
  by the configuration, so the code they guard is not compiled; \<^verbatim>\<open>configASSERT\<close> is not defined
  and expands to nothing. A dereference of a dangling or NULL pointer and a loop that does
  not end give \<^const>\<open>None\<close>.
\<close>

subsection \<open>Data\<close>

type_synonym tick = u32
type_synonym titem = "tick \<times> nat"

record Timer_t =
  pcTimerName :: string
  xTimerPeriodInTicks :: tick
  uxAutoReload :: u32
  pvTimerID :: u32
  pxCallbackFunction :: nat

datatype tmrCOMMAND =
    tmrCOMMAND_START_DONT_TRACE | tmrCOMMAND_START | tmrCOMMAND_RESET | tmrCOMMAND_STOP
  | tmrCOMMAND_CHANGE_PERIOD | tmrCOMMAND_DELETE
  | tmrCOMMAND_START_FROM_ISR | tmrCOMMAND_RESET_FROM_ISR | tmrCOMMAND_STOP_FROM_ISR
  | tmrCOMMAND_CHANGE_PERIOD_FROM_ISR

record DaemonTaskMessage_t =
  xMessageID :: tmrCOMMAND
  xMessageValue :: tick
  pxTimer :: nat

text \<open>
  The kernel services. \<open>xQueueReceive\<close> is called with no delay; \<open>callback f h\<close> is the
  effect of the timer callback at \<open>f\<close> called with the handle \<open>h\<close>; \<open>ticks n\<close> is the
  \<open>n\<close>-th value \<^verbatim>\<open>xTaskGetTickCount\<close> returns.
\<close>

record 'a rtos =
  vListInsert :: "titem \<Rightarrow> titem list \<Rightarrow> titem list"
  uxListRemove :: "nat \<Rightarrow> titem list \<Rightarrow> titem list"
  xQueueCreate :: "nat \<Rightarrow> DaemonTaskMessage_t list option"
  xQueueSendToBack :: "DaemonTaskMessage_t \<Rightarrow> tick \<Rightarrow> DaemonTaskMessage_t list
    \<Rightarrow> bool \<times> DaemonTaskMessage_t list"
  xQueueSendToBackFromISR :: "DaemonTaskMessage_t \<Rightarrow> DaemonTaskMessage_t list
    \<Rightarrow> bool \<times> DaemonTaskMessage_t list"
  xQueueReceive :: "DaemonTaskMessage_t list \<Rightarrow> (DaemonTaskMessage_t \<times> DaemonTaskMessage_t list) option"
  pvPortMalloc :: "(nat \<rightharpoonup> Timer_t) \<Rightarrow> nat option"
  xTaskCreate :: bool
  callback :: "nat \<Rightarrow> nat \<Rightarrow> 'a \<Rightarrow> 'a"
  ticks :: "nat \<Rightarrow> tick"

record 'a tsvc =
  timers :: "nat \<rightharpoonup> Timer_t"
  pxCurrentTimerList :: "titem list"
  pxOverflowTimerList :: "titem list"
  xTimerQueue :: "DaemonTaskMessage_t list option"
  xLastTime :: tick
  tick_reads :: nat
  scheduler_running :: bool
  app :: 'a

definition configTIMER_QUEUE_LENGTH :: nat where
  "configTIMER_QUEUE_LENGTH = 10"

text \<open>\<^verbatim>\<open>xCommandID < tmrFIRST_FROM_ISR_COMMAND\<close>\<close>

definition from_task :: "tmrCOMMAND \<Rightarrow> bool" where
  "from_task c \<longleftrightarrow> c \<in> {tmrCOMMAND_START_DONT_TRACE, tmrCOMMAND_START, tmrCOMMAND_RESET,
     tmrCOMMAND_STOP, tmrCOMMAND_CHANGE_PERIOD, tmrCOMMAND_DELETE}"

definition in_list :: "nat \<Rightarrow> titem list \<Rightarrow> bool" where
  "in_list h xs \<longleftrightarrow> h \<in> set (map snd xs)"

subsection \<open>Creation and commands\<close>

definition prvCheckForValidListAndQueue :: "'a rtos \<Rightarrow> 'a tsvc \<Rightarrow> 'a tsvc" where
  "prvCheckForValidListAndQueue K s =
     (if xTimerQueue s = None then
        s\<lparr>pxCurrentTimerList := [], pxOverflowTimerList := [],
          xTimerQueue := xQueueCreate K configTIMER_QUEUE_LENGTH\<rparr>
      else s)"

definition xTimerCreateTimerTask :: "'a rtos \<Rightarrow> 'a tsvc \<Rightarrow> bool \<times> 'a tsvc" where
  "xTimerCreateTimerTask K s =
     (let s = prvCheckForValidListAndQueue K s
      in (xTimerQueue s \<noteq> None \<and> xTaskCreate K, s))"

definition xTimerCreate ::
  "'a rtos \<Rightarrow> string \<Rightarrow> tick \<Rightarrow> u32 \<Rightarrow> u32 \<Rightarrow> nat \<Rightarrow> 'a tsvc \<Rightarrow> nat option \<times> 'a tsvc" where
  "xTimerCreate K name period reload tid cb s =
     (if period = 0 then (None, s)
      else case pvPortMalloc K (timers s) of
        None \<Rightarrow> (None, s)
      | Some h \<Rightarrow>
          let s = prvCheckForValidListAndQueue K s
          in (Some h, s\<lparr>timers := (timers s)(h \<mapsto>
                \<lparr>pcTimerName = name, xTimerPeriodInTicks = period, uxAutoReload = reload,
                 pvTimerID = tid, pxCallbackFunction = cb\<rparr>)\<rparr>))"

definition xTimerGenericCommand ::
  "'a rtos \<Rightarrow> nat \<Rightarrow> tmrCOMMAND \<Rightarrow> tick \<Rightarrow> tick \<Rightarrow> 'a tsvc \<Rightarrow> bool \<times> 'a tsvc" where
  "xTimerGenericCommand K h cmd val wait s =
     (case xTimerQueue s of
        None \<Rightarrow> (False, s)
      | Some q \<Rightarrow>
          let m = \<lparr>xMessageID = cmd, xMessageValue = val, pxTimer = h\<rparr>;
              (r, q) = (if from_task cmd then
                          if scheduler_running s then xQueueSendToBack K m wait q
                          else xQueueSendToBack K m 0 q
                        else xQueueSendToBackFromISR K m q)
          in (r, s\<lparr>xTimerQueue := Some q\<rparr>))"

definition pcTimerGetTimerName :: "nat \<Rightarrow> 'a tsvc \<Rightarrow> string option" where
  "pcTimerGetTimerName h s = map_option pcTimerName (timers s h)"

definition active :: "nat \<Rightarrow> 'a tsvc \<Rightarrow> bool" where
  "active h s \<longleftrightarrow> in_list h (pxCurrentTimerList s) \<or> in_list h (pxOverflowTimerList s)"

definition xTimerIsTimerActive :: "nat \<Rightarrow> 'a tsvc \<Rightarrow> bool option" where
  "xTimerIsTimerActive h s = map_option (\<lambda>_. active h s) (timers s h)"

definition pvTimerGetTimerID :: "nat \<Rightarrow> 'a tsvc \<Rightarrow> u32 option" where
  "pvTimerGetTimerID h s = map_option pvTimerID (timers s h)"

definition vTimerSetTimerID :: "nat \<Rightarrow> u32 \<Rightarrow> 'a tsvc \<Rightarrow> 'a tsvc option" where
  "vTimerSetTimerID h tid s = do {
     t \<leftarrow> timers s h;
     Some (s\<lparr>timers := (timers s)(h \<mapsto> t\<lparr>pvTimerID := tid\<rparr>)\<rparr>)
   }"

subsection \<open>The service task\<close>

definition prvInsertTimerInActiveList ::
  "'a rtos \<Rightarrow> nat \<Rightarrow> tick \<Rightarrow> tick \<Rightarrow> tick \<Rightarrow> 'a tsvc \<Rightarrow> (bool \<times> 'a tsvc) option" where
  "prvInsertTimerInActiveList K h xNextExpiryTime xTimeNow xCommandTime s = do {
     t \<leftarrow> timers s h;
     Some (if xNextExpiryTime \<le> xTimeNow then
             if xTimerPeriodInTicks t \<le> xTimeNow - xCommandTime then (True, s)
             else (False, s\<lparr>pxOverflowTimerList :=
                     vListInsert K (xNextExpiryTime, h) (pxOverflowTimerList s)\<rparr>)
           else if xTimeNow < xCommandTime \<and> xCommandTime \<le> xNextExpiryTime then (True, s)
           else (False, s\<lparr>pxCurrentTimerList :=
                   vListInsert K (xNextExpiryTime, h) (pxCurrentTimerList s)\<rparr>))
   }"

definition run_callback :: "'a rtos \<Rightarrow> Timer_t \<Rightarrow> nat \<Rightarrow> 'a tsvc \<Rightarrow> 'a tsvc" where
  "run_callback K t h s = s\<lparr>app := callback K (pxCallbackFunction t) h (app s)\<rparr>"

definition prvProcessExpiredTimer :: "'a rtos \<Rightarrow> tick \<Rightarrow> tick \<Rightarrow> 'a tsvc \<Rightarrow> 'a tsvc option" where
  "prvProcessExpiredTimer K xNextExpireTime xTimeNow s =
     (case pxCurrentTimerList s of
        [] \<Rightarrow> None
      | (v, h) # xs \<Rightarrow> do {
          t \<leftarrow> timers s h;
          let s = s\<lparr>pxCurrentTimerList := uxListRemove K h (pxCurrentTimerList s)\<rparr>;
          s \<leftarrow> (if uxAutoReload t = 1 then do {
                  (now, s) \<leftarrow> prvInsertTimerInActiveList K h (xNextExpireTime + xTimerPeriodInTicks t)
                                xTimeNow xNextExpireTime s;
                  Some (if now then snd (xTimerGenericCommand K h tmrCOMMAND_START_DONT_TRACE
                                           xNextExpireTime 0 s)
                        else s)
                } else Some s);
          Some (run_callback K t h s)
        })"

text \<open>One pass of the loop in \<^verbatim>\<open>prvSwitchTimerLists\<close>, and the loop with the swap at its end.\<close>

definition switch_one :: "'a rtos \<Rightarrow> tick \<Rightarrow> nat \<Rightarrow> 'a tsvc \<Rightarrow> 'a tsvc option" where
  "switch_one K xNextExpireTime h s = do {
     t \<leftarrow> timers s h;
     let s = s\<lparr>pxCurrentTimerList := uxListRemove K h (pxCurrentTimerList s)\<rparr>;
     let s = run_callback K t h s;
     Some (if uxAutoReload t = 1 then
             let xReloadTime = xNextExpireTime + xTimerPeriodInTicks t in
             if xNextExpireTime < xReloadTime then
               s\<lparr>pxCurrentTimerList := vListInsert K (xReloadTime, h) (pxCurrentTimerList s)\<rparr>
             else snd (xTimerGenericCommand K h tmrCOMMAND_START_DONT_TRACE xNextExpireTime 0 s)
           else s)
   }"

partial_function (option) prvSwitchTimerLists :: "'a rtos \<Rightarrow> 'a tsvc \<Rightarrow> 'a tsvc option" where
  "prvSwitchTimerLists K s =
     (case pxCurrentTimerList s of
        [] \<Rightarrow> Some (s\<lparr>pxCurrentTimerList := pxOverflowTimerList s,
                       pxOverflowTimerList := pxCurrentTimerList s\<rparr>)
      | (v, h) # xs \<Rightarrow> Option.bind (switch_one K v h s) (prvSwitchTimerLists K))"

definition prvSampleTimeNow :: "'a rtos \<Rightarrow> 'a tsvc \<Rightarrow> (tick \<times> bool \<times> 'a tsvc) option" where
  "prvSampleTimeNow K s = do {
     let xTimeNow = ticks K (tick_reads s);
     let s = s\<lparr>tick_reads := tick_reads s + 1\<rparr>;
     (switched, s) \<leftarrow> (if xTimeNow < xLastTime s
                       then map_option (\<lambda>s. (True, s)) (prvSwitchTimerLists K s)
                       else Some (False, s));
     Some (xTimeNow, switched, s\<lparr>xLastTime := xTimeNow\<rparr>)
   }"

text \<open>Removal of a timer from whichever list holds it.\<close>

definition remove_timer :: "'a rtos \<Rightarrow> nat \<Rightarrow> 'a tsvc \<Rightarrow> 'a tsvc" where
  "remove_timer K h s =
     (if in_list h (pxCurrentTimerList s) then
        s\<lparr>pxCurrentTimerList := uxListRemove K h (pxCurrentTimerList s)\<rparr>
      else if in_list h (pxOverflowTimerList s) then
        s\<lparr>pxOverflowTimerList := uxListRemove K h (pxOverflowTimerList s)\<rparr>
      else s)"

definition start_timer :: "'a rtos \<Rightarrow> DaemonTaskMessage_t \<Rightarrow> tick \<Rightarrow> 'a tsvc \<Rightarrow> 'a tsvc option" where
  "start_timer K m xTimeNow s = do {
     let h = pxTimer m;
     t \<leftarrow> timers s h;
     (now, s) \<leftarrow> prvInsertTimerInActiveList K h (xMessageValue m + xTimerPeriodInTicks t)
                   xTimeNow (xMessageValue m) s;
     Some (if now then
             let s = run_callback K t h s in
             if uxAutoReload t = 1 then
               snd (xTimerGenericCommand K h tmrCOMMAND_START_DONT_TRACE
                      (xMessageValue m + xTimerPeriodInTicks t) 0 s)
             else s
           else s)
   }"

definition change_period :: "'a rtos \<Rightarrow> DaemonTaskMessage_t \<Rightarrow> tick \<Rightarrow> 'a tsvc \<Rightarrow> 'a tsvc option" where
  "change_period K m xTimeNow s = do {
     let h = pxTimer m;
     t \<leftarrow> timers s h;
     let s = s\<lparr>timers := (timers s)(h \<mapsto> t\<lparr>xTimerPeriodInTicks := xMessageValue m\<rparr>)\<rparr>;
     (_, s) \<leftarrow> prvInsertTimerInActiveList K h (xTimeNow + xMessageValue m) xTimeNow xTimeNow s;
     Some s
   }"

definition process_command :: "'a rtos \<Rightarrow> DaemonTaskMessage_t \<Rightarrow> 'a tsvc \<Rightarrow> 'a tsvc option" where
  "process_command K m s = do {
     _ \<leftarrow> timers s (pxTimer m);
     let s = remove_timer K (pxTimer m) s;
     (xTimeNow, _, s) \<leftarrow> prvSampleTimeNow K s;
     case xMessageID m of
       tmrCOMMAND_START \<Rightarrow> start_timer K m xTimeNow s
     | tmrCOMMAND_START_FROM_ISR \<Rightarrow> start_timer K m xTimeNow s
     | tmrCOMMAND_RESET \<Rightarrow> start_timer K m xTimeNow s
     | tmrCOMMAND_RESET_FROM_ISR \<Rightarrow> start_timer K m xTimeNow s
     | tmrCOMMAND_START_DONT_TRACE \<Rightarrow> start_timer K m xTimeNow s
     | tmrCOMMAND_STOP \<Rightarrow> Some s
     | tmrCOMMAND_STOP_FROM_ISR \<Rightarrow> Some s
     | tmrCOMMAND_CHANGE_PERIOD \<Rightarrow> change_period K m xTimeNow s
     | tmrCOMMAND_CHANGE_PERIOD_FROM_ISR \<Rightarrow> change_period K m xTimeNow s
     | tmrCOMMAND_DELETE \<Rightarrow> Some (s\<lparr>timers := (timers s)(pxTimer m := None)\<rparr>)
   }"

partial_function (option) prvProcessReceivedCommands :: "'a rtos \<Rightarrow> 'a tsvc \<Rightarrow> 'a tsvc option" where
  "prvProcessReceivedCommands K s =
     (case xTimerQueue s of
        None \<Rightarrow> None
      | Some q \<Rightarrow>
          (case xQueueReceive K q of
             None \<Rightarrow> Some s
           | Some (m, q) \<Rightarrow>
               Option.bind (process_command K m (s\<lparr>xTimerQueue := Some q\<rparr>))
                 (prvProcessReceivedCommands K)))"

definition prvGetNextExpireTime :: "'a tsvc \<Rightarrow> tick \<times> bool" where
  "prvGetNextExpireTime s =
     (case pxCurrentTimerList s of [] \<Rightarrow> (0, True) | (v, h) # xs \<Rightarrow> (v, False))"

text \<open>
  What a call of \<^verbatim>\<open>prvProcessTimerOrBlockTask\<close> did: ran the expired timer, blocked on the
  queue (for so many ticks, or indefinitely), or only switched the lists.
\<close>

datatype action = Expired | Blocked tick bool | Switched

definition prvProcessTimerOrBlockTask ::
  "'a rtos \<Rightarrow> tick \<Rightarrow> bool \<Rightarrow> 'a tsvc \<Rightarrow> (action \<times> 'a tsvc) option" where
  "prvProcessTimerOrBlockTask K xNextExpireTime xListWasEmpty s = do {
     (xTimeNow, switched, s) \<leftarrow> prvSampleTimeNow K s;
     if \<not> switched then
       if \<not> xListWasEmpty \<and> xNextExpireTime \<le> xTimeNow then
         map_option (\<lambda>s. (Expired, s)) (prvProcessExpiredTimer K xNextExpireTime xTimeNow s)
       else
         Some (Blocked (xNextExpireTime - xTimeNow)
                 (xListWasEmpty \<and> pxOverflowTimerList s = []), s)
     else Some (Switched, s)
   }"

text \<open>One round of the endless loop of \<^verbatim>\<open>prvTimerTask\<close>.\<close>

definition prvTimerTask_round :: "'a rtos \<Rightarrow> 'a tsvc \<Rightarrow> (action \<times> 'a tsvc) option" where
  "prvTimerTask_round K s = do {
     let (xNextExpireTime, xListWasEmpty) = prvGetNextExpireTime s;
     (act, s) \<leftarrow> prvProcessTimerOrBlockTask K xNextExpireTime xListWasEmpty s;
     s \<leftarrow> prvProcessReceivedCommands K s;
     Some (act, s)
   }"

end
