(* ===== verification/Firmware.thy ===== *)
theory Firmware
  imports SensorBus TimerService "HOL-Library.Sublist"
begin

text \<open>
  The firmware of \<^verbatim>\<open>src/HW5/CCS_Homework5\<close>: the temperature, LED, alert and logger tasks with the
  queues, semaphores and notification that connect them, the two timer callbacks, and
  \<^verbatim>\<open>main\<close>, which creates all of them.

  One pass of a task's endless loop is one event. A pass that finds its semaphore or
  notification not given blocks (\<^const>\<open>None\<close>), and so does a temperature pass whose I2C
  transaction does not end. FreeRTOS semaphores, notifications and queues are parameters
  (record \<open>fw_os\<close>, laws in the locale \<open>firmware_os\<close>). The number formatting of the logger
  (\<^verbatim>\<open>snprintf\<close> with \<^verbatim>\<open>%f\<close>) is not modelled: a line carries the value.
\<close>

subsection \<open>Data\<close>

record tempLog =
  temp :: rat
  temp_timestamp :: u32

record LEDLog =
  toggleCount :: u32
  user_name :: string
  led_timestamp :: u32

datatype uart_line = UTemp tempLog | ULed LEDLog | UAlert

text \<open>
  A queue is its handle, NULL or not, and its contents. \<^verbatim>\<open>xQueueSend\<close> with a NULL handle
  dereferences it: the pass does not complete.
\<close>

record fw =
  tempSemaphore :: nat
  LEDSempahore :: nat
  xQueueTemp_handle :: bool
  xQueueLED_handle :: bool
  xQueueTemp :: "tempLog list"
  xQueueLED :: "LEDLog list"
  alert_notification :: nat
  i2c :: bus
  LED1val :: u8
  LED2val :: u8
  txLog :: LEDLog
  gpio :: "drv list"
  uart :: "uart_line list"

record fw_os =
  xSemaphoreGive :: "nat \<Rightarrow> nat"
  xSemaphoreTake :: "nat \<Rightarrow> nat option"
  xTaskNotifyGive :: "nat \<Rightarrow> nat"
  ulTaskNotifyTake :: "nat \<Rightarrow> nat option"
  xQueueSendTemp :: "tempLog \<Rightarrow> tempLog list \<Rightarrow> tempLog list"
  xQueueReceiveTemp :: "tempLog list \<Rightarrow> (tempLog \<times> tempLog list) option"
  xQueueSendLED :: "LEDLog \<Rightarrow> LEDLog list \<Rightarrow> LEDLog list"
  xQueueReceiveLED :: "LEDLog list \<Rightarrow> (LEDLog \<times> LEDLog list) option"
  pdTICKS_TO_MS :: "u32 \<Rightarrow> u32"

definition LED1_PIN :: u8 where "LED1_PIN = 1"
definition LED2_PIN :: u8 where "LED2_PIN = 2"
definition TEMPERATURE_THRESHOLD :: rat where "TEMPERATURE_THRESHOLD = 27"
definition QUEUE_MAX_SIZE :: nat where "QUEUE_MAX_SIZE = 10"

subsection \<open>LED\<close>

text \<open>The pin calls of \<^verbatim>\<open>LEDGPIOInit\<close>, after its wait for the peripheral.\<close>

definition LEDGPIOInit :: "(nat \<Rightarrow> bool) \<Rightarrow> drv list option" where
  "LEDGPIOInit SysCtlPeripheralReady = do {
     _ \<leftarrow> poll SysCtlPeripheralReady True 0;
     Some [SysCtlPeripheralEnable ''GPION'',
       GPIOPinTypeGPIOOutput ''PORTN'' LED1_PIN, GPIOPinTypeGPIOOutput ''PORTN'' LED2_PIN,
       GPIOPinWrite ''PORTN'' LED1_PIN LED1_PIN, GPIOPinWrite ''PORTN'' LED2_PIN LED2_PIN]
   }"

definition vLEDTimerCallBack :: "fw_os \<Rightarrow> fw \<Rightarrow> fw" where
  "vLEDTimerCallBack OS s = s\<lparr>LEDSempahore := xSemaphoreGive OS (LEDSempahore s)\<rparr>"

text \<open>What \<^verbatim>\<open>LEDTaskCode\<close> does before its loop, and one pass of the loop at tick count \<open>now\<close>.\<close>

definition LEDTask_start :: "fw \<Rightarrow> fw" where
  "LEDTask_start s = s\<lparr>LED1val := 0, LED2val := LED2_PIN,
     txLog := (txLog s)\<lparr>toggleCount := 0, user_name := ''Ashish Tak''\<rparr>\<rparr>"

definition LEDTask_pass :: "fw_os \<Rightarrow> u32 \<Rightarrow> fw \<Rightarrow> fw option" where
  "LEDTask_pass OS now s = do {
     sem \<leftarrow> xSemaphoreTake OS (LEDSempahore s);
     _ \<leftarrow> (if xQueueLED_handle s then Some () else None);
     let msg = (txLog s)\<lparr>toggleCount := toggleCount (txLog s) + 1, led_timestamp := pdTICKS_TO_MS OS now\<rparr>;
     Some (s\<lparr>LEDSempahore := sem,
       gpio := gpio s @ [GPIOPinWrite ''PORTN'' LED1_PIN (LED1val s), GPIOPinWrite ''PORTN'' LED2_PIN (LED2val s)],
       LED1val := LED1val s XOR LED1_PIN, LED2val := LED2val s XOR LED2_PIN,
       txLog := msg, xQueueLED := xQueueSendLED OS msg (xQueueLED s)\<rparr>)
   }"

subsection \<open>Temperature\<close>

definition vTempTimerCallBack :: "fw_os \<Rightarrow> fw \<Rightarrow> fw" where
  "vTempTimerCallBack OS s = s\<lparr>tempSemaphore := xSemaphoreGive OS (tempSemaphore s)\<rparr>"

definition tempTask_start :: "fw \<Rightarrow> fw" where
  "tempTask_start s = s\<lparr>i2c := I2CInit (i2c s)\<rparr>"

definition tempTask_pass :: "fw_os \<Rightarrow> i2c_hw \<Rightarrow> u32 \<Rightarrow> fw \<Rightarrow> fw option" where
  "tempTask_pass OS H now s = do {
     sem \<leftarrow> xSemaphoreTake OS (tempSemaphore s);
     (t, b) \<leftarrow> readTemp H (i2c s);
     _ \<leftarrow> (if xQueueTemp_handle s then Some () else None);
     let s = s\<lparr>tempSemaphore := sem, i2c := b\<rparr>;
     let s = (if TEMPERATURE_THRESHOLD < t
              then s\<lparr>alert_notification := xTaskNotifyGive OS (alert_notification s)\<rparr> else s);
     let msg = \<lparr>temp = t, temp_timestamp = pdTICKS_TO_MS OS now\<rparr>;
     Some (s\<lparr>xQueueTemp := xQueueSendTemp OS msg (xQueueTemp s)\<rparr>)
   }"

definition alertTask_pass :: "fw_os \<Rightarrow> fw \<Rightarrow> fw option" where
  "alertTask_pass OS s = do {
     n \<leftarrow> ulTaskNotifyTake OS (alert_notification s);
     Some (s\<lparr>alert_notification := n, uart := uart s @ [UAlert]\<rparr>)
   }"

subsection \<open>Logger\<close>

definition loggerTask_pass :: "fw_os \<Rightarrow> fw \<Rightarrow> fw" where
  "loggerTask_pass OS s =
     (let s = (if xQueueTemp_handle s then
                 (case xQueueReceiveTemp OS (xQueueTemp s) of
                    None \<Rightarrow> s
                  | Some (msg, q) \<Rightarrow> s\<lparr>xQueueTemp := q, uart := uart s @ [UTemp msg]\<rparr>)
               else s)
      in if xQueueLED_handle s then
           (case xQueueReceiveLED OS (xQueueLED s) of
              None \<Rightarrow> s
            | Some (msg, q) \<Rightarrow> s\<lparr>xQueueLED := q, uart := uart s @ [ULed msg]\<rparr>)
         else s)"

subsection \<open>Interleavings\<close>

datatype event = TempTimer | LEDTimer | TempPass u32 | LEDPass u32 | AlertPass | LoggerPass

fun fw_event :: "fw_os \<Rightarrow> i2c_hw \<Rightarrow> event \<Rightarrow> fw \<Rightarrow> fw option" where
  "fw_event OS H TempTimer s = Some (vTempTimerCallBack OS s)"
| "fw_event OS H LEDTimer s = Some (vLEDTimerCallBack OS s)"
| "fw_event OS H (TempPass now) s = tempTask_pass OS H now s"
| "fw_event OS H (LEDPass now) s = LEDTask_pass OS now s"
| "fw_event OS H AlertPass s = alertTask_pass OS s"
| "fw_event OS H LoggerPass s = Some (loggerTask_pass OS s)"

text \<open>
  The state when the scheduler starts the tasks, all creation calls having succeeded: empty
  queues, and both semaphores given, as
  \<^verbatim>\<open>vSemaphoreCreateBinary\<close> leaves them.
\<close>

definition fw_init :: "drv list \<Rightarrow> fw" where
  "fw_init pins = tempTask_start (LEDTask_start
     \<lparr>tempSemaphore = 1, LEDSempahore = 1, xQueueTemp_handle = True, xQueueLED_handle = True,
      xQueueTemp = [], xQueueLED = [], alert_notification = 0,
      i2c = \<lparr>polls = 0, trace = []\<rparr>, LED1val = 0, LED2val = 0,
      txLog = \<lparr>toggleCount = 0, user_name = [], led_timestamp = 0\<rparr>, gpio = pins, uart = []\<rparr>)"

text \<open>Sequences of events that can happen one after the other, last event last.\<close>

inductive fw_run :: "fw_os \<Rightarrow> i2c_hw \<Rightarrow> fw \<Rightarrow> event list \<Rightarrow> fw \<Rightarrow> bool" for OS H s0 where
  boot: "fw_run OS H s0 [] s0"
| event: "fw_run OS H s0 es s \<Longrightarrow> fw_event OS H e s = Some s' \<Longrightarrow> fw_run OS H s0 (es @ [e]) s'"

subsection \<open>Start-up\<close>

text \<open>
  What creation calls return in \<^verbatim>\<open>main\<close>: the two queues, the two semaphores and the four tasks,
  in the order of the code.
\<close>

record boot_results =
  queue_temp_ok :: bool
  queue_led_ok :: bool
  sem_temp_ok :: bool
  sem_led_ok :: bool
  task_temp_ok :: bool
  task_logger_ok :: bool
  task_led_ok :: bool
  task_alert_ok :: bool

definition TEMP_CALLBACK :: nat where "TEMP_CALLBACK = 0"
definition LED_CALLBACK :: nat where "LED_CALLBACK = 1"
definition NULL_HANDLE :: nat where "NULL_HANDLE = 0"

definition fw_callback :: "fw_os \<Rightarrow> nat \<Rightarrow> nat \<Rightarrow> fw \<Rightarrow> fw" where
  "fw_callback OS f h = (if f = TEMP_CALLBACK then vTempTimerCallBack OS else vLEDTimerCallBack OS)"

text \<open>Create a timer and send its start command: \<^verbatim>\<open>xTimerStart\<close> is the command with the tick count.\<close>

definition create_and_start ::
  "'a rtos \<Rightarrow> string \<Rightarrow> tick \<Rightarrow> nat \<Rightarrow> tick \<Rightarrow> 'a tsvc \<Rightarrow> string list \<times> 'a tsvc" where
  "create_and_start K name period cb now s =
     (let (ho, s) = xTimerCreate K name period 1 0 cb s;
          h = (case ho of None \<Rightarrow> NULL_HANDLE | Some h \<Rightarrow> h);
          (ok, s) = xTimerGenericCommand K h tmrCOMMAND_START now 0 s
      in (if ok then [] else [''Error in starting timer!''], s))"

definition firmware_main ::
  "'a rtos \<Rightarrow> (u32 \<Rightarrow> u32) \<Rightarrow> boot_results \<Rightarrow> tick \<Rightarrow> 'a tsvc \<Rightarrow> string list \<times> 'a tsvc" where
  "firmware_main K pdMS_TO_TICKS r now s =
     (let msgs = [''Welcome to EK-TM4C1294XL!''] @
            (if queue_temp_ok r then [] else [''Error in creating queue!'']) @
            (if queue_led_ok r then [] else [''Error in creating queue!'']) @
            (if sem_temp_ok r then [] else [''Error in creating the semaphore for the temperature sensing task!'']) @
            (if sem_led_ok r then [] else [''Error in creating the semaphore for the LED task!'']) @
            (if task_temp_ok r then [] else [''Error in creating the Temperature sensing task!'']) @
            (if task_logger_ok r then [] else [''Error in creating the Logging task!'']) @
            (if task_led_ok r then [] else [''Error in creating the Logging task!'']) @
            (if task_alert_ok r then [] else [''Error in creating the Alert task!'']);
          (m1, s) = create_and_start K ''TempTimer'' (pdMS_TO_TICKS 1000) TEMP_CALLBACK now s;
          (m2, s) = create_and_start K ''LEDTimer'' (pdMS_TO_TICKS 100) LED_CALLBACK now s
      in (msgs @ m1 @ m2, s))"

end
