(* ===== verification/TimerTime.thy ===== *)
theory TimerTime
  imports TimerService
begin

text \<open>
  Wrap-around arithmetic of the timer service against unbounded time. A tick value is the
  remainder modulo \<open>2 ^ 32\<close> of a time that never wraps; the quotient is the epoch. The
  lemmas show that the comparisons of \<^verbatim>\<open>prvInsertTimerInActiveList\<close>, which only see
  remainders, decide exactly what a comparison of the unbounded times would.
\<close>

abbreviation W :: nat where
  "W \<equiv> 4294967296"

definition tk :: "nat \<Rightarrow> tick" where
  "tk n = of_nat n"

definition epoch :: "nat \<Rightarrow> nat" where
  "epoch n = n div W"

lemma unat_tk: "unat (tk n) = n mod W"
  by (simp add: tk_def unat_of_nat)

lemma tk_add: "tk (m + n) = tk m + tk n"
  by (simp add: tk_def)

lemma tk_unat [simp]: "tk (unat w) = w"
  by (simp add: tk_def)

lemma unat_lt_W: "unat v < W" for v :: tick
  using unsigned_less [of v] by simp

lemma tk_epoch [simp]: "tk (e * W + unat v) = v"
proof -
  have "unat v < W" using unsigned_less [of v] by simp
  then have "unat (tk (e * W + unat v)) = unat v" by (simp add: unat_tk)
  then show ?thesis by (metis tk_unat)
qed

lemma tk_back:
  assumes "tk N = n" and "unat (n - v) \<le> N"
  shows "tk (N - unat (n - v)) = v"
proof -
  have "tk (N - unat (n - v)) + (n - v) = tk (N - unat (n - v) + unat (n - v))"
    by (simp only: tk_add tk_unat)
  also have "\<dots> = n" using assms by simp
  finally show ?thesis by (simp add: algebra_simps)
qed

lemma time_split: "n = epoch n * W + n mod W" "n mod W < W"
  by (simp_all add: epoch_def)

lemma epoch_bounds: "C \<le> N \<Longrightarrow> N - C < W \<Longrightarrow> epoch N = epoch C \<or> epoch N = epoch C + 1"
  using time_split [of C] time_split [of N] by arith

lemma same_epoch_le: "epoch m = epoch n \<Longrightarrow> (tk m \<le> tk n) = (m \<le> n)"
  using time_split [of m] time_split [of n] by (simp add: word_le_nat_alt unat_tk) arith

lemma next_epoch: "epoch n = epoch m + 1 \<Longrightarrow> (tk n < tk m) = (n - m < W \<and> m \<le> n)"
  using time_split [of m] time_split [of n] by (simp add: word_less_nat_alt unat_tk) arith

lemma tk_diff:
  assumes "C \<le> N" and "N - C < W"
  shows "unat (tk N - tk C) = N - C"
proof -
  have "tk N = tk (N - C) + tk C" using assms by (simp flip: tk_add)
  then have "tk N - tk C = tk (N - C)" by simp
  then show ?thesis using assms by (simp add: unat_tk)
qed

text \<open>Order of two tick values whose times are less than one wrap apart.\<close>

lemma tk_less_window:
  assumes "m \<le> n" and "n - m < W"
  shows "(tk n < tk m) = (epoch n = epoch m + 1)"
  using epoch_bounds [OF assms] same_epoch_le [of m n] next_epoch [of n m] assms
  by (auto simp: not_le [symmetric])

lemma expiry_elapsed_iff:
  assumes "C \<le> N" and "N - C < W" and "P < W"
  shows "(if tk (C + P) \<le> tk N then P \<le> unat (tk N - tk C)
          else tk N < tk C \<and> tk C \<le> tk (C + P)) = (C + P \<le> N)"
proof (cases "tk (C + P) \<le> tk N")
  case True
  then show ?thesis using tk_diff [OF assms(1,2)] assms(1) by auto
next
  case False
  have c: "(tk (C + P) < tk C) = (epoch (C + P) = epoch C + 1)"
    using tk_less_window [of C "C + P"] assms(3) by simp
  have n: "(tk N < tk C) = (epoch N = epoch C + 1)" by (rule tk_less_window [OF assms(1,2)])
  have e: "epoch (C + P) = epoch C \<or> epoch (C + P) = epoch C + 1"
    using epoch_bounds [of C "C + P"] assms(3) by simp
  have ne: "epoch N = epoch C \<or> epoch N = epoch C + 1" by (rule epoch_bounds [OF assms(1,2)])
  have same: "epoch (C + P) = epoch N \<Longrightarrow> \<not> C + P \<le> N" using False same_epoch_le by blast
  have lt: "epoch a < epoch b \<Longrightarrow> a < b" for a b
    by (metis div_le_mono epoch_def leD leI)
  show ?thesis
    using False c n e ne same lt [of "C + P" N] lt [of N "C + P"] by (auto simp: not_le [symmetric])
qed

lemma expiry_pending_epoch:
  assumes "C \<le> N" and "P < W" and "N < C + P"
  shows "epoch (C + P) = (if tk (C + P) \<le> tk N then epoch N + 1 else epoch N)"
proof -
  have "N \<le> C + P" "C + P - N < W" using assms by auto
  from epoch_bounds [OF this] tk_less_window [OF this] same_epoch_le [of "C + P" N]
  show ?thesis using assms(3)
    by (metis add.commute leD nat_neq_iff next_epoch not_le order_le_less)
qed

end
