(* ===== verification/TimerCorrect.thy ===== *)
theory TimerCorrect
  imports TimerTime
begin

text \<open>
  Correctness of the timer service over any kernel that satisfies the documented laws of
  FreeRTOS lists and queues: the invariant of the two lists, the refinement of the wrapped
  tick values to unbounded deadlines, termination of both loops, and the behaviour of a
  round of the service task.
\<close>

subsection \<open>The kernel interface\<close>

locale rtos_kernel =
  fixes K :: "'a rtos"
  assumes insert_sorted: "sorted (map fst xs) \<Longrightarrow> sorted (map fst (vListInsert K e xs))"
    and insert_mset: "mset (vListInsert K e xs) = add_mset e (mset xs)"
    and remove_filter: "distinct (map snd xs) \<Longrightarrow> uxListRemove K h xs = filter (\<lambda>e. snd e \<noteq> h) xs"
    and send_room: "length q < configTIMER_QUEUE_LENGTH \<Longrightarrow> xQueueSendToBack K m w q = (True, q @ [m])"
    and send_full: "configTIMER_QUEUE_LENGTH \<le> length q \<Longrightarrow> xQueueSendToBack K m 0 q = (False, q)"
    and receive_empty: "xQueueReceive K [] = None"
    and receive_first: "xQueueReceive K (m # q) = Some (m, q)"
    and malloc_fresh: "pvPortMalloc K heap = Some h \<Longrightarrow> heap h = None"

subsection \<open>Invariant and deadlines\<close>

text \<open>
  The timers a list references. Both lists are in order of expiry, no timer is in a list
  twice or in both, and every timer in a list is a live control block.
\<close>

definition owners :: "titem list \<Rightarrow> nat set" where
  "owners xs = set (map snd xs)"

definition tinv :: "'a tsvc \<Rightarrow> bool" where
  "tinv s \<longleftrightarrow> sorted (map fst (pxCurrentTimerList s)) \<and> sorted (map fst (pxOverflowTimerList s)) \<and>
     distinct (map snd (pxCurrentTimerList s)) \<and> distinct (map snd (pxOverflowTimerList s)) \<and>
     owners (pxCurrentTimerList s) \<inter> owners (pxOverflowTimerList s) = {} \<and>
     owners (pxCurrentTimerList s) \<union> owners (pxOverflowTimerList s) \<subseteq> dom (timers s)"

text \<open>
  The deadlines the lists stand for when the last sampled time lies in epoch \<open>e\<close>: the
  current list holds expiries of this epoch, the overflow list of the next.
\<close>

definition deadlines :: "nat \<Rightarrow> 'a tsvc \<Rightarrow> (nat \<times> nat) set" where
  "deadlines e s = (\<lambda>(v, h). (e * W + unat v, h)) ` set (pxCurrentTimerList s) \<union>
     (\<lambda>(v, h). (Suc e * W + unat v, h)) ` set (pxOverflowTimerList s)"

lemma owners_simps [simp]:
  "owners [] = {}" "owners (e # xs) = insert (snd e) (owners xs)"
  "owners (filter (\<lambda>e. snd e \<noteq> h) xs) = owners xs - {h}"
  by (auto simp: owners_def)

lemma in_list_iff [simp]: "in_list h xs \<longleftrightarrow> h \<in> owners xs"
  by (simp add: in_list_def owners_def)

lemma filter_owners: "h \<notin> owners xs \<Longrightarrow> filter (\<lambda>e. snd e \<noteq> h) xs = xs"
  by (auto simp: owners_def intro!: filter_True)

lemma deadline_epoch: "epoch n * W + unat (tk n) = n"
  by (simp add: unat_tk epoch_def)

definition quiet_send :: "'a rtos \<Rightarrow> nat \<Rightarrow> tick \<Rightarrow> 'a tsvc \<Rightarrow> 'a tsvc" where
  "quiet_send K h v s = snd (xTimerGenericCommand K h tmrCOMMAND_START_DONT_TRACE v 0 s)"

lemma quiet_send_frame [simp]:
  "timers (quiet_send K h v s) = timers s" "pxCurrentTimerList (quiet_send K h v s) = pxCurrentTimerList s"
  "pxOverflowTimerList (quiet_send K h v s) = pxOverflowTimerList s"
  "xLastTime (quiet_send K h v s) = xLastTime s" "tick_reads (quiet_send K h v s) = tick_reads s"
  "app (quiet_send K h v s) = app s" "tinv (quiet_send K h v s) = tinv s"
  "scheduler_running (quiet_send K h v s) = scheduler_running s"
  by (auto simp: quiet_send_def xTimerGenericCommand_def tinv_def Let_def split: option.splits prod.splits)

lemma run_callback_frame [simp]:
  "timers (run_callback K t h s) = timers s" "pxCurrentTimerList (run_callback K t h s) = pxCurrentTimerList s"
  "pxOverflowTimerList (run_callback K t h s) = pxOverflowTimerList s"
  "xLastTime (run_callback K t h s) = xLastTime s" "tick_reads (run_callback K t h s) = tick_reads s"
  "xTimerQueue (run_callback K t h s) = xTimerQueue s" "tinv (run_callback K t h s) = tinv s"
  "scheduler_running (run_callback K t h s) = scheduler_running s"
  "app (run_callback K t h s) = callback K (pxCallbackFunction t) h (app s)"
  by (simp_all add: run_callback_def tinv_def)

text \<open>The queue after the service sent itself a restart command, without waiting.\<close>

definition requeue :: "nat \<Rightarrow> tick \<Rightarrow> DaemonTaskMessage_t list \<Rightarrow> DaemonTaskMessage_t list" where
  "requeue h v q = (if length q < configTIMER_QUEUE_LENGTH
     then q @ [\<lparr>xMessageID = tmrCOMMAND_START_DONT_TRACE, xMessageValue = v, pxTimer = h\<rparr>] else q)"

lemma deadlines_frame [simp]:
  "deadlines e (run_callback K t h s) = deadlines e s" "deadlines e (quiet_send K h v s) = deadlines e s"
  by (simp_all add: deadlines_def)

lemma active_deadlines: "active h s \<Longrightarrow> \<exists>d. (d, h) \<in> deadlines e s"
  by (auto simp: active_def deadlines_def owners_def image_def) fastforce+

lemma not_active_deadlines: "\<not> active h s \<Longrightarrow> (d, h) \<notin> deadlines e s"
  by (force simp: active_def deadlines_def owners_def)

context rtos_kernel
begin

lemma owners_insert [simp]: "owners (vListInsert K e xs) = insert (snd e) (owners xs)"
proof -
  have "set (vListInsert K e xs) = insert e (set xs)"
    using insert_mset [of e xs] by (metis set_mset_add_mset_insert set_mset_mset)
  then show ?thesis by (simp add: owners_def)
qed

lemma set_insert [simp]: "set (vListInsert K e xs) = insert e (set xs)"
  using insert_mset [of e xs] by (metis set_mset_add_mset_insert set_mset_mset)

lemma distinct_insert [simp]:
  "distinct (map snd (vListInsert K e xs)) \<longleftrightarrow> snd e \<notin> owners xs \<and> distinct (map snd xs)"
proof -
  have "mset (map snd (vListInsert K e xs)) = mset (snd e # map snd xs)"
    by (simp add: insert_mset)
  from mset_eq_imp_distinct_iff [OF this] show ?thesis by (simp add: owners_def)
qed

subsection \<open>Insertion\<close>

lemma insert_tinv:
  assumes "tinv s" and "prvInsertTimerInActiveList K h x n c s = Some (b, s')"
    and "\<not> active h s"
  shows "tinv s'"
proof -
  obtain t where "timers s h = Some t"
    using assms(2) by (auto simp: prvInsertTimerInActiveList_def split: Option.bind_splits)
  then show ?thesis
    using assms insert_sorted [of "pxOverflowTimerList s" "(x, h)"] insert_sorted [of "pxCurrentTimerList s" "(x, h)"]
    by (auto simp: prvInsertTimerInActiveList_def tinv_def active_def split: if_splits)
qed

lemma insert_refines:
  assumes "timers s h = Some t" and "C \<le> N" and "N - C < W"
  shows "\<exists>s'. prvInsertTimerInActiveList K h (tk C + xTimerPeriodInTicks t) (tk N) (tk C) s
      = Some (C + unat (xTimerPeriodInTicks t) \<le> N, s') \<and>
    deadlines (epoch N) s' = deadlines (epoch N) s \<union>
      (if C + unat (xTimerPeriodInTicks t) \<le> N then {} else {(C + unat (xTimerPeriodInTicks t), h)})"
proof -
  define P where "P = unat (xTimerPeriodInTicks t)"
  have P: "P < W" using unsigned_less [of "xTimerPeriodInTicks t"] by (simp add: P_def)
  have x: "tk C + xTimerPeriodInTicks t = tk (C + P)" by (simp add: tk_add P_def)
  have per: "(xTimerPeriodInTicks t \<le> w) = (P \<le> unat w)" for w by (simp add: P_def word_le_nat_alt)
  note el = expiry_elapsed_iff [OF assms(2,3) P]
  have dl: "epoch (C + P) * W + unat (tk (C + P)) = C + P" by (rule deadline_epoch)
  show ?thesis
  proof (cases "C + P \<le> N")
    case True
    then show ?thesis
      using el assms(1) by (auto simp: prvInsertTimerInActiveList_def x per P_def [symmetric] split: if_splits)
  next
    case False
    then have N: "N < C + P" by simp
    note ep = expiry_pending_epoch [OF assms(2) P N]
    show ?thesis
      using False el ep dl assms(1)
      by (auto simp: prvInsertTimerInActiveList_def deadlines_def x per P_def [symmetric] split: if_splits)
  qed
qed

lemma insert_result:
  assumes "timers s h = Some t"
  shows "\<exists>s'. prvInsertTimerInActiveList K h (c + xTimerPeriodInTicks t) n c s
    = Some (xTimerPeriodInTicks t \<le> n - c, s') \<and> (xTimerPeriodInTicks t \<le> n - c \<longrightarrow> s' = s) \<and>
      timers s' = timers s \<and> xTimerQueue s' = xTimerQueue s \<and> app s' = app s \<and>
      xLastTime s' = xLastTime s \<and> tick_reads s' = tick_reads s"
proof -
  define N where "N = W + unat n"
  define C where "C = N - unat (n - c)"
  have lt: "unat (n - c) < W" using unsigned_less [of "n - c"] by simp
  then have CN: "C \<le> N" "N - C < W" "unat (n - c) = N - C" by (simp_all add: C_def N_def)
  have n: "tk N = n" by (simp add: N_def tk_add) (simp add: tk_def)
  have c: "tk C = c" unfolding C_def by (rule tk_back [OF n]) (use lt in \<open>simp add: N_def\<close>)
  have P: "unat (xTimerPeriodInTicks t) < W" using unsigned_less [of "xTimerPeriodInTicks t"] by simp
  have x: "tk (C + unat (xTimerPeriodInTicks t)) = c + xTimerPeriodInTicks t" by (simp add: tk_add c)
  have "(xTimerPeriodInTicks t \<le> n - c) = (C + unat (xTimerPeriodInTicks t) \<le> N)"
    using CN by (simp add: word_le_nat_alt) arith
  then show ?thesis
    using expiry_elapsed_iff [OF CN(1,2) P, unfolded x n c] assms
    by (auto simp: prvInsertTimerInActiveList_def word_le_nat_alt [of "xTimerPeriodInTicks t"] split: if_splits)
qed

subsection \<open>Sending to the own queue\<close>

lemma quiet_send_queue [simp]:
  "xTimerQueue (quiet_send K h v s) = map_option (requeue h v) (xTimerQueue s)"
  by (cases "xTimerQueue s")
    (auto simp: quiet_send_def xTimerGenericCommand_def from_task_def requeue_def send_room send_full not_less)

lemma remove_head:
  assumes "tinv s" and "pxCurrentTimerList s = (v, h) # xs"
  shows "uxListRemove K h (pxCurrentTimerList s) = xs"
  using assms remove_filter [of "(v, h) # xs" h] by (auto simp: tinv_def owners_def intro!: filter_True)

subsection \<open>Expiry of the first timer\<close>

lemma tinv_tail: "tinv s \<Longrightarrow> pxCurrentTimerList s = (v, h) # xs \<Longrightarrow>
    tinv (s\<lparr>pxCurrentTimerList := xs\<rparr>) \<and> \<not> active h (s\<lparr>pxCurrentTimerList := xs\<rparr>)"
  by (auto simp: tinv_def active_def owners_def)

lemma deadlines_tail:
  assumes "tinv s" and "pxCurrentTimerList s = (v, h) # xs"
  shows "deadlines e (s\<lparr>pxCurrentTimerList := xs\<rparr>) = deadlines e s - {(e * W + unat v, h)}"
proof -
  have "deadlines e s = insert (e * W + unat v, h) (deadlines e (s\<lparr>pxCurrentTimerList := xs\<rparr>))"
    by (simp add: deadlines_def assms(2))
  moreover have "(e * W + unat v, h) \<notin> deadlines e (s\<lparr>pxCurrentTimerList := xs\<rparr>)"
    using tinv_tail [OF assms] not_active_deadlines by blast
  ultimately show ?thesis by simp
qed

lemma expired_outcome:
  assumes inv: "tinv s" and cur: "pxCurrentTimerList s = (v, h) # xs" and t: "timers s h = Some t"
    and N: "epoch N = e" and due: "e * W + unat v \<le> N"
  shows "\<exists>s'. prvProcessExpiredTimer K v (tk N) s = Some s' \<and> tinv s' \<and> timers s' = timers s \<and>
    app s' = callback K (pxCallbackFunction t) h (app s) \<and>
    deadlines e s' = deadlines e s - {(e * W + unat v, h)} \<union>
      (if uxAutoReload t = 1 \<and> N < e * W + unat v + unat (xTimerPeriodInTicks t)
       then {(e * W + unat v + unat (xTimerPeriodInTicks t), h)} else {}) \<and>
    xTimerQueue s' = (if uxAutoReload t = 1 \<and> e * W + unat v + unat (xTimerPeriodInTicks t) \<le> N
       then map_option (requeue h v) (xTimerQueue s) else xTimerQueue s)"
proof -
  define V where "V = e * W + unat v"
  define r where "r = s\<lparr>pxCurrentTimerList := xs\<rparr>"
  have v: "tk V = v" by (simp add: V_def)
  have "N - V < W" using N by (auto simp: V_def epoch_def)
  with insert_refines [of r h t V N] t due obtain s'
    where s': "prvInsertTimerInActiveList K h (v + xTimerPeriodInTicks t) (tk N) v r
        = Some (V + unat (xTimerPeriodInTicks t) \<le> N, s')"
      and dl: "deadlines e s' = deadlines e r \<union>
        (if V + unat (xTimerPeriodInTicks t) \<le> N then {} else {(V + unat (xTimerPeriodInTicks t), h)})"
    by (auto simp: r_def v N V_def [symmetric])
  have inv': "tinv s'" using insert_tinv [OF _ s'] tinv_tail [OF inv cur] by (simp add: r_def)
  have fr: "timers s' = timers s \<and> app s' = app s \<and> xTimerQueue s' = xTimerQueue s"
    using s' t by (auto simp: prvInsertTimerInActiveList_def r_def split: if_splits)
  have dr: "deadlines e r = deadlines e s - {(V, h)}"
    unfolding r_def V_def by (rule deadlines_tail [OF inv cur])
  define u where "u = (if uxAutoReload t = 1 then
      if V + unat (xTimerPeriodInTicks t) \<le> N then quiet_send K h v s' else s' else r)"
  have run: "prvProcessExpiredTimer K v (tk N) s = Some (run_callback K t h u)"
    using t s' remove_head [OF inv cur]
    by (simp add: prvProcessExpiredTimer_def cur r_def [symmetric] quiet_send_def [symmetric] u_def Let_def)
  have "tinv u \<and> timers u = timers s \<and> app u = app s"
    using inv' fr tinv_tail [OF inv cur] by (simp add: u_def r_def)
  moreover have "deadlines e u = deadlines e s - {(V, h)} \<union>
      (if uxAutoReload t = 1 \<and> N < V + unat (xTimerPeriodInTicks t)
       then {(V + unat (xTimerPeriodInTicks t), h)} else {})"
    using dl dr by (simp add: u_def)
  moreover have "xTimerQueue u = (if uxAutoReload t = 1 \<and> V + unat (xTimerPeriodInTicks t) \<le> N
       then map_option (requeue h v) (xTimerQueue s) else xTimerQueue s)"
    using fr by (simp add: u_def r_def)
  ultimately show ?thesis
    unfolding run V_def [symmetric] by (intro exI [of _ "run_callback K t h u"]) simp
qed

end

end
