(* ===== verification/TimerSwitch.thy ===== *)
theory TimerSwitch
  imports TimerCorrect
begin

text \<open>
  The switch of the timer lists when the tick count wraps
  (\<^verbatim>\<open>prvSwitchTimerLists\<close>, \<^verbatim>\<open>prvSampleTimeNow\<close>): the loop ends, runs every timer left in the
  current list as often as it was due before the wrap, and hands each auto-reload timer
  back to the command queue with its last expiry, from which its next one is computed.
\<close>

subsection \<open>Expiries before the wrap\<close>

definition fires :: "Timer_t \<Rightarrow> tick \<Rightarrow> nat" where
  "fires t v = (if uxAutoReload t = 1
     then (W - 1 - unat v) div unat (xTimerPeriodInTicks t) + 1 else 1)"

definition last_expiry :: "Timer_t \<Rightarrow> tick \<Rightarrow> tick" where
  "last_expiry t v = v + of_nat ((W - 1 - unat v) div unat (xTimerPeriodInTicks t)) * xTimerPeriodInTicks t"

definition reloads :: "(nat \<rightharpoonup> Timer_t) \<Rightarrow> nat \<Rightarrow> bool" where
  "reloads ts h = (case ts h of None \<Rightarrow> False | Some t \<Rightarrow> uxAutoReload t = 1)"

definition restart_msg :: "nat \<Rightarrow> tick \<Rightarrow> DaemonTaskMessage_t" where
  "restart_msg h v = \<lparr>xMessageID = tmrCOMMAND_START_DONT_TRACE, xMessageValue = v, pxTimer = h\<rparr>"

text \<open>The commands that free no control block, about live timers, with no zero period.\<close>

definition safe_msg :: "(nat \<rightharpoonup> Timer_t) \<Rightarrow> DaemonTaskMessage_t \<Rightarrow> bool" where
  "safe_msg ts m \<longleftrightarrow> pxTimer m \<in> dom ts \<and> xMessageID m \<noteq> tmrCOMMAND_DELETE \<and>
     (xMessageID m \<in> {tmrCOMMAND_CHANGE_PERIOD, tmrCOMMAND_CHANGE_PERIOD_FROM_ISR}
        \<longrightarrow> xMessageValue m \<noteq> 0)"

definition queue_ok :: "'a tsvc \<Rightarrow> bool" where
  "queue_ok s \<longleftrightarrow> (\<exists>q. xTimerQueue s = Some q \<and> length q \<le> configTIMER_QUEUE_LENGTH \<and>
     list_all (safe_msg (timers s)) q)"

lemma requeue_room: "length q < configTIMER_QUEUE_LENGTH \<Longrightarrow> requeue h v q = q @ [restart_msg h v]"
  by (simp add: requeue_def restart_msg_def)

lemma queue_ok_requeue:
  assumes "queue_ok s" and "timers s h \<noteq> None" and "timers s' = timers s"
    and "xTimerQueue s' = map_option (requeue h v) (xTimerQueue s) \<or> xTimerQueue s' = xTimerQueue s"
  shows "queue_ok s'"
  using assms by (auto simp: queue_ok_def requeue_def safe_msg_def)

text \<open>A property of all queued commands survives the commands the service sends itself.\<close>

definition queued :: "(DaemonTaskMessage_t \<Rightarrow> bool) \<Rightarrow> 'a tsvc \<Rightarrow> bool" where
  "queued P s = (case xTimerQueue s of None \<Rightarrow> True | Some q \<Rightarrow> list_all P q)"

lemma queued_requeue:
  assumes "queued P s" and "P (restart_msg h v)"
    and "xTimerQueue s' = map_option (requeue h v) (xTimerQueue s) \<or> xTimerQueue s' = xTimerQueue s"
  shows "queued P s'"
  using assms by (auto simp: queued_def requeue_def restart_msg_def split: option.splits)

lemma div_step: "0 < p \<Longrightarrow> p \<le> (a::nat) \<Longrightarrow> a div p = (a - p) div p + 1"
  by (metis Suc_eq_plus1 le_div_geq not_less)

lemma add_less_iff_nat: "(v < v + p) \<longleftrightarrow> 0 < unat p \<and> unat v + unat p < W" for v p :: tick
proof -
  have "unat p < W" "unat v < W" using unsigned_less [of p] unsigned_less [of v] by simp_all
  moreover have "unat (v + p) = (unat v + unat p) mod W" by (simp add: unat_word_ariths)
  ultimately show ?thesis
    by (cases "unat v + unat p < W") (auto simp: word_less_nat_alt mod_if)
qed

lemma unat_add_small: "unat v + unat p < W \<Longrightarrow> unat (v + p) = unat v + unat p" for v p :: tick
  by (simp add: unat_word_ariths)

lemma fires_again:
  assumes "uxAutoReload t = 1" and "v < v + xTimerPeriodInTicks t"
  shows "fires t v = fires t (v + xTimerPeriodInTicks t) + 1"
    and "last_expiry t v = last_expiry t (v + xTimerPeriodInTicks t)"
proof -
  define p where "p = unat (xTimerPeriodInTicks t)"
  have p: "0 < p" "unat v + p < W" using assms(2) by (simp_all add: add_less_iff_nat p_def)
  then have u: "unat (v + xTimerPeriodInTicks t) = unat v + p" by (simp add: unat_add_small p_def)
  have d: "(W - 1 - unat v) div p = (W - 1 - (unat v + p)) div p + 1"
    using p div_step [of p "W - 1 - unat v"] by (simp add: algebra_simps)
  show "fires t v = fires t (v + xTimerPeriodInTicks t) + 1"
    using assms(1) d by (simp add: fires_def u p_def [symmetric])
  show "last_expiry t v = last_expiry t (v + xTimerPeriodInTicks t)"
    unfolding last_expiry_def u p_def [symmetric] d by (simp add: algebra_simps)
qed

lemma fires_last:
  assumes "uxAutoReload t = 1" and "xTimerPeriodInTicks t \<noteq> 0" and "\<not> v < v + xTimerPeriodInTicks t"
  shows "fires t v = 1" and "last_expiry t v = v"
proof -
  have "0 < unat (xTimerPeriodInTicks t)" using assms(2) by (simp add: unat_gt_0)
  then have "(W - 1 - unat v) div unat (xTimerPeriodInTicks t) = 0"
    using assms(3) by (simp add: add_less_iff_nat)
  then show "fires t v = 1" "last_expiry t v = v"
    using assms(1) by (simp_all add: fires_def last_expiry_def)
qed

subsection \<open>The loop\<close>

text \<open>How far the current list is from being empty: the ticks its items have left before the wrap.\<close>

definition ticks_left :: "titem list \<Rightarrow> nat" where
  "ticks_left xs = (\<Sum>(v, h)\<leftarrow>xs. W - unat v)"

text \<open>
  The outcome of the loop when every callback records the handle it is called with: the
  overflow list became current, the current list is empty, the timers of the old current
  list ran \<^const>\<open>fires\<close> times each and no other timer ran, and the queue received one restart
  command per auto-reload timer, carrying its last expiry.
\<close>

definition switch_post ::
  "nat list tsvc \<Rightarrow> DaemonTaskMessage_t list \<Rightarrow> nat list tsvc \<Rightarrow> DaemonTaskMessage_t list \<Rightarrow> bool" where
  "switch_post s q s' ms \<longleftrightarrow> tinv s' \<and> timers s' = timers s \<and>
     pxCurrentTimerList s' = pxOverflowTimerList s \<and> pxOverflowTimerList s' = [] \<and>
     (\<forall>v h. (v, h) \<in> set (pxCurrentTimerList s) \<longrightarrow> count_list (app s') h
        = count_list (app s) h + fires (the (timers s h)) v) \<and>
     (\<forall>h. h \<notin> owners (pxCurrentTimerList s) \<longrightarrow> count_list (app s') h = count_list (app s) h) \<and>
     xTimerQueue s' = Some (q @ ms) \<and>
     mset ms = image_mset (\<lambda>(v, h). restart_msg h (last_expiry (the (timers s h)) v))
       (filter_mset (\<lambda>e. reloads (timers s) (snd e)) (mset (pxCurrentTimerList s)))"

context rtos_kernel
begin

lemma length_filter_insert:
  "length (filter P (vListInsert K e xs)) = (if P e then 1 else 0) + length (filter P xs)"
proof -
  have "length (filter P ys) = size (filter_mset P (mset ys))" for ys
    by (metis mset_filter size_mset)
  then show ?thesis by (simp add: insert_mset)
qed

lemma ticks_left_insert: "ticks_left (vListInsert K e xs) = W - unat (fst e) + ticks_left xs"
proof -
  have "ticks_left ys = (\<Sum>(v, h)\<in>#mset ys. W - unat v)" for ys
    by (simp add: ticks_left_def flip: sum_mset_sum_list)
  then show ?thesis by (simp add: insert_mset split_beta)
qed

lemma switch_one_step:
  assumes inv: "tinv s" and cur: "pxCurrentTimerList s = (v, h) # xs" and t: "timers s h = Some t"
  shows "\<exists>s'. switch_one K v h s = Some s' \<and> tinv s' \<and> timers s' = timers s \<and>
    pxOverflowTimerList s' = pxOverflowTimerList s \<and> xLastTime s' = xLastTime s \<and>
    tick_reads s' = tick_reads s \<and> app s' = callback K (pxCallbackFunction t) h (app s) \<and>
    (if uxAutoReload t = 1 \<and> v < v + xTimerPeriodInTicks t
     then pxCurrentTimerList s' = vListInsert K (v + xTimerPeriodInTicks t, h) xs \<and>
          xTimerQueue s' = xTimerQueue s
     else pxCurrentTimerList s' = xs \<and>
          xTimerQueue s' = (if uxAutoReload t = 1 then map_option (requeue h v) (xTimerQueue s)
                            else xTimerQueue s))"
proof -
  define r where "r = run_callback K t h (s\<lparr>pxCurrentTimerList := xs\<rparr>)"
  define u where "u = r\<lparr>pxCurrentTimerList := vListInsert K (v + xTimerPeriodInTicks t, h) xs\<rparr>"
  have tl: "tinv (s\<lparr>pxCurrentTimerList := xs\<rparr>)" "\<not> active h (s\<lparr>pxCurrentTimerList := xs\<rparr>)"
    using tinv_tail [OF inv cur] by simp_all
  have r: "tinv r" using tl by (simp add: r_def)
  have u: "tinv u"
    using tl t insert_sorted [of xs "(v + xTimerPeriodInTicks t, h)"]
    by (auto simp: u_def r_def tinv_def active_def)
  have step: "switch_one K v h s = Some (if uxAutoReload t = 1
      then if v < v + xTimerPeriodInTicks t then u else quiet_send K h v r else r)"
    using t by (simp add: switch_one_def Let_def remove_head [OF inv cur] r_def [symmetric]
        u_def quiet_send_def) (simp add: r_def)
  show ?thesis
    unfolding step using r u by (simp add: u_def) (simp add: r_def)
qed

lemma switch_one_progress:
  assumes inv: "tinv s" and cur: "pxCurrentTimerList s = (v, h) # xs" and t: "timers s h = Some t"
  shows "\<exists>s'. switch_one K v h s = Some s' \<and> tinv s' \<and> timers s' = timers s \<and>
    pxOverflowTimerList s' = pxOverflowTimerList s \<and> xLastTime s' = xLastTime s \<and>
    tick_reads s' = tick_reads s \<and> app s' = callback K (pxCallbackFunction t) h (app s) \<and>
    ticks_left (pxCurrentTimerList s') < ticks_left (pxCurrentTimerList s) \<and>
    (if uxAutoReload t = 1 \<and> v < v + xTimerPeriodInTicks t
     then pxCurrentTimerList s' = vListInsert K (v + xTimerPeriodInTicks t, h) xs \<and>
          xTimerQueue s' = xTimerQueue s
     else pxCurrentTimerList s' = xs \<and>
          xTimerQueue s' = (if uxAutoReload t = 1 then map_option (requeue h v) (xTimerQueue s)
                            else xTimerQueue s))"
proof -
  have v: "unat v < W" using unsigned_less [of v] by simp
  have "ticks_left (vListInsert K (v + xTimerPeriodInTicks t, h) xs) < ticks_left ((v, h) # xs)"
    if "v < v + xTimerPeriodInTicks t"
    using that unat_add_small [of v "xTimerPeriodInTicks t"]
    by (simp add: ticks_left_insert add_less_iff_nat) (simp add: ticks_left_def, arith)
  moreover have "ticks_left xs < ticks_left ((v, h) # xs)"
    using v by (simp add: ticks_left_def)
  ultimately show ?thesis using switch_one_step [OF assms] cur by (auto split: if_splits)
qed

text \<open>The loop ends from every state that satisfies the invariant.\<close>

lemma switch_terminates:
  assumes "tinv s"
  shows "\<exists>s'. prvSwitchTimerLists K s = Some s' \<and> tinv s' \<and> timers s' = timers s \<and>
    pxCurrentTimerList s' = pxOverflowTimerList s \<and> pxOverflowTimerList s' = [] \<and>
    xLastTime s' = xLastTime s \<and> tick_reads s' = tick_reads s \<and>
    (queue_ok s \<longrightarrow> queue_ok s') \<and> (queued P s \<and> (\<forall>h v. P (restart_msg h v)) \<longrightarrow> queued P s')"
  using assms
proof (induction "ticks_left (pxCurrentTimerList s)" arbitrary: s rule: less_induct)
  case less
  show ?case
  proof (cases "pxCurrentTimerList s")
    case Nil
    then show ?thesis
      using less.prems by (subst prvSwitchTimerLists.simps) (auto simp: tinv_def queue_ok_def queued_def)
  next
    case (Cons e xs)
    obtain v h where e: "e = (v, h)" by (cases e)
    note cur = Cons [unfolded e]
    from less.prems cur obtain t where t: "timers s h = Some t" by (auto simp: tinv_def)
    from switch_one_progress [OF less.prems cur t] obtain s1 where s1: "switch_one K v h s = Some s1"
      "tinv s1" "timers s1 = timers s" "pxOverflowTimerList s1 = pxOverflowTimerList s"
      "xLastTime s1 = xLastTime s" "tick_reads s1 = tick_reads s"
      and que: "xTimerQueue s1 = map_option (requeue h v) (xTimerQueue s) \<or> xTimerQueue s1 = xTimerQueue s"
      and left: "ticks_left (pxCurrentTimerList s1) < ticks_left (pxCurrentTimerList s)"
      by (auto split: if_splits)
    have "queue_ok s \<longrightarrow> queue_ok s1" using queue_ok_requeue [of s h s1 v] que t s1(3) by auto
    moreover have "queued P s \<and> (\<forall>h v. P (restart_msg h v)) \<longrightarrow> queued P s1"
      using queued_requeue [of P s h v s1] que by blast
    ultimately show ?thesis
      using less.hyps [OF left s1(2)] s1 s1
      by (subst prvSwitchTimerLists.simps) (auto simp: cur)
  qed
qed

end

text \<open>
  A kernel whose timer callbacks record the handle they are called with, so that the
  application state shows which timers ran and how often.
\<close>

locale logging_kernel = rtos_kernel K for K :: "nat list rtos" +
  assumes logs: "callback K f h a = a @ [h]"
begin

lemma post_again:
  assumes "tinv s" and cur: "pxCurrentTimerList s = (v, h) # xs" and t: "timers s h = Some t"
    and s1: "timers s1 = timers s" "pxOverflowTimerList s1 = pxOverflowTimerList s" "app s1 = app s @ [h]"
      "pxCurrentTimerList s1 = vListInsert K (v + xTimerPeriodInTicks t, h) xs"
    and again: "uxAutoReload t = 1" "v < v + xTimerPeriodInTicks t"
    and post: "switch_post s1 q s' ms"
  shows "switch_post s q s' ms"
proof -
  have new: "h \<notin> owners xs" using assms(1) by (simp add: tinv_def cur owners_def)
  then have "(w, g) \<in> set xs \<Longrightarrow> g \<noteq> h" for w g by (force simp: owners_def)
  then show ?thesis
    using post new t again fires_again [OF again] insert_mset [of "(v + xTimerPeriodInTicks t, h)" xs]
    by (auto simp: switch_post_def s1 cur reloads_def)
qed

lemma post_done:
  assumes "tinv s" and cur: "pxCurrentTimerList s = (v, h) # xs" and t: "timers s h = Some t"
    and s1: "timers s1 = timers s" "pxOverflowTimerList s1 = pxOverflowTimerList s" "app s1 = app s @ [h]"
      "pxCurrentTimerList s1 = xs"
    and once: "uxAutoReload t = 1 \<longrightarrow> xTimerPeriodInTicks t \<noteq> 0 \<and> \<not> v < v + xTimerPeriodInTicks t"
    and post: "switch_post s1 (if uxAutoReload t = 1 then q @ [restart_msg h v] else q) s' ms"
  shows "\<exists>ms. switch_post s q s' ms"
proof -
  have new: "h \<notin> owners xs" using assms(1) by (simp add: tinv_def cur owners_def)
  then have ne: "(w, g) \<in> set xs \<Longrightarrow> g \<noteq> h" for w g by (force simp: owners_def)
  have f: "fires t v = 1" "uxAutoReload t = 1 \<Longrightarrow> last_expiry t v = v"
    using once fires_last [of t v] by (auto simp: fires_def)
  show ?thesis
    using post new t f ne
    by (intro exI [of _ "(if uxAutoReload t = 1 then [restart_msg h v] else []) @ ms"])
      (auto simp: switch_post_def s1 cur reloads_def)
qed

lemma switch_outcome:
  assumes "tinv s" and "xTimerQueue s = Some q"
    and "length q + length (filter (\<lambda>e. reloads (timers s) (snd e)) (pxCurrentTimerList s)) \<le> configTIMER_QUEUE_LENGTH"
    and "\<forall>h t. timers s h = Some t \<longrightarrow> xTimerPeriodInTicks t \<noteq> 0"
  shows "\<exists>s' ms. prvSwitchTimerLists K s = Some s' \<and> switch_post s q s' ms"
  using assms
proof (induction "ticks_left (pxCurrentTimerList s)" arbitrary: s q rule: less_induct)
  case less
  show ?case
  proof (cases "pxCurrentTimerList s")
    case Nil
    then show ?thesis
      using less.prems by (subst prvSwitchTimerLists.simps) (auto simp: tinv_def switch_post_def)
  next
    case (Cons e xs)
    obtain v h where e: "e = (v, h)" by (cases e)
    note cur = Cons [unfolded e]
    from less.prems cur obtain t where t: "timers s h = Some t" by (auto simp: tinv_def)
    from switch_one_progress [OF less.prems(1) cur t] obtain s1 where s1: "switch_one K v h s = Some s1"
      "tinv s1" "timers s1 = timers s" "pxOverflowTimerList s1 = pxOverflowTimerList s"
      "app s1 = app s @ [h]"
      and left: "ticks_left (pxCurrentTimerList s1) < ticks_left (pxCurrentTimerList s)"
      and cur1: "if uxAutoReload t = 1 \<and> v < v + xTimerPeriodInTicks t
        then pxCurrentTimerList s1 = vListInsert K (v + xTimerPeriodInTicks t, h) xs \<and>
          xTimerQueue s1 = xTimerQueue s
        else pxCurrentTimerList s1 = xs \<and>
          xTimerQueue s1 = (if uxAutoReload t = 1 then map_option (requeue h v) (xTimerQueue s)
                            else xTimerQueue s)"
      by (auto simp: logs)
    have loop: "prvSwitchTimerLists K s = prvSwitchTimerLists K s1"
      by (subst prvSwitchTimerLists.simps) (simp add: cur s1(1))
    note IH = less.hyps [OF left s1(2)]
    show ?thesis
    proof (cases "uxAutoReload t = 1 \<and> v < v + xTimerPeriodInTicks t")
      case True
      have "length (filter (\<lambda>e. reloads (timers s) (snd e)) (pxCurrentTimerList s1))
          = length (filter (\<lambda>e. reloads (timers s) (snd e)) (pxCurrentTimerList s))"
        using cur1 True t cur by (simp add: length_filter_insert reloads_def)
      then show ?thesis
        using IH [of q] post_again [OF less.prems(1) cur t s1(3,4,5)] True cur1 less.prems s1 loop by auto blast
    next
      case False
      have q: "xTimerQueue s1 = Some (if uxAutoReload t = 1 then q @ [restart_msg h v] else q)"
        using cur1 False less.prems(2,3) t cur
        by (auto simp: requeue_def restart_msg_def reloads_def)
      have cur1': "pxCurrentTimerList s1 = xs" using cur1 False by argo
      have "length (if uxAutoReload t = 1 then q @ [restart_msg h v] else q) +
          length (filter (\<lambda>e. reloads (timers s1) (snd e)) (pxCurrentTimerList s1)) \<le> configTIMER_QUEUE_LENGTH"
        using less.prems(3) t by (simp add: cur cur1' s1(3) reloads_def split: if_splits)
      from IH [OF q this] less.prems(4) s1(3) obtain s' ms where "prvSwitchTimerLists K s1 = Some s'"
        "switch_post s1 (if uxAutoReload t = 1 then q @ [restart_msg h v] else q) s' ms" by auto
      then show ?thesis
        using post_done [OF less.prems(1) cur t s1(3,4,5) cur1'] False less.prems(4) t loop by auto
    qed
  qed
qed

end

subsection \<open>Sampling the time\<close>

context rtos_kernel
begin

text \<open>
  The last sampled time is \<open>L\<close>, the time now is \<open>N\<close>, less than one wrap later: the lists are
  switched exactly if the tick count wrapped in between.
\<close>

lemma sample_same_epoch:
  assumes "xLastTime s = tk L" and "ticks K (tick_reads s) = tk N" and "L \<le> N" and "epoch N = epoch L"
  shows "prvSampleTimeNow K s = Some (tk N, False, s\<lparr>tick_reads := tick_reads s + 1, xLastTime := tk N\<rparr>)"
proof -
  have "\<not> tk N < tk L" using same_epoch_le [of L N] assms(3,4) by simp
  then show ?thesis using assms(1,2) by (simp add: prvSampleTimeNow_def Let_def)
qed

lemma sample_next_epoch:
  assumes "tinv s" and "xLastTime s = tk L" and "ticks K (tick_reads s) = tk N"
    and "L \<le> N" and "N - L < W" and "epoch N \<noteq> epoch L"
  shows "\<exists>s'. prvSampleTimeNow K s = Some (tk N, True, s') \<and> tinv s' \<and> timers s' = timers s \<and>
    pxCurrentTimerList s' = pxOverflowTimerList s \<and> pxOverflowTimerList s' = [] \<and>
    xLastTime s' = tk N \<and> (queue_ok s \<longrightarrow> queue_ok s')"
proof -
  have "tk N < tk L" using tk_less_window [OF assms(4,5)] epoch_bounds [OF assms(4,5)] assms(6) by simp
  moreover obtain s' where "prvSwitchTimerLists K (s\<lparr>tick_reads := tick_reads s + 1\<rparr>) = Some s'"
      "tinv s'" "timers s' = timers s" "pxCurrentTimerList s' = pxOverflowTimerList s"
      "pxOverflowTimerList s' = []" "queue_ok s \<longrightarrow> queue_ok s'"
    using switch_terminates [of "s\<lparr>tick_reads := tick_reads s + 1\<rparr>" "\<lambda>_. True"] assms(1) by (auto simp: tinv_def queue_ok_def)
  ultimately show ?thesis using assms(2,3) by (auto simp: prvSampleTimeNow_def Let_def tinv_def queue_ok_def)
qed

text \<open>After the switch the deadlines of the new epoch are those that were after the wrap.\<close>

lemma switch_deadlines:
  assumes "pxCurrentTimerList s' = pxOverflowTimerList s" and "pxOverflowTimerList s' = []"
  shows "deadlines (Suc e) s' = {(d, h) \<in> deadlines e s. Suc e * W \<le> d}"
proof -
  have "\<not> Suc e * W \<le> e * W + unat v" for v :: tick using unat_lt_W [of v] by simp
  then show ?thesis using assms by (auto simp: deadlines_def)
qed

subsection \<open>Running or waiting\<close>

lemma deadline_head:
  assumes "tinv s" and "pxCurrentTimerList s = (v, h) # xs" and "(d, g) \<in> deadlines e s"
  shows "e * W + unat v \<le> d"
proof -
  have "unat v < W" using unsigned_less [of v] by simp
  moreover have "(w, g) \<in> set ((v, h) # xs) \<Longrightarrow> unat v \<le> unat w" for w
    using assms(1,2) by (force simp: tinv_def word_le_nat_alt)
  ultimately show ?thesis using assms(2,3) by (fastforce simp: deadlines_def)
qed

lemma no_oversleep:
  assumes inv: "tinv s" and last: "xLastTime s = tk L" and now: "ticks K (tick_reads s) = tk N"
    and LN: "L \<le> N" "epoch N = epoch L"
    and run: "prvProcessTimerOrBlockTask K (fst (prvGetNextExpireTime s)) (snd (prvGetNextExpireTime s)) s
      = Some (Blocked w indefinitely, s')"
  shows "deadlines (epoch N) s' = deadlines (epoch N) s \<and>
    (if indefinitely then deadlines (epoch N) s = {}
     else \<forall>(d, h) \<in> deadlines (epoch N) s. N + unat w \<le> d \<and> N < d)"
proof (cases "pxCurrentTimerList s")
  case Nil
  have w: "w = - tk N" "indefinitely = (pxOverflowTimerList s = [])"
    "s' = s\<lparr>tick_reads := tick_reads s + 1, xLastTime := tk N\<rparr>"
    using run Nil by (simp_all add: prvProcessTimerOrBlockTask_def prvGetNextExpireTime_def sample_same_epoch [OF last now LN])
  have "unat (w + tk N) = 0" by (simp add: w(1))
  then have "(unat w + unat (tk N)) mod W = 0" by (simp add: unat_word_ariths)
  then have "unat w + unat (tk N) \<le> W" using unat_lt_W [of w] unat_lt_W [of "tk N"] by (auto simp: mod_if split: if_splits)
  then have "N + unat w \<le> Suc (epoch N) * W" using deadline_epoch [of N] by simp
  moreover have "N < Suc (epoch N) * W" by (simp add: epoch_def)
  ultimately show ?thesis using Nil w by (auto simp: deadlines_def)
next
  case (Cons e xs)
  obtain v h where cur: "pxCurrentTimerList s = (v, h) # xs" using Cons by (cases e) simp
  have w: "w = v - tk N" "\<not> indefinitely" "\<not> v \<le> tk N"
    "s' = s\<lparr>tick_reads := tick_reads s + 1, xLastTime := tk N\<rparr>"
    using run cur by (auto simp: prvProcessTimerOrBlockTask_def prvGetNextExpireTime_def
        sample_same_epoch [OF last now LN] split: if_splits)
  have "unat (tk N) < unat v" using w(3) by (simp add: not_le word_less_nat_alt)
  moreover from this have "unat w = unat v - unat (tk N)"
    unfolding w(1) by (simp add: unat_sub word_le_nat_alt)
  ultimately have "N + unat w = epoch N * W + unat v" "N < epoch N * W + unat v"
    using deadline_epoch [of N] by arith+
  then show ?thesis
    using w deadline_head [OF inv cur, of _ _ "epoch N"] by (fastforce simp: deadlines_def)
qed

end

end
