(* ===== verification/TimerCommands.thy ===== *)
theory TimerCommands
  imports TimerSwitch
begin

text \<open>
  Processing of the command queue (\<^verbatim>\<open>prvProcessReceivedCommands\<close>): each command keeps the
  invariant, the loop empties the queue although it sends commands to itself, as seen at one instant.
\<close>

subsection \<open>States in which commands are processed\<close>

definition periods_ok :: "(nat \<rightharpoonup> Timer_t) \<Rightarrow> bool" where
  "periods_ok ts \<longleftrightarrow> (\<forall>h t. ts h = Some t \<longrightarrow> xTimerPeriodInTicks t \<noteq> 0)"

definition cinv :: "tick \<Rightarrow> 'a tsvc \<Rightarrow> bool" where
  "cinv n s \<longleftrightarrow> tinv s \<and> periods_ok (timers s) \<and> xLastTime s \<le> n \<and> queue_ok s"

definition is_start :: "tmrCOMMAND \<Rightarrow> bool" where
  "is_start c \<longleftrightarrow> c \<in> {tmrCOMMAND_START, tmrCOMMAND_START_FROM_ISR, tmrCOMMAND_RESET,
     tmrCOMMAND_RESET_FROM_ISR, tmrCOMMAND_START_DONT_TRACE}"

text \<open>The age of a start command bounds how often it can be sent again.\<close>

definition weight :: "tick \<Rightarrow> DaemonTaskMessage_t \<Rightarrow> nat" where
  "weight n m = (if is_start (xMessageID m) then unat (n - xMessageValue m) + 1 else 1)"

definition backlog :: "tick \<Rightarrow> 'a tsvc \<Rightarrow> nat" where
  "backlog n s = (case xTimerQueue s of None \<Rightarrow> 0 | Some q \<Rightarrow> \<Sum>m\<leftarrow>q. weight n m)"

lemma weight_restart:
  assumes "p \<le> n - v" and "p \<noteq> 0"
  shows "weight n (restart_msg h (v + p)) < unat (n - v) + 1"
proof -
  have "n - (v + p) = (n - v) - p" by simp
  then have "unat (n - (v + p)) = unat (n - v) - unat p" using assms(1) by (simp only: unat_sub)
  moreover have "0 < unat p" using assms(2) by (simp add: unat_gt_0)
  ultimately show ?thesis using assms(1)
    by (simp add: weight_def is_start_def restart_msg_def word_le_nat_alt)
qed

lemma expired_frame:
  "prvProcessExpiredTimer K v n s = Some s' \<Longrightarrow> xLastTime s' = xLastTime s \<and> tick_reads s' = tick_reads s"
  by (auto simp: prvProcessExpiredTimer_def prvInsertTimerInActiveList_def Let_def quiet_send_def [symmetric]
      split: list.splits Option.bind_splits if_splits)

context rtos_kernel
begin

lemma remove_timer_frame [simp]:
  "timers (remove_timer K h s) = timers s" "xTimerQueue (remove_timer K h s) = xTimerQueue s"
  "xLastTime (remove_timer K h s) = xLastTime s" "tick_reads (remove_timer K h s) = tick_reads s"
  "app (remove_timer K h s) = app s"
  by (simp_all add: remove_timer_def)

lemma remove_timer_lists:
  assumes "tinv s"
  shows "remove_timer K h s = s\<lparr>pxCurrentTimerList := filter (\<lambda>e. snd e \<noteq> h) (pxCurrentTimerList s),
    pxOverflowTimerList := filter (\<lambda>e. snd e \<noteq> h) (pxOverflowTimerList s)\<rparr>"
proof -
  have d: "distinct (map snd (pxCurrentTimerList s))" "distinct (map snd (pxOverflowTimerList s))"
    "h \<notin> owners (pxCurrentTimerList s) \<or> h \<notin> owners (pxOverflowTimerList s)"
    using assms by (auto simp: tinv_def)
  then show ?thesis
    using remove_filter [OF d(1)] remove_filter [OF d(2)]
      filter_owners [of h "pxCurrentTimerList s"] filter_owners [of h "pxOverflowTimerList s"]
    by (cases s) (auto simp: remove_timer_def)
qed

lemma remove_timer_tinv: "tinv s \<Longrightarrow> tinv (remove_timer K h s) \<and> \<not> active h (remove_timer K h s)"
  by (auto simp: remove_timer_lists tinv_def active_def sorted_filter distinct_map_filter)

lemma remove_timer_deadlines:
  "tinv s \<Longrightarrow> deadlines e (remove_timer K h s) = {(d, g) \<in> deadlines e s. g \<noteq> h}"
  by (auto simp: remove_timer_lists deadlines_def)

subsection \<open>One command\<close>

text \<open>The state in which a command acts: its timer is in no list and the time is sampled.\<close>

lemma command_sampled:
  assumes "tinv s" and "xLastTime s \<le> n" and "\<And>i. ticks K i = n"
  shows "\<exists>r. prvSampleTimeNow K (remove_timer K h (s\<lparr>xTimerQueue := Some q\<rparr>)) = Some (n, False, r) \<and>
    tinv r \<and> \<not> active h r \<and> timers r = timers s \<and> xTimerQueue r = Some q \<and> xLastTime r = n \<and>
    app r = app s \<and> (\<forall>e. deadlines e r = {(d, g) \<in> deadlines e s. g \<noteq> h})"
proof -
  define r where "r = remove_timer K h (s\<lparr>xTimerQueue := Some q\<rparr>)"
  have q: "tinv (s\<lparr>xTimerQueue := Some q\<rparr>)" using assms(1) by (simp add: tinv_def)
  have r: "tinv r" "\<not> active h r" using remove_timer_tinv [OF q] by (simp_all add: r_def)
  have d: "deadlines e r = {(d, g) \<in> deadlines e s. g \<noteq> h}" for e
    using remove_timer_deadlines [OF q] by (simp add: r_def) (simp add: deadlines_def)
  have "\<not> n < xLastTime r" using assms(2) by (simp add: r_def not_less)
  then have "prvSampleTimeNow K r = Some (n, False, r\<lparr>tick_reads := tick_reads r + 1, xLastTime := n\<rparr>)"
    by (simp add: prvSampleTimeNow_def Let_def assms(3))
  then show ?thesis
    using r d unfolding r_def [symmetric] by (auto simp: tinv_def active_def deadlines_def) (simp_all add: r_def)
qed

lemma command_state:
  assumes "cinv n s" and "xTimerQueue s = Some (m # q)" and "\<And>i. ticks K i = n"
  shows "\<exists>r. prvSampleTimeNow K (remove_timer K (pxTimer m) (s\<lparr>xTimerQueue := Some q\<rparr>)) = Some (n, False, r) \<and>
    tinv r \<and> \<not> active (pxTimer m) r \<and> timers r = timers s \<and> xTimerQueue r = Some q \<and> xLastTime r = n \<and>
    app r = app s \<and> (\<forall>e. deadlines e r = {(d, g) \<in> deadlines e s. g \<noteq> pxTimer m})"
  using assms(1) by (intro command_sampled assms(3)) (simp_all add: cinv_def)

lemma sample_last: "prvSampleTimeNow K s = Some (n, b, r) \<Longrightarrow> xLastTime r = n"
  by (auto simp: prvSampleTimeNow_def Let_def split: Option.bind_splits)

lemma start_outcome:
  assumes r: "tinv r" "\<not> active (pxTimer m) r" and t: "timers r (pxTimer m) = Some t"
  shows "\<exists>s'. start_timer K m n r = Some s' \<and> tinv s' \<and> timers s' = timers r \<and> xLastTime s' = xLastTime r \<and>
    tick_reads s' = tick_reads r \<and>
    app s' = (if xTimerPeriodInTicks t \<le> n - xMessageValue m
       then callback K (pxCallbackFunction t) (pxTimer m) (app r) else app r) \<and>
    xTimerQueue s' = (if xTimerPeriodInTicks t \<le> n - xMessageValue m \<and> uxAutoReload t = 1
       then map_option (requeue (pxTimer m) (xMessageValue m + xTimerPeriodInTicks t)) (xTimerQueue r)
       else xTimerQueue r) \<and>
    (xTimerPeriodInTicks t \<le> n - xMessageValue m \<longrightarrow> (\<forall>e. deadlines e s' = deadlines e r))"
proof -
  from insert_result [OF t, of "xMessageValue m" n] obtain s1 where
    s1: "prvInsertTimerInActiveList K (pxTimer m) (xMessageValue m + xTimerPeriodInTicks t) n (xMessageValue m) r
        = Some (xTimerPeriodInTicks t \<le> n - xMessageValue m, s1)"
    and fr: "xTimerPeriodInTicks t \<le> n - xMessageValue m \<longrightarrow> s1 = r" "timers s1 = timers r"
      "xTimerQueue s1 = xTimerQueue r" "app s1 = app r" "xLastTime s1 = xLastTime r" "tick_reads s1 = tick_reads r"
    by blast
  have "tinv s1" by (rule insert_tinv [OF r(1) s1 r(2)])
  then show ?thesis
    using t fr r(1) by (simp add: start_timer_def Let_def s1 quiet_send_def [symmetric])
qed

lemma start_step:
  assumes r: "tinv r" "\<not> active (pxTimer m) r" and t: "timers r (pxTimer m) = Some t"
    and q: "xTimerQueue r = Some q" "length q < configTIMER_QUEUE_LENGTH"
  shows "\<exists>s'. start_timer K m n r = Some s' \<and> tinv s' \<and> timers s' = timers r \<and> xLastTime s' = xLastTime r \<and>
    app s' = (if xTimerPeriodInTicks t \<le> n - xMessageValue m
       then callback K (pxCallbackFunction t) (pxTimer m) (app r) else app r) \<and>
    xTimerQueue s' = Some (if xTimerPeriodInTicks t \<le> n - xMessageValue m \<and> uxAutoReload t = 1
       then q @ [restart_msg (pxTimer m) (xMessageValue m + xTimerPeriodInTicks t)] else q) \<and>
    (xTimerPeriodInTicks t \<le> n - xMessageValue m \<longrightarrow> (\<forall>e. deadlines e s' = deadlines e r))"
  using start_outcome [OF r t, of n] q by (auto simp: requeue_room)

lemma change_step:
  assumes r: "tinv r" "\<not> active (pxTimer m) r" and t: "timers r (pxTimer m) = Some t"
  shows "\<exists>s'. change_period K m n r = Some s' \<and> tinv s' \<and> xTimerQueue s' = xTimerQueue r \<and>
    timers s' = (timers r)(pxTimer m \<mapsto> t\<lparr>xTimerPeriodInTicks := xMessageValue m\<rparr>) \<and> xLastTime s' = xLastTime r \<and>
    tick_reads s' = tick_reads r"
proof -
  define u where "u = r\<lparr>timers := (timers r)(pxTimer m \<mapsto> t\<lparr>xTimerPeriodInTicks := xMessageValue m\<rparr>)\<rparr>"
  have u: "tinv u" "\<not> active (pxTimer m) u"
    using r by (auto simp: u_def tinv_def active_def)
  from insert_result [of u "pxTimer m" "t\<lparr>xTimerPeriodInTicks := xMessageValue m\<rparr>" n n] obtain b s1 where
    s1: "prvInsertTimerInActiveList K (pxTimer m) (n + xMessageValue m) n n u = Some (b, s1)"
      "timers s1 = timers u" "xTimerQueue s1 = xTimerQueue u" "xLastTime s1 = xLastTime u"
      "tick_reads s1 = tick_reads u"
    by (auto simp: u_def)
  have "tinv s1" by (rule insert_tinv [OF u(1) s1(1) u(2)])
  then show ?thesis
    using t s1 by (simp add: change_period_def Let_def u_def [symmetric]) (simp add: u_def)
qed

lemma start_command_step:
  assumes r: "tinv r" "\<not> active (pxTimer m) r" "timers r = timers s" "xTimerQueue r = Some q" "xLastTime r = n"
    and t: "timers s (pxTimer m) = Some t"
    and qs: "length q < configTIMER_QUEUE_LENGTH" "list_all (safe_msg (timers s)) q"
    and p: "periods_ok (timers s)" "xTimerPeriodInTicks t \<noteq> 0"
    and q: "xTimerQueue s = Some (m # q)" and st: "is_start (xMessageID m)"
  shows "\<exists>s'. start_timer K m n r = Some s' \<and> cinv n s' \<and> backlog n s' < backlog n s"
proof -
  have rt: "timers r (pxTimer m) = Some t" using r(3) t by simp
  from start_step [OF r(1,2) rt r(4) qs(1)] obtain s' where
    s': "start_timer K m n r = Some s'" "tinv s'" "timers s' = timers r" "xLastTime s' = xLastTime r"
      "xTimerQueue s' = Some (if xTimerPeriodInTicks t \<le> n - xMessageValue m \<and> uxAutoReload t = 1
         then q @ [restart_msg (pxTimer m) (xMessageValue m + xTimerPeriodInTicks t)] else q)"
    by blast
  have "backlog n s' < backlog n s"
    using q s'(5) p(2) weight_restart [of "xTimerPeriodInTicks t" n "xMessageValue m" "pxTimer m"] st
    by (auto simp: backlog_def weight_def [of n m])
  moreover have "cinv n s'"
    using s' r qs p(1) t by (auto simp: cinv_def queue_ok_def safe_msg_def restart_msg_def)
  ultimately show ?thesis using s'(1) by blast
qed

lemma command_step:
  assumes inv: "cinv n s" and q: "xTimerQueue s = Some (m # q)" and tick: "\<And>i. ticks K i = n"
  shows "\<exists>s'. process_command K m (s\<lparr>xTimerQueue := Some q\<rparr>) = Some s' \<and> cinv n s' \<and>
    backlog n s' < backlog n s"
proof -
  obtain t where t: "timers s (pxTimer m) = Some t" and sm: "safe_msg (timers s) m"
    using inv q by (auto simp: cinv_def queue_ok_def safe_msg_def)
  have qs: "length q < configTIMER_QUEUE_LENGTH" "list_all (safe_msg (timers s)) q"
    and p: "periods_ok (timers s)" "xTimerPeriodInTicks t \<noteq> 0"
    using inv q t by (auto simp: cinv_def queue_ok_def periods_ok_def)
  from command_state [OF inv q tick] obtain r where
    r: "prvSampleTimeNow K (remove_timer K (pxTimer m) (s\<lparr>xTimerQueue := Some q\<rparr>)) = Some (n, False, r)"
      "tinv r" "\<not> active (pxTimer m) r" "timers r = timers s" "xTimerQueue r = Some q" "xLastTime r = n"
    by blast
  have run: "process_command K m (s\<lparr>xTimerQueue := Some q\<rparr>) = (case xMessageID m of
      tmrCOMMAND_STOP \<Rightarrow> Some r | tmrCOMMAND_STOP_FROM_ISR \<Rightarrow> Some r
    | tmrCOMMAND_CHANGE_PERIOD \<Rightarrow> change_period K m n r
    | tmrCOMMAND_CHANGE_PERIOD_FROM_ISR \<Rightarrow> change_period K m n r
    | tmrCOMMAND_DELETE \<Rightarrow> Some (r\<lparr>timers := (timers r)(pxTimer m := None)\<rparr>)
    | _ \<Rightarrow> start_timer K m n r)"
    using t r(1) by (simp add: process_command_def split: tmrCOMMAND.splits)
  have rt: "timers r (pxTimer m) = Some t" using r(4) t by simp
  have stop: "cinv n r \<and> backlog n r < backlog n s"
    using r qs p q by (simp add: cinv_def queue_ok_def backlog_def weight_def)
  have start: "\<exists>s'. start_timer K m n r = Some s' \<and> cinv n s' \<and> backlog n s' < backlog n s"
    if st: "is_start (xMessageID m)"
    by (rule start_command_step [OF r(2-6) t qs p q st])
  have change: "\<exists>s'. change_period K m n r = Some s' \<and> cinv n s' \<and> backlog n s' < backlog n s"
    if "xMessageValue m \<noteq> 0"
  proof -
    from change_step [OF r(2,3) rt] obtain s' where
      s': "change_period K m n r = Some s'" "tinv s'" "xTimerQueue s' = xTimerQueue r" "xLastTime s' = xLastTime r"
        "timers s' = (timers r)(pxTimer m \<mapsto> t\<lparr>xTimerPeriodInTicks := xMessageValue m\<rparr>)" by blast
    have "dom (timers s') = dom (timers s)" using s'(5) r(4) t by (simp add: insert_absorb domI)
    then have "safe_msg (timers s') = safe_msg (timers s)" by (simp add: safe_msg_def fun_eq_iff)
    then show ?thesis
      using s' r qs p(1) that stop by (auto simp: cinv_def queue_ok_def periods_ok_def backlog_def)
  qed
  show ?thesis
    using sm stop start change by (cases "xMessageID m") (auto simp: run is_start_def safe_msg_def)
qed

text \<open>The loop empties the queue.\<close>

lemma commands_terminate:
  assumes "cinv n s" and tick: "\<And>i. ticks K i = n"
  shows "\<exists>s'. prvProcessReceivedCommands K s = Some s' \<and> cinv n s' \<and> xTimerQueue s' = Some []"
  using assms(1)
proof (induction "backlog n s" arbitrary: s rule: less_induct)
  case less
  obtain q where q: "xTimerQueue s = Some q" using less.prems by (auto simp: cinv_def queue_ok_def)
  show ?case
  proof (cases q)
    case Nil
    then show ?thesis
      using q less.prems by (subst prvProcessReceivedCommands.simps) (simp add: receive_empty)
  next
    case (Cons m ms)
    from command_step [OF less.prems q [unfolded Cons] tick] less.hyps show ?thesis
      by (subst prvProcessReceivedCommands.simps) (auto simp: q Cons receive_first)
  qed
qed

end

end
