(* ===== verification/TimerRound.thy ===== *)
theory TimerRound
  imports TimerCommands
begin

text \<open>
  A round of the service task while the clock runs. Every reading of the tick count may be
  later than the one before, by at most \<open>d\<close> ticks, and the count may wrap; each period is
  more than \<open>40 * d\<close> ticks. The commands the service sends itself age while the others are
  processed, yet the loop empties the queue: a potential charges each queued command a
  constant plus its age, every command processed between two wraps lowers it by at least
  \<open>20 * d + 1\<close>, and after a wrap it is so small that the queue is empty before the next one.
\<close>

subsection \<open>Service states\<close>

definition slow_msg :: "nat \<Rightarrow> DaemonTaskMessage_t \<Rightarrow> bool" where
  "slow_msg p m \<longleftrightarrow> (xMessageID m \<in> {tmrCOMMAND_CHANGE_PERIOD, tmrCOMMAND_CHANGE_PERIOD_FROM_ISR}
     \<longrightarrow> p < unat (xMessageValue m))"

definition slow_timers :: "nat \<Rightarrow> (nat \<rightharpoonup> Timer_t) \<Rightarrow> bool" where
  "slow_timers p ts \<longleftrightarrow> (\<forall>h t. ts h = Some t \<longrightarrow> p < unat (xTimerPeriodInTicks t))"

definition service_ok :: "nat \<Rightarrow> 'a tsvc \<Rightarrow> bool" where
  "service_ok p s \<longleftrightarrow> tinv s \<and> queue_ok s \<and> slow_timers p (timers s) \<and> queued (slow_msg p) s"

lemma slow_restart [simp]: "slow_msg p (restart_msg h v)"
  by (simp add: slow_msg_def restart_msg_def)

lemma service_ok_requeue:
  assumes "service_ok p s" and "timers s h = Some t" and "tinv s'" and "timers s' = timers s"
    and "xTimerQueue s' = map_option (requeue h v) (xTimerQueue s) \<or> xTimerQueue s' = xTimerQueue s"
  shows "service_ok p s'"
  using assms queue_ok_requeue [of s h s' v] queued_requeue [of "slow_msg p" s h v s'] slow_restart
  by (auto simp: service_ok_def)

lemma service_ok_cinv: "service_ok p s \<Longrightarrow> xLastTime s = n \<Longrightarrow> cinv n s"
  by (force simp: service_ok_def cinv_def slow_timers_def periods_ok_def)

subsection \<open>The potential of the queue\<close>

definition charge :: "nat \<Rightarrow> tick \<Rightarrow> DaemonTaskMessage_t \<Rightarrow> nat" where
  "charge d n m = 30 * d + 1 + (if is_start (xMessageID m) then unat (n - xMessageValue m) else 0)"

definition potential :: "nat \<Rightarrow> 'a tsvc \<Rightarrow> nat" where
  "potential d s = (case xTimerQueue s of None \<Rightarrow> 0 | Some q \<Rightarrow> \<Sum>m\<leftarrow>q. charge d (xLastTime s) m)"

lemma unat_tk_le: "unat (tk e) \<le> e"
  by (simp add: unat_tk)

lemma age_grows: "unat (n + tk e - v) \<le> unat (n - v) + e"
proof -
  have "n + tk e - v = (n - v) + tk e" by simp
  then have "unat (n + tk e - v) = (unat (n - v) + unat (tk e)) mod 2 ^ LENGTH(32)"
    by (simp only: unat_word_ariths(1))
  also have "\<dots> \<le> unat (n - v) + unat (tk e)" by (rule mod_less_eq_dividend)
  also have "\<dots> \<le> unat (n - v) + e" using unat_tk_le by simp
  finally show ?thesis .
qed

lemma charge_later: "charge d (n + tk e) m \<le> charge d n m + e"
  using age_grows [of n e "xMessageValue m"] by (simp add: charge_def)

lemma charges_later: "(\<Sum>m\<leftarrow>q. charge d (n + tk e) m) \<le> (\<Sum>m\<leftarrow>q. charge d n m) + length q * e"
proof (induction q)
  case (Cons m q)
  then show ?case using charge_later [of d n e m] by simp
qed simp

lemma charge_restart:
  assumes "p \<le> n - v"
  shows "charge d n (restart_msg h (v + p)) + unat p = 30 * d + 1 + unat (n - v)"
proof -
  have "n - (v + p) = (n - v) - p" by simp
  then have "unat (n - (v + p)) = unat (n - v) - unat p" using assms by (simp only: unat_sub)
  then show ?thesis using assms by (simp add: charge_def is_start_def restart_msg_def word_le_nat_alt)
qed

lemma charges_bound: "length q \<le> k \<Longrightarrow> (\<Sum>m\<leftarrow>q. charge d n m) \<le> k * (30 * d + 1 + W)"
proof (induction q arbitrary: k)
  case (Cons m q)
  then obtain j where "k = Suc j" "length q \<le> j" by (cases k) auto
  then show ?case
    using Cons.IH [of j] unat_lt_W [of "n - xMessageValue m"] by (auto simp: charge_def [of d n m])
qed simp

text \<open>A command processed within one period of the counter lowers the potential.\<close>

lemma potential_falls:
  assumes q: "xTimerQueue s = Some (m # q)" and len: "length q \<le> 9"
    and n: "xLastTime s' = xLastTime s + tk e" and e: "e \<le> d"
    and q': "xTimerQueue s' = Some q \<or> is_start (xMessageID m) \<and> p \<le> xLastTime s' - xMessageValue m \<and>
      40 * d < unat p \<and> xTimerQueue s' = Some (q @ [restart_msg (pxTimer m) (xMessageValue m + p)])"
  shows "potential d s' + (20 * d + 1) \<le> potential d s"
proof -
  have old: "potential d s = charge d (xLastTime s) m + (\<Sum>m\<leftarrow>q. charge d (xLastTime s) m)"
    using q by (simp add: potential_def)
  have "length q * e \<le> 9 * d" using len e by (rule mult_le_mono)
  then have rest: "(\<Sum>m\<leftarrow>q. charge d (xLastTime s') m) \<le> (\<Sum>m\<leftarrow>q. charge d (xLastTime s) m) + 9 * d"
    using charges_later [of d "xLastTime s" e q] n by simp
  show ?thesis
    using q'
  proof
    assume "xTimerQueue s' = Some q"
    then show ?thesis using old rest by (simp add: potential_def charge_def [of d _ m])
  next
    assume again: "is_start (xMessageID m) \<and> p \<le> xLastTime s' - xMessageValue m \<and>
      40 * d < unat p \<and> xTimerQueue s' = Some (q @ [restart_msg (pxTimer m) (xMessageValue m + p)])"
    then have "charge d (xLastTime s') (restart_msg (pxTimer m) (xMessageValue m + p)) + unat p
        \<le> charge d (xLastTime s) m + d"
      using charge_restart [of p "xLastTime s'" "xMessageValue m" d "pxTimer m"]
        age_grows [of "xLastTime s" e "xMessageValue m"] n e by (simp add: charge_def [of d _ m])
    then show ?thesis using again old rest by (simp add: potential_def)
  qed
qed

subsection \<open>The clock\<close>

text \<open>
  Readings of the tick count: the \<open>i\<close>-th is the time \<open>T i\<close>, which never runs backwards and
  advances by at most \<open>d\<close> from one reading to the next.
\<close>

definition paced :: "nat \<Rightarrow> (nat \<Rightarrow> nat) \<Rightarrow> 'a rtos \<Rightarrow> bool" where
  "paced d T K \<longleftrightarrow> (\<forall>i. ticks K i = tk (T i) \<and> T i \<le> T (Suc i) \<and> T (Suc i) \<le> T i + d)"

text \<open>The last reading was at \<open>T i\<close>; the ticks left until the next wrap.\<close>

definition read_at :: "(nat \<Rightarrow> nat) \<Rightarrow> nat \<Rightarrow> 'a tsvc \<Rightarrow> bool" where
  "read_at T i s \<longleftrightarrow> tick_reads s = Suc i \<and> xLastTime s = tk (T i)"

definition to_wrap :: "(nat \<Rightarrow> nat) \<Rightarrow> nat \<Rightarrow> nat" where
  "to_wrap T i = W - T i mod W"

lemma paced_next:
  assumes "paced d T K"
  obtains e where "e \<le> d" and "T (Suc i) = T i + e" and "tk (T (Suc i)) = tk (T i) + tk e"
    and "ticks K (Suc i) = tk (T (Suc i))"
proof
  let ?e = "T (Suc i) - T i"
  show "T (Suc i) = T i + ?e" "?e \<le> d" using assms by (simp_all add: paced_def le_diff_conv add.commute)
  then show "tk (T (Suc i)) = tk (T i) + tk ?e" by (metis tk_add)
  show "ticks K (Suc i) = tk (T (Suc i))" using assms by (simp add: paced_def)
qed

lemma to_wrap_step:
  assumes "T (Suc i) = T i + e" and "e < W"
  shows "tk (T (Suc i)) < tk (T i) \<longleftrightarrow> to_wrap T i \<le> e"
    and "to_wrap T i \<le> e \<Longrightarrow> W - e < to_wrap T (Suc i)"
    and "e < to_wrap T i \<Longrightarrow> to_wrap T (Suc i) + e = to_wrap T i"
proof -
  have lt: "T i mod W < W" by simp
  have m: "T (Suc i) mod W = (if T i mod W + e < W then T i mod W + e else T i mod W + e - W)"
  proof -
    have "T (Suc i) mod W = (T i mod W + e) mod W" unfolding assms(1) by (rule mod_add_left_eq [symmetric])
    then show ?thesis using lt assms(2) by (simp add: le_mod_geq)
  qed
  show "tk (T (Suc i)) < tk (T i) \<longleftrightarrow> to_wrap T i \<le> e"
    using lt assms(2) m by (auto simp: word_less_nat_alt unat_tk to_wrap_def split: if_splits)
  show "to_wrap T i \<le> e \<Longrightarrow> W - e < to_wrap T (Suc i)"
    using lt assms(2) m by (auto simp: to_wrap_def split: if_splits)
  show "e < to_wrap T i \<Longrightarrow> to_wrap T (Suc i) + e = to_wrap T i"
    using lt m by (auto simp: to_wrap_def split: if_splits)
qed


subsection \<open>One command at a later time\<close>

context rtos_kernel
begin

lemma sample_service:
  assumes "service_ok p s" and n: "ticks K (tick_reads s) = n"
  shows "\<exists>r. prvSampleTimeNow K s = Some (n, n < xLastTime s, r) \<and> service_ok p r \<and> timers r = timers s \<and>
    xLastTime r = n \<and> tick_reads r = tick_reads s + 1 \<and> (active h r \<longrightarrow> active h s) \<and>
    (\<not> n < xLastTime s \<longrightarrow> xTimerQueue r = xTimerQueue s \<and> pxCurrentTimerList r = pxCurrentTimerList s)"
proof (cases "n < xLastTime s")
  case False
  then show ?thesis
    using assms by (auto simp: prvSampleTimeNow_def Let_def service_ok_def tinv_def queue_ok_def queued_def active_def)
next
  case True
  let ?u = "s\<lparr>tick_reads := tick_reads s + 1\<rparr>"
  have u: "tinv ?u" "queue_ok ?u" "queued (slow_msg p) ?u"
    using assms(1) by (auto simp: service_ok_def tinv_def queue_ok_def queued_def)
  from switch_terminates [OF u(1), of "slow_msg p"] u(2,3) obtain s' where
    s': "prvSwitchTimerLists K ?u = Some s'" "tinv s'" "timers s' = timers s" "queue_ok s'"
      "queued (slow_msg p) s'" "tick_reads s' = tick_reads s + 1"
      "pxCurrentTimerList s' = pxOverflowTimerList s" "pxOverflowTimerList s' = []" by auto
  have "service_ok p (s'\<lparr>xLastTime := n\<rparr>)"
    using s' assms(1) by (simp add: service_ok_def tinv_def queue_ok_def queued_def)
  then show ?thesis
    using True n s' by (auto simp: prvSampleTimeNow_def Let_def active_def in_list_def)
qed

lemma change_service:
  assumes r: "service_ok p r" "\<not> active (pxTimer m) r" and t: "timers r (pxTimer m) = Some t"
    and v: "p < unat (xMessageValue m)"
  shows "\<exists>s'. change_period K m n r = Some s' \<and> service_ok p s' \<and> xTimerQueue s' = xTimerQueue r \<and>
    xLastTime s' = xLastTime r \<and> tick_reads s' = tick_reads r"
proof -
  from change_step [OF _ r(2) t] r(1) obtain s' where
    s': "change_period K m n r = Some s'" "tinv s'" "xTimerQueue s' = xTimerQueue r" "xLastTime s' = xLastTime r"
      "timers s' = (timers r)(pxTimer m \<mapsto> t\<lparr>xTimerPeriodInTicks := xMessageValue m\<rparr>)"
      "tick_reads s' = tick_reads r" by (auto simp: service_ok_def)
  have "dom (timers s') = dom (timers r)" using s'(5) t by (simp add: insert_absorb domI)
  then have "safe_msg (timers s') = safe_msg (timers r)" by (simp add: safe_msg_def fun_eq_iff)
  moreover have "slow_timers p (timers s')" using s'(5) r(1) v by (auto simp: service_ok_def slow_timers_def)
  ultimately have "service_ok p s'" using s' r(1) by (simp add: service_ok_def queue_ok_def queued_def)
  then show ?thesis using s' by blast
qed

lemma command_outcome:
  assumes ok: "service_ok p s" and q: "xTimerQueue s = Some (m # q)" and n: "ticks K (tick_reads s) = n"
    and t: "timers s (pxTimer m) = Some t"
  shows "\<exists>s'. process_command K m (s\<lparr>xTimerQueue := Some q\<rparr>) = Some s' \<and> service_ok p s' \<and>
    xLastTime s' = n \<and> tick_reads s' = tick_reads s + 1 \<and>
    (\<not> n < xLastTime s \<longrightarrow> xTimerQueue s' = Some q \<or>
      is_start (xMessageID m) \<and> xTimerPeriodInTicks t \<le> n - xMessageValue m \<and>
      xTimerQueue s' = Some (q @ [restart_msg (pxTimer m) (xMessageValue m + xTimerPeriodInTicks t)]))"
proof -
  let ?u = "remove_timer K (pxTimer m) (s\<lparr>xTimerQueue := Some q\<rparr>)"
  have safe: "safe_msg (timers s) m" "slow_msg p m" and len: "length q < configTIMER_QUEUE_LENGTH"
    using ok q by (auto simp: service_ok_def queue_ok_def queued_def)
  have "tinv (s\<lparr>xTimerQueue := Some q\<rparr>)" using ok by (simp add: service_ok_def tinv_def)
  from remove_timer_tinv [OF this] have u: "service_ok p ?u" "\<not> active (pxTimer m) ?u"
    using ok q by (auto simp: service_ok_def queue_ok_def queued_def)
  from sample_service [OF u(1), of n "pxTimer m"] u(2) n obtain r where
    r: "prvSampleTimeNow K ?u = Some (n, n < xLastTime s, r)" "service_ok p r" "timers r = timers s"
      "xLastTime r = n" "tick_reads r = tick_reads s + 1" "\<not> active (pxTimer m) r"
      "\<not> n < xLastTime s \<longrightarrow> xTimerQueue r = Some q" by auto
  have rt: "timers r (pxTimer m) = Some t" using r(3) t by simp
  have tr: "tinv r" using r(2) by (simp add: service_ok_def)
  from start_outcome [OF tr r(6) rt, of n] obtain a where
    a: "start_timer K m n r = Some a" "tinv a" "timers a = timers r" "xLastTime a = xLastTime r"
      "tick_reads a = tick_reads r" "xTimerQueue a = (if xTimerPeriodInTicks t \<le> n - xMessageValue m \<and> uxAutoReload t = 1
       then map_option (requeue (pxTimer m) (xMessageValue m + xTimerPeriodInTicks t)) (xTimerQueue r)
       else xTimerQueue r)" by blast
  have "service_ok p a"
    by (rule service_ok_requeue [OF r(2) rt a(2,3), of "xMessageValue m + xTimerPeriodInTicks t"]) (use a(6) in auto)
  then show ?thesis
    using safe a r len t change_service [OF r(2,6) rt, of n]
    by (cases "xMessageID m") (auto simp: process_command_def is_start_def safe_msg_def slow_msg_def requeue_room)
qed

text \<open>One pass of the command loop, seen on the clock.\<close>

lemma paced_command:
  assumes ok: "service_ok (40 * d) s" and q: "xTimerQueue s = Some (m # q)"
    and clock: "paced d T K" and at: "read_at T i s"
  shows "\<exists>s' e. process_command K m (s\<lparr>xTimerQueue := Some q\<rparr>) = Some s' \<and> service_ok (40 * d) s' \<and>
    read_at T (Suc i) s' \<and> 40 * d < W \<and> e \<le> d \<and> T (Suc i) = T i + e \<and>
    (e < to_wrap T i \<longrightarrow> potential d s' + (20 * d + 1) \<le> potential d s)"
proof -
  obtain t where t: "timers s (pxTimer m) = Some t"
    using ok q by (auto simp: service_ok_def queue_ok_def safe_msg_def)
  have p: "40 * d < unat (xTimerPeriodInTicks t)" and len: "length q \<le> 9"
    using ok q t by (auto simp: service_ok_def slow_timers_def queue_ok_def configTIMER_QUEUE_LENGTH_def)
  obtain e where e: "e \<le> d" "T (Suc i) = T i + e" "tk (T (Suc i)) = tk (T i) + tk e"
      "ticks K (Suc i) = tk (T (Suc i))" using paced_next [OF clock] by blast
  have W: "40 * d < W" using p unat_lt_W [of "xTimerPeriodInTicks t"] by simp
  have n: "ticks K (tick_reads s) = tk (T (Suc i))" using at e(4) by (simp add: read_at_def)
  from command_outcome [OF ok q n t] obtain s' where
    s': "process_command K m (s\<lparr>xTimerQueue := Some q\<rparr>) = Some s'" "service_ok (40 * d) s'"
      "xLastTime s' = tk (T (Suc i))" "tick_reads s' = tick_reads s + 1"
    and que: "\<not> tk (T (Suc i)) < xLastTime s \<longrightarrow> xTimerQueue s' = Some q \<or>
      is_start (xMessageID m) \<and> xTimerPeriodInTicks t \<le> tk (T (Suc i)) - xMessageValue m \<and>
      xTimerQueue s' = Some (q @ [restart_msg (pxTimer m) (xMessageValue m + xTimerPeriodInTicks t)])" by blast
  have last: "xLastTime s = tk (T i)" using at by (simp add: read_at_def)
  have "potential d s' + (20 * d + 1) \<le> potential d s" if "e < to_wrap T i"
  proof (rule potential_falls [OF q len _ e(1)])
    show "xLastTime s' = xLastTime s + tk e" using s'(3) e(3) last by simp
    have "\<not> tk (T (Suc i)) < xLastTime s" using that to_wrap_step(1) [of T i e] e(1,2) W last by simp
    then show "xTimerQueue s' = Some q \<or> is_start (xMessageID m) \<and>
      xTimerPeriodInTicks t \<le> xLastTime s' - xMessageValue m \<and> 40 * d < unat (xTimerPeriodInTicks t) \<and>
      xTimerQueue s' = Some (q @ [restart_msg (pxTimer m) (xMessageValue m + xTimerPeriodInTicks t)])"
      using que p s'(3) by simp
  qed
  moreover have "read_at T (Suc i) s'" using s'(3,4) at by (simp add: read_at_def)
  ultimately show ?thesis using s'(1,2) e(1,2) W by blast
qed

end

subsection \<open>The loop empties the queue\<close>

definition drained :: "nat \<Rightarrow> (nat \<Rightarrow> nat) \<Rightarrow> nat \<Rightarrow> 'a tsvc \<Rightarrow> bool" where
  "drained d T i s \<longleftrightarrow> service_ok (40 * d) s \<and> xTimerQueue s = Some [] \<and> (\<exists>j \<ge> i. read_at T j s)"

text \<open>The potential is so small that the queue is empty before the counter wraps.\<close>

definition wrap_far :: "nat \<Rightarrow> (nat \<Rightarrow> nat) \<Rightarrow> nat \<Rightarrow> 'a tsvc \<Rightarrow> bool" where
  "wrap_far d T i s \<longleftrightarrow> potential d s * d < to_wrap T i * (20 * d + 1)"

lemma to_wrap_pos: "0 < to_wrap T i"
  by (simp add: to_wrap_def)

lemma wrap_far_no_wrap:
  assumes "wrap_far d T i s" and "e \<le> d" and "xTimerQueue s = Some (m # q)"
  shows "e < to_wrap T i"
proof (rule ccontr)
  assume "\<not> e < to_wrap T i"
  then have "to_wrap T i \<le> d" using assms(2) by simp
  then have "to_wrap T i * (20 * d + 1) \<le> d * potential d s"
    using assms(3) by (intro mult_le_mono) (auto simp: potential_def charge_def [of d _ m])
  then show False using assms(1) by (simp add: wrap_far_def mult.commute)
qed

lemma wrap_far_step:
  assumes far: "wrap_far d T i s" and e: "e \<le> d" "to_wrap T (Suc i) + e = to_wrap T i"
    and fall: "potential d s' + (20 * d + 1) \<le> potential d s"
  shows "wrap_far d T (Suc i) s'"
proof -
  have "(potential d s' + (20 * d + 1)) * d < (to_wrap T (Suc i) + e) * (20 * d + 1)"
    using mult_le_mono1 [OF fall, of d] far e(2) by (simp only: wrap_far_def)
  moreover have "e * (20 * d + 1) \<le> (20 * d + 1) * d" using e(1) by (metis mult.commute mult_le_mono2)
  ultimately have "potential d s' * d < to_wrap T (Suc i) * (20 * d + 1)"
    by (simp only: add_mult_distrib)
  then show ?thesis by (simp only: wrap_far_def)
qed

lemma drain_rate:
  assumes "39 * d < (w :: nat)"
  shows "10 * (30 * d + 1 + (w + d)) * d < w * (20 * d + 1)"
proof -
  have "39 * (d * d) \<le> w * d" using mult_le_mono1 [of "39 * d" w d] assms by (simp add: mult.assoc)
  moreover have "10 * (30 * d + 1 + (w + d)) * d = 310 * (d * d) + 10 * d + 10 * (w * d)"
    "w * (20 * d + 1) = 20 * (w * d) + w" by (simp_all add: algebra_simps)
  ultimately show ?thesis using assms by linarith
qed

lemma wrap_far_after:
  assumes W: "40 * d < W" and far: "W - d \<le> to_wrap T i" and len: "queue_ok s"
  shows "wrap_far d T i s"
proof -
  have pot: "potential d s \<le> 10 * (30 * d + 1 + W)"
    using len charges_bound [of _ 10 d "xLastTime s"]
    by (auto simp: queue_ok_def potential_def configTIMER_QUEUE_LENGTH_def)
  have "10 * (30 * d + 1 + W) * d < (W - d) * (20 * d + 1)"
    using drain_rate [of d "W - d"] W by simp
  then show ?thesis
    using pot far mult_le_mono1 [OF pot, of d] mult_le_mono1 [OF far, of "20 * d + 1"]
    unfolding wrap_far_def by linarith
qed

context rtos_kernel
begin

lemma received_nil: "xTimerQueue s = Some [] \<Longrightarrow> prvProcessReceivedCommands K s = Some s"
  by (subst prvProcessReceivedCommands.simps) (simp add: receive_empty)

lemma received_cons:
  assumes "xTimerQueue s = Some (m # q)" and "process_command K m (s\<lparr>xTimerQueue := Some q\<rparr>) = Some s'"
  shows "prvProcessReceivedCommands K s = prvProcessReceivedCommands K s'"
  using assms by (subst prvProcessReceivedCommands.simps) (simp add: receive_first)

lemma drained_later: "i \<le> j \<Longrightarrow> drained d T j s \<Longrightarrow> drained d T i s"
  by (auto simp: drained_def intro: order_trans)

lemma drains_before_wrap:
  assumes "service_ok (40 * d) s" and clock: "paced d T K" and "read_at T i s" and "wrap_far d T i s"
  shows "\<exists>s'. prvProcessReceivedCommands K s = Some s' \<and> drained d T i s'"
  using assms(1,3,4)
proof (induction "potential d s" arbitrary: s i rule: less_induct)
  case less
  obtain q where q: "xTimerQueue s = Some q" using less.prems by (auto simp: service_ok_def queue_ok_def)
  show ?case
  proof (cases q)
    case Nil
    then show ?thesis using q less.prems received_nil by (auto simp: drained_def)
  next
    case (Cons m ms)
    note q = q [unfolded Cons]
    from paced_command [OF less.prems(1) q clock less.prems(2)] obtain s' e where
      s': "process_command K m (s\<lparr>xTimerQueue := Some ms\<rparr>) = Some s'" "service_ok (40 * d) s'"
        "read_at T (Suc i) s'" and e: "40 * d < W" "e \<le> d" "T (Suc i) = T i + e"
      and fall: "e < to_wrap T i \<longrightarrow> potential d s' + (20 * d + 1) \<le> potential d s" by blast
    have no: "e < to_wrap T i" by (rule wrap_far_no_wrap [OF less.prems(3) e(2) q])
    have "to_wrap T (Suc i) + e = to_wrap T i" using to_wrap_step(3) [of T i e] e no by simp
    from wrap_far_step [OF less.prems(3) e(2) this] fall no have "wrap_far d T (Suc i) s'" by blast
    with less.hyps [OF _ s'(2,3)] fall no drained_later [of i "Suc i"] received_cons [OF q s'(1)]
    show ?thesis by fastforce
  qed
qed

lemma drains:
  assumes "service_ok (40 * d) s" and clock: "paced d T K" and "read_at T i s"
  shows "\<exists>s'. prvProcessReceivedCommands K s = Some s' \<and> drained d T i s'"
  using assms(1,3)
proof (induction "potential d s" arbitrary: s i rule: less_induct)
  case less
  obtain q where q: "xTimerQueue s = Some q" using less.prems by (auto simp: service_ok_def queue_ok_def)
  show ?case
  proof (cases q)
    case Nil
    then show ?thesis using q less.prems received_nil by (auto simp: drained_def)
  next
    case (Cons m ms)
    note q = q [unfolded Cons]
    from paced_command [OF less.prems(1) q clock less.prems(2)] obtain s' e where
      s': "process_command K m (s\<lparr>xTimerQueue := Some ms\<rparr>) = Some s'" "service_ok (40 * d) s'"
        "read_at T (Suc i) s'" and e: "40 * d < W" "e \<le> d" "T (Suc i) = T i + e"
      and fall: "e < to_wrap T i \<longrightarrow> potential d s' + (20 * d + 1) \<le> potential d s" by blast
    have "\<exists>s''. prvProcessReceivedCommands K s' = Some s'' \<and> drained d T (Suc i) s''"
    proof (cases "e < to_wrap T i")
      case True
      then show ?thesis using less.hyps [OF _ s'(2,3)] fall by simp
    next
      case False
      then have "W - d \<le> to_wrap T (Suc i)" using to_wrap_step(2) [of T i e] e by simp
      then have "wrap_far d T (Suc i) s'"
        by (rule wrap_far_after [OF e(1)]) (use s'(2) in \<open>simp add: service_ok_def\<close>)
      then show ?thesis by (rule drains_before_wrap [OF s'(2) clock s'(3)])
    qed
    then show ?thesis using drained_later [of i "Suc i"] received_cons [OF q s'(1)] by fastforce
  qed
qed

subsection \<open>A round of the task\<close>

lemma expired_service:
  assumes ok: "service_ok p s" and cur: "pxCurrentTimerList s = (v, h) # xs" and due: "v \<le> n"
  shows "\<exists>s'. prvProcessExpiredTimer K v n s = Some s' \<and> service_ok p s' \<and> xLastTime s' = xLastTime s \<and>
    tick_reads s' = tick_reads s"
proof -
  obtain t where inv: "tinv s" and t: "timers s h = Some t"
    using ok cur by (auto simp: service_ok_def tinv_def)
  have "epoch (unat n) = 0" "0 * W + unat v \<le> unat n"
    using due unat_lt_W [of n] by (auto simp: epoch_def word_le_nat_alt)
  from expired_outcome [OF inv cur t this] obtain s' where s': "prvProcessExpiredTimer K v n s = Some s'"
    "tinv s'" "timers s' = timers s"
    and que: "xTimerQueue s' = map_option (requeue h v) (xTimerQueue s) \<or> xTimerQueue s' = xTimerQueue s"
    by (auto split: if_splits)
  show ?thesis
    using s'(1) service_ok_requeue [OF ok t s'(2,3) que] expired_frame [OF s'(1)] by blast
qed

lemma round_returns:
  assumes ok: "service_ok (40 * d) s" and clock: "paced d T K"
  shows "\<exists>act s'. prvTimerTask_round K s = Some (act, s') \<and> drained d T (tick_reads s) s'"
proof -
  obtain x w where xw: "prvGetNextExpireTime s = (x, w)" by force
  define n where "n = tk (T (tick_reads s))"
  have n: "ticks K (tick_reads s) = n" using clock by (simp add: paced_def n_def)
  from sample_service [OF ok n] obtain r where
    r: "prvSampleTimeNow K s = Some (n, n < xLastTime s, r)" "service_ok (40 * d) r" "xLastTime r = n"
      "tick_reads r = tick_reads s + 1"
      "\<not> n < xLastTime s \<longrightarrow> pxCurrentTimerList r = pxCurrentTimerList s" by blast
  have at: "read_at T (tick_reads s) u" if "xLastTime u = xLastTime r" "tick_reads u = tick_reads r" for u :: "'a tsvc"
    using that r(3,4) by (simp add: read_at_def n_def)
  have "\<exists>act u. prvProcessTimerOrBlockTask K x w s = Some (act, u) \<and> service_ok (40 * d) u \<and>
      read_at T (tick_reads s) u"
  proof (cases "\<not> n < xLastTime s \<and> \<not> w \<and> x \<le> n")
    case True
    then obtain h xs where "pxCurrentTimerList r = (x, h) # xs"
      using r(5) xw by (auto simp: prvGetNextExpireTime_def split: list.splits)
    from expired_service [OF r(2) this] True at show ?thesis
      by (fastforce simp: prvProcessTimerOrBlockTask_def r(1))
  next
    case False
    then show ?thesis using r(2) at by (auto simp: prvProcessTimerOrBlockTask_def r(1))
  qed
  then show ?thesis
    using drains [OF _ clock] by (fastforce simp: prvTimerTask_round_def xw)
qed

end

subsection \<open>A clock that is too fast\<close>

text \<open>
  Some bound on the clock is needed: if it advances by a whole period from one reading to
  the next, a late periodic timer never catches up and its restart command is sent forever.
\<close>

definition starved :: "'a rtos \<Rightarrow> nat \<Rightarrow> Timer_t \<Rightarrow> 'a tsvc \<Rightarrow> bool" where
  "starved K h t s \<longleftrightarrow> pxCurrentTimerList s = [] \<and> pxOverflowTimerList s = [] \<and> timers s h = Some t \<and>
     (\<exists>v. xTimerQueue s = Some [restart_msg h v] \<and> xTimerPeriodInTicks t \<le> ticks K (tick_reads s) - v)"

lemma switch_nil:
  "pxCurrentTimerList s = [] \<Longrightarrow> prvSwitchTimerLists K s = Some (s\<lparr>pxCurrentTimerList := pxOverflowTimerList s,
     pxOverflowTimerList := []\<rparr>)"
  by (subst prvSwitchTimerLists.simps) simp

context rtos_kernel
begin

lemma starved_step:
  assumes "starved K h t s" and t: "uxAutoReload t = 1"
    and tick: "\<And>i. ticks K (Suc i) = ticks K i + xTimerPeriodInTicks t"
    and "xTimerQueue s = Some (m # q)"
  shows "\<exists>s'. process_command K m (s\<lparr>xTimerQueue := Some q\<rparr>) = Some s' \<and> starved K h t s'"
proof -
  define n p where "n = ticks K (tick_reads s)" and "p = xTimerPeriodInTicks t"
  obtain v where v: "m = restart_msg h v" "q = []" "p \<le> n - v" and s: "pxCurrentTimerList s = []"
      "pxOverflowTimerList s = []" "timers s h = Some t"
    using assms(1,4) by (auto simp: starved_def n_def p_def)
  define r where "r = s\<lparr>xTimerQueue := Some [], tick_reads := Suc (tick_reads s), xLastTime := n\<rparr>"
  define s' where "s' = quiet_send K h (v + p) (run_callback K t h r)"
  have r: "prvSampleTimeNow K (remove_timer K h (s\<lparr>xTimerQueue := Some []\<rparr>)) = Some (n, n < xLastTime s, r)"
    using s by (simp add: prvSampleTimeNow_def Let_def remove_timer_def in_list_def switch_nil r_def n_def)
  have "timers r h = Some t" using s by (simp add: r_def)
  from insert_result [OF this, of v n] v(3) have "start_timer K m n r = Some s'"
    using s t v(1) by (auto simp: start_timer_def Let_def s'_def p_def quiet_send_def restart_msg_def r_def)
  then have "process_command K m (s\<lparr>xTimerQueue := Some q\<rparr>) = Some s'"
    using v(1,2) r s by (simp add: process_command_def restart_msg_def)
  moreover have "starved K h t s'"
    using s v(3) tick by (simp add: starved_def s'_def requeue_room configTIMER_QUEUE_LENGTH_def)
      (simp add: r_def n_def p_def requeue_room configTIMER_QUEUE_LENGTH_def, rule exI [of _ "v + p"], simp add: p_def)
  ultimately show ?thesis by blast
qed

lemma starved_forever:
  assumes "starved K h t s" and t: "uxAutoReload t = 1"
    and tick: "\<And>i. ticks K (Suc i) = ticks K i + xTimerPeriodInTicks t"
  shows "prvProcessReceivedCommands K s = None"
proof -
  have "\<not> starved K h t s" if "prvProcessReceivedCommands K s = Some y" for s y
  proof -
    have "K = K \<longrightarrow> \<not> starved K h t s"
    proof (rule prvProcessReceivedCommands.raw_induct [where P = "\<lambda>K' s y. K' = K \<longrightarrow> \<not> starved K h t s", OF _ that],
        intro impI notI)
      fix f K' s y
      assume rec: "\<And>K' s y. f K' s = Some y \<Longrightarrow> K' = K \<longrightarrow> \<not> starved K h t s"
        and run: "(case xTimerQueue s of None \<Rightarrow> None | Some q \<Rightarrow> (case xQueueReceive K' q of None \<Rightarrow> Some s
          | Some (m, q) \<Rightarrow> Option.bind (process_command K' m (s\<lparr>xTimerQueue := Some q\<rparr>)) (f K'))) = Some y"
        and K': "K' = K" and st: "starved K h t s"
      from st obtain m where m: "xTimerQueue s = Some [m]" by (auto simp: starved_def)
      from starved_step [OF st t tick m] run K' m rec show False by (auto simp: receive_first)
    qed
    then show ?thesis by simp
  qed
  then show ?thesis using assms(1) by (cases "prvProcessReceivedCommands K s") auto
qed
end

end
