(* ===== verification/TimerCatchUp.thy ===== *)
theory TimerCatchUp
  imports TimerRound
begin

text \<open>
  Late commands of the timer service: a periodic timer whose start command is processed
  late runs once per missed expiry and is rearmed at the next multiple of its period; a
  restart command the service sends itself can outlive its timer, and can be lost when the
  queue is full.
\<close>

context rtos_kernel
begin

lemma start_pending:
  assumes t: "timers r (pxTimer m) = Some t" and late: "\<not> xTimerPeriodInTicks t \<le> n - xMessageValue m"
    and N: "tk N = n" "unat (n - xMessageValue m) \<le> N"
  shows "\<exists>s'. start_timer K m n r = Some s' \<and> app s' = app r \<and> xTimerQueue s' = xTimerQueue r \<and>
    deadlines (epoch N) s' = deadlines (epoch N) r \<union>
      {(N - unat (n - xMessageValue m) + unat (xTimerPeriodInTicks t), pxTimer m)}"
proof -
  define C where "C = N - unat (n - xMessageValue m)"
  have CN: "C \<le> N" "N - C < W" "N - C = unat (n - xMessageValue m)"
    using N(2) unat_lt_W [of "n - xMessageValue m"] by (simp_all add: C_def)
  have c: "tk C = xMessageValue m" unfolding C_def by (rule tk_back [OF N])
  have le: "\<not> C + unat (xTimerPeriodInTicks t) \<le> N" using late CN by (simp add: word_le_nat_alt)
  from insert_refines [OF t CN(1,2)] insert_result [OF t, of "xMessageValue m" n] le obtain s' where
    "prvInsertTimerInActiveList K (pxTimer m) (xMessageValue m + xTimerPeriodInTicks t) n (xMessageValue m) r
        = Some (False, s')" "app s' = app r" "xTimerQueue s' = xTimerQueue r"
    "deadlines (epoch N) s' = deadlines (epoch N) r \<union> {(C + unat (xTimerPeriodInTicks t), pxTimer m)}"
    by (auto simp: c N(1))
  then show ?thesis using t by (simp add: start_timer_def Let_def C_def)
qed

lemma pending_start_command:
  assumes inv: "cinv n s" and q: "xTimerQueue s = Some (m # q)" and tick: "\<And>i. ticks K i = n"
    and m: "is_start (xMessageID m)" and t: "timers s (pxTimer m) = Some t"
    and late: "\<not> xTimerPeriodInTicks t \<le> n - xMessageValue m" and N: "tk N = n" "unat (n - xMessageValue m) \<le> N"
  shows "\<exists>s'. process_command K m (s\<lparr>xTimerQueue := Some q\<rparr>) = Some s' \<and> cinv n s' \<and> xTimerQueue s' = Some q \<and>
    timers s' = timers s \<and> app s' = app s \<and>
    deadlines (epoch N) s' = {(d, g) \<in> deadlines (epoch N) s. g \<noteq> pxTimer m} \<union>
      {(N - unat (n - xMessageValue m) + unat (xTimerPeriodInTicks t), pxTimer m)}"
proof -
  from command_state [OF inv q tick] obtain r where
    r: "prvSampleTimeNow K (remove_timer K (pxTimer m) (s\<lparr>xTimerQueue := Some q\<rparr>)) = Some (n, False, r)"
      "tinv r" "\<not> active (pxTimer m) r" "timers r = timers s" "xTimerQueue r = Some q" "app r = app s"
      "deadlines (epoch N) r = {(d, g) \<in> deadlines (epoch N) s. g \<noteq> pxTimer m}" by blast
  have one: "process_command K m (s\<lparr>xTimerQueue := Some q\<rparr>) = start_timer K m n r"
    using r(1) m t by (auto simp: process_command_def is_start_def)
  have rt: "timers r (pxTimer m) = Some t" using r(4) t by simp
  have len: "length q < configTIMER_QUEUE_LENGTH" using inv q by (auto simp: cinv_def queue_ok_def)
  from start_step [OF r(2,3) rt r(5) len, of n] start_pending [OF rt late N] command_step [OF inv q tick] one r
  show ?thesis by auto
qed

lemma change_deadline:
  assumes r: "tinv r" "\<not> active (pxTimer m) r" and t: "timers r (pxTimer m) = Some t" and p: "xMessageValue m \<noteq> 0"
  shows "\<exists>s'. change_period K m (tk N) r = Some s' \<and> tinv s' \<and>
    timers s' = (timers r)(pxTimer m \<mapsto> t\<lparr>xTimerPeriodInTicks := xMessageValue m\<rparr>) \<and>
    deadlines (epoch N) s' = deadlines (epoch N) r \<union> {(N + unat (xMessageValue m), pxTimer m)}"
proof -
  define t' where "t' = t\<lparr>xTimerPeriodInTicks := xMessageValue m\<rparr>"
  define u where "u = r\<lparr>timers := (timers r)(pxTimer m \<mapsto> t')\<rparr>"
  have u: "timers u (pxTimer m) = Some t'" "deadlines (epoch N) u = deadlines (epoch N) r"
    by (simp_all add: u_def deadlines_def)
  have "0 < unat (xMessageValue m)" using p by (simp add: unat_gt_0)
  with insert_refines [OF u(1), of N N] u(2) obtain s' where
    s': "prvInsertTimerInActiveList K (pxTimer m) (tk N + xMessageValue m) (tk N) (tk N) u = Some (False, s')"
      "deadlines (epoch N) s' = deadlines (epoch N) r \<union> {(N + unat (xMessageValue m), pxTimer m)}"
    by (auto simp: t'_def)
  from change_step [OF r t, of "tk N"] s' t show ?thesis
    by (auto simp: change_period_def Let_def u_def t'_def)
qed

text \<open>The command that was sent before the timer was deleted is received after it.\<close>

lemma restart_after_free:
  assumes inv: "tinv s" "xLastTime s \<le> n" and tick: "\<And>i. ticks K i = n"
    and q: "xTimerQueue s = Some [m, d]" and m: "is_start (xMessageID m)" "pxTimer m = h"
    and d: "xMessageID d = tmrCOMMAND_DELETE" "pxTimer d = h"
    and t: "timers s h = Some t" "uxAutoReload t = 1" "xTimerPeriodInTicks t \<le> n - xMessageValue m"
  shows "prvProcessReceivedCommands K s = None"
proof -
  from command_sampled [OF inv tick, of h "[d]"] obtain r where
    r: "prvSampleTimeNow K (remove_timer K h (s\<lparr>xTimerQueue := Some [d]\<rparr>)) = Some (n, False, r)"
      "tinv r" "\<not> active h r" "timers r = timers s" "xTimerQueue r = Some [d]" by blast
  have "length [d] < configTIMER_QUEUE_LENGTH" by (simp add: configTIMER_QUEUE_LENGTH_def)
  with start_step [of r m t "[d]" n] r t m obtain s1 where
    s1: "start_timer K m n r = Some s1" "tinv s1" "timers s1 = timers s" "xLastTime s1 = xLastTime r"
      "xTimerQueue s1 = Some [d, restart_msg h (xMessageValue m + xTimerPeriodInTicks t)]" by auto
  have one: "process_command K m (s\<lparr>xTimerQueue := Some [d]\<rparr>) = Some s1"
    using r(1) m t s1(1) by (auto simp: process_command_def is_start_def)
  have "xLastTime s1 \<le> n" using s1(4) sample_last [OF r(1)] by simp
  from command_sampled [OF s1(2) this tick, of h "[restart_msg h (xMessageValue m + xTimerPeriodInTicks t)]"]
  obtain r2 where r2: "prvSampleTimeNow K (remove_timer K h (s1\<lparr>xTimerQueue :=
        Some [restart_msg h (xMessageValue m + xTimerPeriodInTicks t)]\<rparr>)) = Some (n, False, r2)"
      "xTimerQueue r2 = Some [restart_msg h (xMessageValue m + xTimerPeriodInTicks t)]" by blast
  define s2 where "s2 = r2\<lparr>timers := (timers r2)(h := None)\<rparr>"
  have two: "process_command K d (s1\<lparr>xTimerQueue := Some [restart_msg h (xMessageValue m + xTimerPeriodInTicks t)]\<rparr>)
      = Some s2"
    using r2(1) d t s1(3) by (simp add: process_command_def s2_def)
  have three: "process_command K (restart_msg h v) (s2\<lparr>xTimerQueue := Some []\<rparr>) = None" for v
    by (simp add: process_command_def s2_def restart_msg_def)
  have q2: "xTimerQueue s2 = Some [restart_msg h (xMessageValue m + xTimerPeriodInTicks t)]"
    using r2(2) by (simp add: s2_def)
  have "prvProcessReceivedCommands K s2 = None"
    by (subst prvProcessReceivedCommands.simps) (simp add: q2 receive_first three)
  then have "prvProcessReceivedCommands K s1 = None"
    by (subst prvProcessReceivedCommands.simps) (simp add: s1(5) receive_first two)
  then show ?thesis
    by (subst prvProcessReceivedCommands.simps) (simp add: q receive_first one)
qed

end

lemma catch_up_arith:
  fixes d p :: nat
  assumes "0 < p" and "p \<le> d" and "d \<le> N"
  shows "N - (d - p) + ((d - p) div p + 1) * p = N - d + (d div p + 1) * p"
  using assms div_step [of p d] by (simp add: algebra_simps)

context logging_kernel
begin

text \<open>A start command that is alone in the queue: the timer leaves its list, then it is started.\<close>

lemma lone_start:
  assumes inv: "cinv n s" and tick: "\<And>i. ticks K i = n"
    and queue: "xTimerQueue s = Some [m]" and start: "is_start (xMessageID m)" "pxTimer m = h"
    and t: "timers s h = Some t"
  obtains r where "prvProcessReceivedCommands K s = Option.bind (start_timer K m n r) (prvProcessReceivedCommands K)"
    "tinv r" "\<not> active h r" "timers r = timers s" "xTimerQueue r = Some []" "xLastTime r = n" "app r = app s"
    "\<And>e. deadlines e r = {(d, g) \<in> deadlines e s. g \<noteq> h}"
proof -
  from command_state [OF inv queue tick] obtain r where
    r: "prvSampleTimeNow K (remove_timer K h (s\<lparr>xTimerQueue := Some []\<rparr>)) = Some (n, False, r)"
      "tinv r" "\<not> active h r" "timers r = timers s" "xTimerQueue r = Some []" "xLastTime r = n" "app r = app s"
      "\<And>e. deadlines e r = {(d, g) \<in> deadlines e s. g \<noteq> h}"
    using start(2) by blast
  have "process_command K m (s\<lparr>xTimerQueue := Some []\<rparr>) = start_timer K m n r"
    using r(1) start t by (auto simp: process_command_def is_start_def)
  then have "prvProcessReceivedCommands K s = Option.bind (start_timer K m n r) (prvProcessReceivedCommands K)"
    by (subst prvProcessReceivedCommands.simps) (simp add: queue receive_first)
  then show thesis using that r by blast
qed

lemma catch_up:
  assumes "cinv n s" and tick: "\<And>i. ticks K i = n" and N: "tk N = n" "unat (n - xMessageValue m) \<le> N"
    and "xTimerQueue s = Some [m]" and "is_start (xMessageID m)" and "pxTimer m = h"
    and t: "timers s h = Some t" and reload: "uxAutoReload t = 1"
  shows "\<exists>s'. prvProcessReceivedCommands K s = Some s' \<and> xTimerQueue s' = Some [] \<and>
    app s' = app s @ replicate (unat (n - xMessageValue m) div unat (xTimerPeriodInTicks t)) h \<and>
    deadlines (epoch N) s' = {(d, g) \<in> deadlines (epoch N) s. g \<noteq> h} \<union>
      {(N - unat (n - xMessageValue m) +
          (unat (n - xMessageValue m) div unat (xTimerPeriodInTicks t) + 1) * unat (xTimerPeriodInTicks t), h)}"
  using assms(1,4-8)
proof (induction "unat (n - xMessageValue m)" arbitrary: s m rule: less_induct)
  case less
  define p v where "p = xTimerPeriodInTicks t" and "v = xMessageValue m"
  have p: "p \<noteq> 0" "0 < unat p" using less.prems(1,6) by (auto simp: cinv_def periods_ok_def p_def unat_gt_0)
  obtain r where loop: "prvProcessReceivedCommands K s = Option.bind (start_timer K m n r) (prvProcessReceivedCommands K)"
    and r: "tinv r" "\<not> active h r" "timers r = timers s" "xTimerQueue r = Some []" "xLastTime r = n" "app r = app s"
      "\<And>e. deadlines e r = {(d, g) \<in> deadlines e s. g \<noteq> h}"
    using lone_start [OF less.prems(1) tick less.prems(3-6)] by blast
  have rt: "timers r (pxTimer m) = Some t" using r(3) less.prems(5,6) by simp
  show ?case
  proof (cases "p \<le> n - v")
    case False
    from start_pending [OF rt _ N(1) less.prems(2)] False obtain s' where
      s': "start_timer K m n r = Some s'" "app s' = app s" "xTimerQueue s' = Some []"
        "deadlines (epoch N) s' = deadlines (epoch N) r \<union> {(N - unat (n - v) + unat p, h)}"
      using r(4,6) less.prems(5) by (auto simp: p_def v_def)
    have fin: "prvProcessReceivedCommands K s' = Some s'"
      by (subst prvProcessReceivedCommands.simps) (simp add: s'(3) receive_empty)
    have "unat (n - v) div unat p = 0" using False by (simp add: word_le_nat_alt)
    then show ?thesis
      unfolding loop s'(1) p_def [symmetric] v_def [symmetric] using s' r(7) fin by simp
  next
    case True
    have lp: "unat p \<le> unat (n - v)" using True by (simp add: word_le_nat_alt)
    have "n - (v + p) = (n - v) - p" by simp
    then have d: "unat (n - (v + p)) = unat (n - v) - unat p" using True by (simp only: unat_sub)
    have len: "length ([] :: DaemonTaskMessage_t list) < configTIMER_QUEUE_LENGTH"
      by (simp add: configTIMER_QUEUE_LENGTH_def)
    from start_step [OF r(1) _ rt r(4) len, of n] r(2) True less.prems(5) obtain s1 where
      s1: "start_timer K m n r = Some s1" "tinv s1" "timers s1 = timers s" "xLastTime s1 = n"
        "app s1 = app s @ [h]" "xTimerQueue s1 = Some [restart_msg h (v + p)]"
        "deadlines (epoch N) s1 = deadlines (epoch N) r"
      using r reload by (auto simp: p_def v_def logs)
    have inv1: "cinv n s1"
      using s1 less.prems(1,6)
      by (auto simp: cinv_def queue_ok_def safe_msg_def restart_msg_def configTIMER_QUEUE_LENGTH_def)
    have M: "xMessageValue (restart_msg h (v + p)) = v + p" "is_start (xMessageID (restart_msg h (v + p)))"
      "pxTimer (restart_msg h (v + p)) = h" by (simp_all add: restart_msg_def is_start_def)
    have "\<exists>s'. prvProcessReceivedCommands K s1 = Some s' \<and> xTimerQueue s' = Some [] \<and>
      app s' = app s1 @ replicate (unat (n - (v + p)) div unat p) h \<and>
      deadlines (epoch N) s' = {(d, g) \<in> deadlines (epoch N) s1. g \<noteq> h} \<union>
        {(N - unat (n - (v + p)) + (unat (n - (v + p)) div unat p + 1) * unat p, h)}"
      using less.hyps [OF _ inv1 _ _ M(2,3), unfolded M(1) p_def [symmetric]] s1 d lp p(2) less.prems(2,6)
      by (simp add: v_def ac_simps)
    moreover have "replicate (unat (n - v) div unat p) h = h # replicate (unat (n - (v + p)) div unat p) h"
      using div_step [OF p(2) lp] by (simp add: d)
    moreover have "N - unat (n - (v + p)) + (unat (n - (v + p)) div unat p + 1) * unat p
        = N - unat (n - v) + (unat (n - v) div unat p + 1) * unat p"
      unfolding d using catch_up_arith [OF p(2) lp] less.prems(2) by (simp add: v_def)
    ultimately show ?thesis
      unfolding loop s1(1) p_def [symmetric] v_def [symmetric] using s1 r(7) by fastforce
  qed
qed

end

end
