(* ===== verification/TimerProperties.thy ===== *)
theory TimerProperties
  imports TimerCatchUp
begin

text \<open>
  The guarantees of the timer service, stated over every kernel that satisfies the laws of
  the locale \<open>rtos_kernel\<close>, and a concrete kernel that satisfies them: lists ordered by item
  value with equal values in order of insertion, and a queue that refuses a message when it
  is full.
\<close>

subsection \<open>A concrete kernel\<close>

fun list_insert :: "titem \<Rightarrow> titem list \<Rightarrow> titem list" where
  "list_insert e [] = [e]"
| "list_insert e (x # xs) = (if fst x \<le> fst e then x # list_insert e xs else e # x # xs)"

definition queue_send :: "DaemonTaskMessage_t \<Rightarrow> DaemonTaskMessage_t list \<Rightarrow> bool \<times> DaemonTaskMessage_t list" where
  "queue_send m q = (if length q < configTIMER_QUEUE_LENGTH then (True, q @ [m]) else (False, q))"

definition ref_rtos :: "(nat \<Rightarrow> nat \<Rightarrow> 'a \<Rightarrow> 'a) \<Rightarrow> (nat \<Rightarrow> tick) \<Rightarrow> 'a rtos" where
  "ref_rtos cb tks = \<lparr>vListInsert = list_insert, uxListRemove = (\<lambda>h. filter (\<lambda>e. snd e \<noteq> h)),
     xQueueCreate = (\<lambda>_. Some []), xQueueSendToBack = (\<lambda>m _. queue_send m),
     xQueueSendToBackFromISR = queue_send,
     xQueueReceive = (\<lambda>q. case q of [] \<Rightarrow> None | m # q \<Rightarrow> Some (m, q)),
     pvPortMalloc = (\<lambda>heap. List.find (\<lambda>h. heap h = None) [1..<16]),
     xTaskCreate = True, callback = cb, ticks = tks\<rparr>"

lemma ref_rtos_sel [simp]:
  "vListInsert (ref_rtos cb tks) = list_insert" "uxListRemove (ref_rtos cb tks) h = filter (\<lambda>e. snd e \<noteq> h)"
  "xQueueCreate (ref_rtos cb tks) n = Some []" "xQueueSendToBack (ref_rtos cb tks) m w = queue_send m"
  "xQueueReceive (ref_rtos cb tks) q = (case q of [] \<Rightarrow> None | m # q \<Rightarrow> Some (m, q))"
  "pvPortMalloc (ref_rtos cb tks) heap = List.find (\<lambda>h. heap h = None) [1..<16]"
  "callback (ref_rtos cb tks) = cb" "ticks (ref_rtos cb tks) = tks"
  by (simp_all add: ref_rtos_def)

lemma list_insert_mset: "mset (list_insert e xs) = add_mset e (mset xs)"
  by (induction e xs rule: list_insert.induct) auto

lemma list_insert_sorted: "sorted (map fst xs) \<Longrightarrow> sorted (map fst (list_insert e xs))"
proof (induction e xs rule: list_insert.induct)
  case (2 e x xs)
  have "set (list_insert e xs) = insert e (set xs)"
    using list_insert_mset [of e xs] by (metis set_mset_add_mset_insert set_mset_mset)
  then show ?case using 2 by auto
qed simp

interpretation ref: rtos_kernel "ref_rtos cb tks" for cb tks
  by unfold_locales
    (auto simp: list_insert_sorted list_insert_mset queue_send_def find_Some_iff)

interpretation ref_log: logging_kernel "ref_rtos (\<lambda>f h a. a @ [h]) tks" for tks
  by unfold_locales simp

subsection \<open>Concrete states\<close>

definition demo_timer :: "tick \<Rightarrow> u32 \<Rightarrow> Timer_t" where
  "demo_timer p r = \<lparr>pcTimerName = ''T'', xTimerPeriodInTicks = p, uxAutoReload = r, pvTimerID = 0,
     pxCallbackFunction = 0\<rparr>"

definition demo_state :: "Timer_t \<Rightarrow> titem list \<Rightarrow> titem list \<Rightarrow> DaemonTaskMessage_t list \<Rightarrow> tick \<Rightarrow> nat list tsvc" where
  "demo_state t cur ovf q l = \<lparr>timers = [7 \<mapsto> t], pxCurrentTimerList = cur, pxOverflowTimerList = ovf,
     xTimerQueue = Some q, xLastTime = l, tick_reads = 0, scheduler_running = True, app = []\<rparr>"

abbreviation log_rtos :: "tick \<Rightarrow> nat list rtos" where
  "log_rtos n \<equiv> ref_rtos (\<lambda>f h a. a @ [h]) (\<lambda>_. n)"

lemma periods_demo [simp]:
  "periods_ok (timers (demo_state t cur ovf q l)) \<longleftrightarrow> xTimerPeriodInTicks t \<noteq> 0"
  "periods_ok [7 \<mapsto> t] \<longleftrightarrow> xTimerPeriodInTicks t \<noteq> 0"
  by (auto simp: periods_ok_def demo_state_def)

lemmas demo_simps = demo_timer_def demo_state_def tinv_def owners_def

subsection \<open>Insertion into the lists\<close>

text \<open>
  C1: Wrapped comparison decides real time. Whenever a timer is (re)started with a command
  time \<open>C\<close> and processed at time \<open>N\<close> less than one wrap of the 32-bit tick counter later,
  \<^verbatim>\<open>prvInsertTimerInActiveList\<close> reports that the expiry \<open>C + period\<close> has passed exactly if it
  has in unbounded time, and otherwise adds exactly that deadline, in the list (current or
  overflow) that stands for its epoch.
\<close>

theorem insert_decides_expiry:
  assumes "rtos_kernel K" and "timers s h = Some t" and "C \<le> N" and "N - C < W"
  shows "\<exists>s'. prvInsertTimerInActiveList K h (tk C + xTimerPeriodInTicks t) (tk N) (tk C) s
      = Some (C + unat (xTimerPeriodInTicks t) \<le> N, s') \<and>
    deadlines (epoch N) s' = deadlines (epoch N) s \<union>
      (if C + unat (xTimerPeriodInTicks t) \<le> N then {} else {(C + unat (xTimerPeriodInTicks t), h)})"
  using assms by (rule rtos_kernel.insert_refines)

theorem insert_decides_expiry_witness:
  "\<exists>s'. prvInsertTimerInActiveList (log_rtos 0) 7 (tk 4294967290 + xTimerPeriodInTicks (demo_timer 10 1))
        (tk 4294967295) (tk 4294967290) (demo_state (demo_timer 10 1) [] [] [] 0) = Some (False, s') \<and>
      deadlines 0 s' = {(4294967300, 7)}"
  using insert_decides_expiry [OF ref.rtos_kernel_axioms, of "demo_state (demo_timer 10 1) [] [] [] 0" 7
      "demo_timer 10 1" 4294967290 4294967295]
  by (simp add: demo_simps epoch_def deadlines_def)

subsection \<open>Running the first timer\<close>

text \<open>
  C5: Expiry of the first timer of the current list at time \<open>N\<close>: the call returns, keeps the
  invariant, runs that timer's callback, removes its deadline \<open>V\<close>, and for an auto-reload
  timer either records the next deadline \<open>V + period\<close> (measured from the deadline, not from
  the moment of processing) or, if that has passed too, sends the service the command to
  restart the timer from \<open>V\<close>.
\<close>

theorem expired_timer_rearmed:
  assumes "rtos_kernel K" and "tinv s" and "pxCurrentTimerList s = (v, h) # xs" and "timers s h = Some t"
    and "epoch N = e" and "e * W + unat v \<le> N"
  shows "\<exists>s'. prvProcessExpiredTimer K v (tk N) s = Some s' \<and> tinv s' \<and> timers s' = timers s \<and>
    app s' = callback K (pxCallbackFunction t) h (app s) \<and>
    deadlines e s' = deadlines e s - {(e * W + unat v, h)} \<union>
      (if uxAutoReload t = 1 \<and> N < e * W + unat v + unat (xTimerPeriodInTicks t)
       then {(e * W + unat v + unat (xTimerPeriodInTicks t), h)} else {}) \<and>
    xTimerQueue s' = (if uxAutoReload t = 1 \<and> e * W + unat v + unat (xTimerPeriodInTicks t) \<le> N
       then map_option (requeue h v) (xTimerQueue s) else xTimerQueue s)"
  using assms by (rule rtos_kernel.expired_outcome)

theorem expired_timer_rearmed_witness:
  "\<exists>s'. prvProcessExpiredTimer (log_rtos 0) 4294967290 (tk 4294967295)
      (demo_state (demo_timer 10 1) [(4294967290, 7)] [] [] 0) = Some s' \<and>
    app s' = [7] \<and> deadlines 0 s' = {(4294967300, 7)}"
  using expired_timer_rearmed [OF ref.rtos_kernel_axioms, of "demo_state (demo_timer 10 1) [(4294967290, 7)] [] [] 0"
      4294967290 7 "[]" "demo_timer 10 1" 4294967295 0 "\<lambda>f h a. a @ [h]" "\<lambda>_. 0"]
  by (simp add: demo_simps epoch_def deadlines_def) blast

text \<open>
  A full queue loses a periodic timer. If the first timer expires so late that its next
  expiry has passed as well, and the command queue is full, \<^verbatim>\<open>prvProcessExpiredTimer\<close> drops the
  restart command (\<^verbatim>\<open>configASSERT\<close> is not defined in this build): the timer is in no list and
  in no command afterwards, so it stops silently.
\<close>

theorem expired_timer_lost_when_full:
  assumes "rtos_kernel K" and "tinv s" and "pxCurrentTimerList s = (v, h) # xs" and "timers s h = Some t"
    and "uxAutoReload t = 1" and "epoch N = e" and "e * W + unat v + unat (xTimerPeriodInTicks t) \<le> N"
    and "xTimerQueue s = Some q" and "configTIMER_QUEUE_LENGTH \<le> length q"
  shows "\<exists>s'. prvProcessExpiredTimer K v (tk N) s = Some s' \<and> xTimerIsTimerActive h s' = Some False \<and>
    xTimerQueue s' = Some q"
proof -
  from rtos_kernel.expired_outcome [OF assms(1-4,6)] assms(5,7,8,9) obtain s' where
    s': "prvProcessExpiredTimer K v (tk N) s = Some s'" "timers s' = timers s"
      "deadlines e s' = deadlines e s - {(e * W + unat v, h)}" "xTimerQueue s' = Some q"
    by (auto simp: requeue_def)
  have "\<not> active h s'"
    using s'(3) rtos_kernel.deadlines_tail [OF assms(1-3)] rtos_kernel.tinv_tail [OF assms(1-3)]
    by (metis active_deadlines not_active_deadlines)
  then show ?thesis using s' assms(4) by (simp add: xTimerIsTimerActive_def)
qed

theorem expired_timer_lost_when_full_witness:
  "\<exists>s'. prvProcessExpiredTimer (log_rtos 0) 100 (tk 120)
      (demo_state (demo_timer 10 1) [(100, 7)] [] (replicate 10 (restart_msg 3 0)) 0) = Some s' \<and>
    xTimerIsTimerActive 7 s' = Some False \<and> xTimerQueue s' = Some (replicate 10 (restart_msg 3 0))"
  by (rule expired_timer_lost_when_full [OF ref.rtos_kernel_axioms, where xs = "[]" and e = 0 and t = "demo_timer 10 1"])
    (simp_all add: demo_simps epoch_def configTIMER_QUEUE_LENGTH_def)

subsection \<open>Waiting and switching\<close>

text \<open>
  C6: The service never sleeps past a deadline. When \<^verbatim>\<open>prvProcessTimerOrBlockTask\<close> decides to
  block at time \<open>N\<close>, no deadline has been reached, and it blocks indefinitely only when no
  timer is active, otherwise for no longer than until the earliest deadline (or until the
  wrap, when all deadlines lie behind it).
\<close>

theorem service_never_oversleeps:
  assumes "rtos_kernel K" and "tinv s" and "xLastTime s = tk L" and "ticks K (tick_reads s) = tk N"
    and "L \<le> N" and "epoch N = epoch L"
    and "prvProcessTimerOrBlockTask K (fst (prvGetNextExpireTime s)) (snd (prvGetNextExpireTime s)) s
      = Some (Blocked w indefinitely, s')"
  shows "deadlines (epoch N) s' = deadlines (epoch N) s \<and>
    (if indefinitely then deadlines (epoch N) s = {}
     else \<forall>(d, h) \<in> deadlines (epoch N) s. N + unat w \<le> d \<and> N < d)"
  using assms by (rule rtos_kernel.no_oversleep)

theorem service_never_oversleeps_witness:
  "prvProcessTimerOrBlockTask (log_rtos 40) 50 False (demo_state (demo_timer 10 1) [(50, 7)] [] [] 30)
    = Some (Blocked 10 False, demo_state (demo_timer 10 1) [(50, 7)] [] [] 30 \<lparr>tick_reads := 1, xLastTime := 40\<rparr>) \<and>
  deadlines 0 (demo_state (demo_timer 10 1) [(50, 7)] [] [] 30) = {(50, 7)} \<and> 40 + unat (10::tick) \<le> 50"
  using service_never_oversleeps [OF ref.rtos_kernel_axioms,
      of "demo_state (demo_timer 10 1) [(50, 7)] [] [] 30" 30 "\<lambda>f h a. a @ [h]" "\<lambda>_. 40" 40 10 False
        "demo_state (demo_timer 10 1) [(50, 7)] [] [] 30 \<lparr>tick_reads := 1, xLastTime := 40\<rparr>"]
  by (simp add: demo_simps epoch_def tk_def prvProcessTimerOrBlockTask_def prvGetNextExpireTime_def
      prvSampleTimeNow_def deadlines_def)

text \<open>
  C4: The wrap of the tick counter loses no expiry. \<^verbatim>\<open>prvSwitchTimerLists\<close> returns; the overflow
  list becomes current; every timer that was still in the current list runs once for each
  of its expiries before the wrap (\<^const>\<open>fires\<close>) and no other timer runs; and each auto-reload
  timer gets exactly one restart command carrying its last expiry before the wrap, provided
  the queue has room for these commands.
\<close>

theorem switch_runs_every_expiry:
  assumes "logging_kernel K" and "tinv s" and "xTimerQueue s = Some q"
    and "length q + length (filter (\<lambda>e. reloads (timers s) (snd e)) (pxCurrentTimerList s)) \<le> configTIMER_QUEUE_LENGTH"
    and "\<forall>h t. timers s h = Some t \<longrightarrow> xTimerPeriodInTicks t \<noteq> 0"
  shows "\<exists>s' ms. prvSwitchTimerLists K s = Some s' \<and> switch_post s q s' ms"
  using assms by (rule logging_kernel.switch_outcome)

theorem switch_runs_every_expiry_witness:
  "\<exists>s' ms. prvSwitchTimerLists (log_rtos 3) (demo_state (demo_timer 10 1) [(4294967270, 7)] [] [] 4294967200) = Some s' \<and>
    switch_post (demo_state (demo_timer 10 1) [(4294967270, 7)] [] [] 4294967200) [] s' ms"
  by (rule switch_runs_every_expiry [OF ref_log.logging_kernel_axioms])
    (auto simp: demo_simps configTIMER_QUEUE_LENGTH_def reloads_def)

subsection \<open>Commands\<close>

text \<open>
  C2: A periodic timer catches up without drift. If the start command of an auto-reload timer,
  issued at \<open>C = N - age\<close>, is processed at time \<open>N\<close>, the command loop ends with an empty queue,
  has run the callback exactly once for each of the \<open>age div period\<close> expiries that passed in
  between, and leaves the timer armed at \<open>C + (age div period + 1) * period\<close>, the first multiple
  of the period after \<open>N\<close>; the other timers keep their deadlines.
\<close>

theorem late_start_catches_up:
  assumes "logging_kernel K" and "cinv n s" and "\<And>i. ticks K i = n" and "tk N = n"
    and "unat (n - xMessageValue m) \<le> N" and "xTimerQueue s = Some [m]" and "is_start (xMessageID m)"
    and "pxTimer m = h" and "timers s h = Some t" and "uxAutoReload t = 1"
  shows "\<exists>s'. prvProcessReceivedCommands K s = Some s' \<and> xTimerQueue s' = Some [] \<and>
    app s' = app s @ replicate (unat (n - xMessageValue m) div unat (xTimerPeriodInTicks t)) h \<and>
    deadlines (epoch N) s' = {(d, g) \<in> deadlines (epoch N) s. g \<noteq> h} \<union>
      {(N - unat (n - xMessageValue m) +
          (unat (n - xMessageValue m) div unat (xTimerPeriodInTicks t) + 1) * unat (xTimerPeriodInTicks t), h)}"
  using assms by (rule logging_kernel.catch_up)

theorem late_start_catches_up_witness:
  "\<exists>s'. prvProcessReceivedCommands (log_rtos 135)
      (demo_state (demo_timer 10 1) [] [] [restart_msg 7 100] 130) = Some s' \<and>
    app s' = [7, 7, 7] \<and> deadlines 0 s' = {(140, 7)}"
  using late_start_catches_up [OF ref_log.logging_kernel_axioms, of 135
      "demo_state (demo_timer 10 1) [] [] [restart_msg 7 100] 130" "\<lambda>_. 135" 135 "restart_msg 7 100" 7 "demo_timer 10 1"]
  by (simp add: demo_simps cinv_def queue_ok_def safe_msg_def restart_msg_def is_start_def
      epoch_def tk_def deadlines_def configTIMER_QUEUE_LENGTH_def numeral_3_eq_3) blast

text \<open>
  C3: A round of the service task returns while time passes. The \<open>i\<close>-th reading of the tick
  count is the time \<open>T i\<close>, modulo the wrap; time never runs backwards, advances by at most \<open>d\<close>
  ticks between two readings (one command is processed per reading), and the count may wrap
  during the round. If every period, and every period a queued command is about to set, is
  longer than \<open>40 * d\<close> ticks (room for the ten queued commands to age while one of them is
  processed), then from any state that satisfies the invariant, with commands that refer to
  live timers and delete none, one pass of the endless loop (run the first timer or wait,
  then drain the command queue, including the restart commands the service sends itself)
  ends, with the invariant restored, the queue empty, and the time of its last reading
  recorded. No other task sends a command during the pass: it counts as sent before or
  after. Both conditions are needed, as shown below: a queued delete command can make the pass
  dereference a freed timer, and a clock that is fast against a period keeps it busy for ever.
\<close>

theorem timer_round_returns:
  assumes "rtos_kernel K" and "tinv s" and "queue_ok s" and "\<And>i. ticks K i = tk (T i)"
    and "\<And>i. T i \<le> T (Suc i)" and "\<And>i. T (Suc i) \<le> T i + d"
    and "slow_timers (40 * d) (timers s)" and "queued (slow_msg (40 * d)) s"
  shows "\<exists>act s' j. prvTimerTask_round K s = Some (act, s') \<and> cinv (tk (T j)) s' \<and> xTimerQueue s' = Some [] \<and>
    xLastTime s' = tk (T j) \<and> tick_reads s' = Suc j \<and> tick_reads s \<le> j"
proof -
  have "service_ok (40 * d) s" "paced d T K" using assms by (simp_all add: service_ok_def paced_def)
  from rtos_kernel.round_returns [OF assms(1) this] show ?thesis
    by (fastforce simp: drained_def read_at_def service_ok_cinv)
qed

theorem timer_round_returns_witness:
  "\<exists>act s' j. prvTimerTask_round (ref_rtos (\<lambda>f h a. a @ [h]) (\<lambda>i. tk (4294967290 + 2 * i)))
      (demo_state (demo_timer 100 1) [(4294967270, 7)] [] [restart_msg 7 4294966000, restart_msg 7 1] 4294967200)
      = Some (act, s') \<and> cinv (tk (4294967290 + 2 * j)) s' \<and> xTimerQueue s' = Some [] \<and>
    xLastTime s' = tk (4294967290 + 2 * j) \<and> tick_reads s' = Suc j \<and>
    tick_reads (demo_state (demo_timer 100 1) [(4294967270, 7)] []
      [restart_msg 7 4294966000, restart_msg 7 1] 4294967200) \<le> j"
  by (rule timer_round_returns [OF ref.rtos_kernel_axioms, where d = 2 and T = "\<lambda>i. 4294967290 + 2 * i"])
    (simp_all add: demo_simps queue_ok_def safe_msg_def restart_msg_def configTIMER_QUEUE_LENGTH_def
      slow_timers_def queued_def slow_msg_def)

text \<open>
  C12: The bound on the clock is not idle: if the tick count advances by one period between two
  readings, a late periodic timer that is alone in the service has its restart command sent
  again for ever, and the command loop does not return.
\<close>

theorem fast_clock_starves_service:
  assumes "rtos_kernel K" and "pxCurrentTimerList s = []" and "pxOverflowTimerList s = []"
    and "timers s h = Some t" and "uxAutoReload t = 1" and "xTimerQueue s = Some [restart_msg h v]"
    and "xTimerPeriodInTicks t \<le> ticks K (tick_reads s) - v"
    and "\<And>i. ticks K (Suc i) = ticks K i + xTimerPeriodInTicks t"
  shows "prvProcessReceivedCommands K s = None"
  using assms by (intro rtos_kernel.starved_forever [of K h t s]) (auto simp: starved_def)

theorem fast_clock_starves_service_witness:
  "prvProcessReceivedCommands (ref_rtos (\<lambda>f h a. a @ [h]) (\<lambda>i. tk (120 + 10 * i)))
    (demo_state (demo_timer 10 1) [] [] [restart_msg 7 100] 110) = None"
  by (rule fast_clock_starves_service [OF ref.rtos_kernel_axioms, where h = 7 and v = 100 and t = "demo_timer 10 1"])
    (simp_all add: demo_simps tk_def word_le_nat_alt)

text \<open>
  C7: The effect of the commands that do not start a timer, processed at time \<open>N\<close> in the epoch of
  the last sample: \<^verbatim>\<open>tmrCOMMAND_STOP\<close> removes the timer's deadline, \<^verbatim>\<open>tmrCOMMAND_CHANGE_PERIOD\<close>
  sets the period and arms the timer at \<open>N + period\<close>, \<^verbatim>\<open>tmrCOMMAND_DELETE\<close> removes the deadline
  and frees the control block. Other timers keep their deadlines and the invariant holds.
\<close>

theorem command_effects:
  assumes K: "rtos_kernel K" and inv: "cinv (tk N) s" and q: "xTimerQueue s = Some (m # q)"
    and tick: "\<And>i. ticks K i = tk N" and t: "timers s (pxTimer m) = Some t"
  shows "\<exists>s'. (xMessageID m = tmrCOMMAND_STOP \<longrightarrow>
      process_command K m (s\<lparr>xTimerQueue := Some q\<rparr>) = Some s' \<and> tinv s' \<and> timers s' = timers s \<and>
      deadlines (epoch N) s' = {(d, g) \<in> deadlines (epoch N) s. g \<noteq> pxTimer m}) \<and>
    (xMessageID m = tmrCOMMAND_CHANGE_PERIOD \<and> xMessageValue m \<noteq> 0 \<longrightarrow>
      process_command K m (s\<lparr>xTimerQueue := Some q\<rparr>) = Some s' \<and> tinv s' \<and>
      timers s' = (timers s)(pxTimer m \<mapsto> t\<lparr>xTimerPeriodInTicks := xMessageValue m\<rparr>) \<and>
      deadlines (epoch N) s' = {(d, g) \<in> deadlines (epoch N) s. g \<noteq> pxTimer m} \<union>
        {(N + unat (xMessageValue m), pxTimer m)}) \<and>
    (xMessageID m = tmrCOMMAND_DELETE \<longrightarrow>
      process_command K m (s\<lparr>xTimerQueue := Some q\<rparr>) = Some s' \<and> tinv s' \<and>
      timers s' = (timers s)(pxTimer m := None) \<and>
      deadlines (epoch N) s' = {(d, g) \<in> deadlines (epoch N) s. g \<noteq> pxTimer m})"
proof -
  from rtos_kernel.command_state [OF K inv q tick] obtain r where
    r: "prvSampleTimeNow K (remove_timer K (pxTimer m) (s\<lparr>xTimerQueue := Some q\<rparr>)) = Some (tk N, False, r)"
      "tinv r" "\<not> active (pxTimer m) r" "timers r = timers s"
      "deadlines (epoch N) r = {(d, g) \<in> deadlines (epoch N) s. g \<noteq> pxTimer m}" by blast
  have del: "tinv (r\<lparr>timers := (timers s)(pxTimer m := None)\<rparr>)"
    using r(2,3,4) by (auto simp: tinv_def active_def)
  have ch: "\<exists>s'. change_period K m (tk N) r = Some s' \<and> tinv s' \<and>
      timers s' = (timers s)(pxTimer m \<mapsto> t\<lparr>xTimerPeriodInTicks := xMessageValue m\<rparr>) \<and>
      deadlines (epoch N) s' = deadlines (epoch N) r \<union> {(N + unat (xMessageValue m), pxTimer m)}"
    if "xMessageValue m \<noteq> 0"
    using rtos_kernel.change_deadline [OF K r(2,3), of t N] that t r(4) by simp
  show ?thesis
  proof (cases "xMessageID m = tmrCOMMAND_CHANGE_PERIOD \<and> xMessageValue m \<noteq> 0")
    case True
    with ch r t show ?thesis by (auto simp: process_command_def)
  next
    case False
    show ?thesis
      using False r del t
      by (intro exI [of _ "if xMessageID m = tmrCOMMAND_DELETE
            then r\<lparr>timers := (timers s)(pxTimer m := None)\<rparr> else r"])
        (auto simp: process_command_def deadlines_def)
  qed
qed

theorem command_effects_witness:
  "\<exists>s'. process_command (log_rtos (tk 40)) \<lparr>xMessageID = tmrCOMMAND_CHANGE_PERIOD, xMessageValue = 25, pxTimer = 7\<rparr>
      (demo_state (demo_timer 10 1) [(50, 7)] [] [] 30) = Some s' \<and> deadlines 0 s' = {(65, 7)}"
  using command_effects [OF ref.rtos_kernel_axioms, of 40 "demo_state (demo_timer 10 1) [(50, 7)] []
        [\<lparr>xMessageID = tmrCOMMAND_CHANGE_PERIOD, xMessageValue = 25, pxTimer = 7\<rparr>] 30"
      "\<lparr>xMessageID = tmrCOMMAND_CHANGE_PERIOD, xMessageValue = 25, pxTimer = 7\<rparr>" "[]" "\<lambda>f h a. a @ [h]"
      "\<lambda>_. tk 40" "demo_timer 10 1"]
  by (simp add: demo_simps cinv_def queue_ok_def safe_msg_def tk_def epoch_def deadlines_def
      configTIMER_QUEUE_LENGTH_def) blast

text \<open>
  C35: A restart command can outlive its timer. If a periodic timer's start command is processed
  after an expiry was missed and the next command in the queue deletes the timer, the
  restart command the service sent itself is processed after the control block was freed:
  the loop dereferences a freed timer.
\<close>

theorem restart_outlives_deleted_timer:
  assumes K: "rtos_kernel K" and inv: "tinv s" "xLastTime s \<le> n" and tick: "\<And>i. ticks K i = n"
    and q: "xTimerQueue s = Some [m, d]" and m: "is_start (xMessageID m)" "pxTimer m = h"
    and d: "xMessageID d = tmrCOMMAND_DELETE" "pxTimer d = h"
    and t: "timers s h = Some t" "uxAutoReload t = 1" "xTimerPeriodInTicks t \<le> n - xMessageValue m"
  shows "prvProcessReceivedCommands K s = None"
  using assms by (rule rtos_kernel.restart_after_free)

theorem restart_outlives_deleted_timer_witness:
  "prvProcessReceivedCommands (log_rtos 120) (demo_state (demo_timer 10 1) [] []
      [restart_msg 7 100, \<lparr>xMessageID = tmrCOMMAND_DELETE, xMessageValue = 0, pxTimer = 7\<rparr>] 110) = None"
  by (rule restart_outlives_deleted_timer [OF ref.rtos_kernel_axioms, where h = 7 and n = 120 and t = "demo_timer 10 1"
        and m = "restart_msg 7 100" and d = "\<lparr>xMessageID = tmrCOMMAND_DELETE, xMessageValue = 0, pxTimer = 7\<rparr>"])
    (simp_all add: demo_simps restart_msg_def is_start_def word_le_nat_alt)

subsection \<open>Creation\<close>

text \<open>
  \<^verbatim>\<open>xTimerCreate\<close> fails without effect for a zero period or when no memory is left; otherwise
  it returns a fresh handle whose timer carries the given name and ID, is not active, and
  the service has its queue; the invariant and all other timers are kept, and
  \<^verbatim>\<open>vTimerSetTimerID\<close> is read back by \<^verbatim>\<open>pvTimerGetTimerID\<close>.
\<close>

theorem timer_create_query:
  assumes "rtos_kernel K" and "tinv s" and "xTimerCreate K name p r tid cb s = (ho, s')"
    and "xTimerQueue s = None \<longrightarrow> pxCurrentTimerList s = [] \<and> pxOverflowTimerList s = []"
  shows "case ho of None \<Rightarrow> s' = s \<and> (p = 0 \<or> pvPortMalloc K (timers s) = None)
    | Some h \<Rightarrow> p \<noteq> 0 \<and> timers s h = None \<and> tinv s' \<and> (\<forall>g. g \<noteq> h \<longrightarrow> timers s' g = timers s g) \<and>
        pcTimerGetTimerName h s' = Some name \<and> pvTimerGetTimerID h s' = Some tid \<and>
        xTimerIsTimerActive h s' = Some False \<and>
        (xTimerQueue s' = None \<longrightarrow> xQueueCreate K configTIMER_QUEUE_LENGTH = None) \<and>
        Option.bind (vTimerSetTimerID h i s') (pvTimerGetTimerID h) = Some i"
proof (cases ho)
  case None
  then show ?thesis using assms(3) by (auto simp: xTimerCreate_def Let_def split: if_splits option.splits)
next
  case (Some h)
  have new: "timers s h = None" "pvPortMalloc K (timers s) = Some h" "p \<noteq> 0"
    using assms(3) Some rtos_kernel.malloc_fresh [OF assms(1)]
    by (auto simp: xTimerCreate_def Let_def split: if_splits option.splits)
  define u where "u = prvCheckForValidListAndQueue K s"
  have u: "timers u = timers s" "tinv u" "xTimerQueue u = None \<longrightarrow> xQueueCreate K configTIMER_QUEUE_LENGTH = None"
    using assms(2) by (auto simp: u_def prvCheckForValidListAndQueue_def tinv_def)
  have "h \<notin> owners (pxCurrentTimerList u)" "h \<notin> owners (pxOverflowTimerList u)"
    using u(1,2) new by (auto simp: tinv_def)
  then show ?thesis
    using assms(3) Some new u
    by (auto simp: xTimerCreate_def u_def [symmetric] Let_def pcTimerGetTimerName_def pvTimerGetTimerID_def
        xTimerIsTimerActive_def active_def vTimerSetTimerID_def tinv_def)
qed

theorem timer_create_query_witness:
  "pvTimerGetTimerID 1 (snd (xTimerCreate (log_rtos 0) ''LED'' 100 1 5 0 (demo_state (demo_timer 10 1) [] [] [] 0))) = Some 5"
  using timer_create_query [OF ref.rtos_kernel_axioms, of "demo_state (demo_timer 10 1) [] [] [] 0" "\<lambda>f h a. a @ [h]" "\<lambda>_. 0"
      "''LED''" 100 1 5 0 "Some 1"
      "snd (xTimerCreate (log_rtos 0) ''LED'' 100 1 5 0 (demo_state (demo_timer 10 1) [] [] [] 0))"]
  by (simp add: demo_simps xTimerCreate_def prvCheckForValidListAndQueue_def upt_rec)

end
