(* ===== verification/FirmwareProperties.thy ===== *)
theory FirmwareProperties
  imports Firmware TimerProperties
begin

text \<open>
  Guarantees of the firmware over every interleaving of its tasks and timer callbacks, and of
  its start-up, over any operating system that satisfies the documented laws of FreeRTOS
  semaphores, notifications and queues.
\<close>

subsection \<open>The operating system interface\<close>

locale firmware_os =
  fixes OS :: fw_os
  assumes give: "n \<le> 1 \<Longrightarrow> xSemaphoreGive OS n = 1"
    and take_none: "xSemaphoreTake OS 0 = None"
    and take_one: "xSemaphoreTake OS 1 = Some 0"
    and notify: "xTaskNotifyGive OS n = Suc n"
    and notified_none: "ulTaskNotifyTake OS 0 = None"
    and notified: "ulTaskNotifyTake OS (Suc n) = Some 0"
    and send_temp: "xQueueSendTemp OS l q = (if length q < QUEUE_MAX_SIZE then q @ [l] else q)"
    and receive_temp: "xQueueReceiveTemp OS q = (case q of [] \<Rightarrow> None | l # q \<Rightarrow> Some (l, q))"
    and send_led: "xQueueSendLED OS m p = (if length p < QUEUE_MAX_SIZE then p @ [m] else p)"
    and receive_led: "xQueueReceiveLED OS p = (case p of [] \<Rightarrow> None | m # p \<Rightarrow> Some (m, p))"

subsection \<open>What the LED task has done after a sequence of events\<close>

fun led_times :: "event list \<Rightarrow> u32 list" where
  "led_times [] = []"
| "led_times (e # es) = (case e of LEDPass now \<Rightarrow> now # led_times es | _ \<Rightarrow> led_times es)"

lemma led_times_append [simp]: "led_times (es @ fs) = led_times es @ led_times fs"
  by (induction es) (auto split: event.splits)

definition led_log :: "fw_os \<Rightarrow> nat \<Rightarrow> u32 \<Rightarrow> LEDLog" where
  "led_log OS k now = \<lparr>toggleCount = of_nat (Suc k), user_name = ''Ashish Tak'', led_timestamp = pdTICKS_TO_MS OS now\<rparr>"

definition led_logs :: "fw_os \<Rightarrow> u32 list \<Rightarrow> LEDLog list" where
  "led_logs OS ts = map (\<lambda>k. led_log OS k (ts ! k)) [0..<length ts]"

lemma led_logs_snoc [simp]: "led_logs OS (ts @ [n]) = led_logs OS ts @ [led_log OS (length ts) n]"
  by (simp add: led_logs_def nth_append)

text \<open>The pins written by pass number \<open>k\<close>: exactly one of the two LEDs is lit.\<close>

definition led_write :: "nat \<Rightarrow> drv list" where
  "led_write k = [GPIOPinWrite ''PORTN'' LED1_PIN (if even k then 0 else LED1_PIN),
     GPIOPinWrite ''PORTN'' LED2_PIN (if even k then LED2_PIN else 0)]"

fun led_lines :: "uart_line list \<Rightarrow> LEDLog list" where
  "led_lines [] = []"
| "led_lines (u # us) = (case u of ULed l \<Rightarrow> l # led_lines us | _ \<Rightarrow> led_lines us)"

lemma led_lines_append [simp]: "led_lines (us @ vs) = led_lines us @ led_lines vs"
  by (induction us) (auto split: uart_line.splits)

definition finv :: "fw_os \<Rightarrow> drv list \<Rightarrow> event list \<Rightarrow> fw \<Rightarrow> bool" where
  "finv OS pins es s \<longleftrightarrow> (let n = length (led_times es) in
     LED1val s = (if even n then 0 else LED1_PIN) \<and> LED2val s = (if even n then LED2_PIN else 0) \<and>
     toggleCount (txLog s) = of_nat n \<and> user_name (txLog s) = ''Ashish Tak'' \<and>
     gpio s = pins @ concat (map led_write [0..<n]) \<and>
     length (xQueueTemp s) \<le> QUEUE_MAX_SIZE \<and> length (xQueueLED s) \<le> QUEUE_MAX_SIZE \<and>
     xQueueTemp_handle s \<and> xQueueLED_handle s \<and> tempSemaphore s \<le> 1 \<and> LEDSempahore s \<le> 1 \<and> n + LEDSempahore s \<le> 1 + count_list es LEDTimer \<and>
     subseq (led_lines (uart s) @ xQueueLED s) (led_logs OS (led_times es)))"

lemma xor_pins [simp]:
  "(0 :: u8) XOR LED1_PIN = LED1_PIN" "LED1_PIN XOR LED1_PIN = 0" "(0 :: u8) XOR LED2_PIN = LED2_PIN"
  "LED2_PIN XOR LED2_PIN = 0"
  by simp_all

lemma subseq_snoc_right: "subseq xs ys \<Longrightarrow> subseq xs (ys @ [y])"
  by (metis list_emb_append2 append_Nil2 list_emb_Nil subseq_order.order_trans subseq_append')

context firmware_os
begin

lemma LEDPass_finv:
  assumes "finv OS pins es s" and "LEDTask_pass OS now s = Some s'"
  shows "finv OS pins (es @ [LEDPass now]) s'"
proof -
  let ?n = "length (led_times es)"
  have "LEDSempahore s \<noteq> 0" using assms(2) by (intro notI) (simp add: LEDTask_pass_def take_none)
  then have sem: "LEDSempahore s = 1" "xQueueLED_handle s" using assms(1) by (simp_all add: finv_def Let_def)
  have msg: "(txLog s)\<lparr>toggleCount := toggleCount (txLog s) + 1, led_timestamp := pdTICKS_TO_MS OS now\<rparr> = led_log OS ?n now"
    using assms(1) by (cases "txLog s") (simp add: finv_def Let_def led_log_def)
  have wr: "[GPIOPinWrite ''PORTN'' LED1_PIN (LED1val s), GPIOPinWrite ''PORTN'' LED2_PIN (LED2val s)] = led_write ?n"
    using assms(1) by (simp add: finv_def Let_def led_write_def)
  have s': "s' = s\<lparr>LEDSempahore := 0, gpio := gpio s @ led_write ?n, LED1val := LED1val s XOR LED1_PIN,
      LED2val := LED2val s XOR LED2_PIN, txLog := led_log OS ?n now,
      xQueueLED := xQueueSendLED OS (led_log OS ?n now) (xQueueLED s)\<rparr>"
    using assms(2) by (simp add: LEDTask_pass_def sem take_one [simplified] msg wr) (simp add: Let_def)
  have sub: "subseq (led_lines (uart s) @ xQueueLED s) (led_logs OS (led_times es))"
    using assms(1) by (simp add: finv_def Let_def)
  then have "subseq ((led_lines (uart s) @ xQueueLED s) @ [l]) (led_logs OS (led_times es) @ [l])" for l
    by (simp only: subseq_append)
  then have "subseq (led_lines (uart s) @ xQueueLED s') (led_logs OS (led_times es @ [now]))"
    using s' subseq_snoc_right [OF sub] by (simp add: send_led)
  then show ?thesis
    using assms(1) s' sem by (auto simp: finv_def Let_def send_led led_log_def)
qed

lemma event_finv:
  assumes inv: "finv OS pins es s" and run: "fw_event OS H e s = Some s'"
  shows "finv OS pins (es @ [e]) s'"
proof (cases e)
  case TempTimer
  then show ?thesis using inv run give by (auto simp: finv_def Let_def vTempTimerCallBack_def)
next
  case LEDTimer
  then show ?thesis using inv run give by (auto simp: finv_def Let_def vLEDTimerCallBack_def)
next
  case (TempPass now)
  have "tempSemaphore s \<noteq> 0" using run TempPass by (intro notI) (simp add: tempTask_pass_def take_none)
  then have "tempSemaphore s = 1" using inv by (simp add: finv_def Let_def)
  then show ?thesis
    using inv run TempPass take_one
    by (auto simp: finv_def Let_def tempTask_pass_def send_temp split: Option.bind_splits if_splits)
next
  case (LEDPass now)
  then show ?thesis using LEDPass_finv [OF inv] run by simp
next
  case AlertPass
  then show ?thesis using inv run by (auto simp: finv_def Let_def alertTask_pass_def split: Option.bind_splits)
next
  case LoggerPass
  then show ?thesis
    using inv run by (auto simp: finv_def Let_def loggerTask_pass_def receive_temp receive_led split: list.splits)
qed

lemma run_finv:
  assumes "fw_run OS H (fw_init pins) es s"
  shows "finv OS pins es s"
  using assms
proof induction
  case boot
  show ?case by (simp add: finv_def fw_init_def tempTask_start_def LEDTask_start_def led_logs_def QUEUE_MAX_SIZE_def)
next
  case (event es s e s')
  then show ?case by (intro event_finv)
qed

lemma temp_pass:
  assumes "tempSemaphore s = 1" and "xQueueTemp_handle s" and "readTemp H (i2c s) = Some (t, b)"
  shows "\<exists>s'. tempTask_pass OS H now s = Some s' \<and> tempSemaphore s' = 0 \<and>
    alert_notification s' = alert_notification s + (if TEMPERATURE_THRESHOLD < t then 1 else 0) \<and>
    xQueueTemp s' = (if length (xQueueTemp s) < QUEUE_MAX_SIZE
      then xQueueTemp s @ [\<lparr>temp = t, temp_timestamp = pdTICKS_TO_MS OS now\<rparr>] else xQueueTemp s)"
  using assms by (simp add: tempTask_pass_def take_one [simplified] Let_def notify send_temp)

end

subsection \<open>Start-up\<close>

definition fw_timer :: "string \<Rightarrow> tick \<Rightarrow> nat \<Rightarrow> Timer_t" where
  "fw_timer name period cb = \<lparr>pcTimerName = name, xTimerPeriodInTicks = period, uxAutoReload = 1, pvTimerID = 0,
     pxCallbackFunction = cb\<rparr>"

text \<open>The service before the first timer is created.\<close>

definition service_reset :: "'a tsvc \<Rightarrow> bool" where
  "service_reset s \<longleftrightarrow> timers s = Map.empty \<and> pxCurrentTimerList s = [] \<and> pxOverflowTimerList s = [] \<and>
     xTimerQueue s = None \<and> xLastTime s = 0"

definition start_msg :: "nat \<Rightarrow> DaemonTaskMessage_t" where
  "start_msg h = \<lparr>xMessageID = tmrCOMMAND_START, xMessageValue = 0, pxTimer = h\<rparr>"

context rtos_kernel
begin

lemma create_and_start_ok:
  assumes "period \<noteq> 0" and "pvPortMalloc K (timers s) = Some h"
    and "xTimerQueue (prvCheckForValidListAndQueue K s) = Some q" and "length q < configTIMER_QUEUE_LENGTH"
  shows "create_and_start K name period cb 0 s = ([], (prvCheckForValidListAndQueue K s)\<lparr>
    timers := (timers s)(h \<mapsto> fw_timer name period cb), xTimerQueue := Some (q @ [start_msg h])\<rparr>)"
proof -
  have "timers (prvCheckForValidListAndQueue K s) = timers s" by (simp add: prvCheckForValidListAndQueue_def)
  then show ?thesis
    using assms
    by (simp add: create_and_start_def xTimerCreate_def xTimerGenericCommand_def from_task_def send_room Let_def
        fw_timer_def start_msg_def)
qed

lemma main_state:
  assumes s: "service_reset s" and ms: "ms 1000 = 1000" "ms 100 = 100"
    and h: "pvPortMalloc K Map.empty = Some h1" "pvPortMalloc K [h1 \<mapsto> fw_timer ''TempTimer'' 1000 TEMP_CALLBACK] = Some h2"
    and q: "xQueueCreate K configTIMER_QUEUE_LENGTH = Some []"
  shows "snd (firmware_main K ms r 0 s) = s\<lparr>timers := [h1 \<mapsto> fw_timer ''TempTimer'' 1000 TEMP_CALLBACK,
    h2 \<mapsto> fw_timer ''LEDTimer'' 100 LED_CALLBACK], xTimerQueue := Some [start_msg h1, start_msg h2]\<rparr>"
proof -
  define s1 where "s1 = s\<lparr>timers := [h1 \<mapsto> fw_timer ''TempTimer'' 1000 TEMP_CALLBACK], xTimerQueue := Some [start_msg h1]\<rparr>"
  have c: "prvCheckForValidListAndQueue K s = s\<lparr>xTimerQueue := Some []\<rparr>"
    using s q by (cases s) (simp add: prvCheckForValidListAndQueue_def service_reset_def)
  have one: "create_and_start K ''TempTimer'' 1000 TEMP_CALLBACK 0 s = ([], s1)"
    using create_and_start_ok [of 1000 s h1 "[]" "''TempTimer''" TEMP_CALLBACK] s h c
    by (simp add: s1_def service_reset_def configTIMER_QUEUE_LENGTH_def)
  have two: "create_and_start K ''LEDTimer'' 100 LED_CALLBACK 0 s1 = ([], s1\<lparr>timers := (timers s1)(h2 \<mapsto>
      fw_timer ''LEDTimer'' 100 LED_CALLBACK), xTimerQueue := Some [start_msg h1, start_msg h2]\<rparr>)"
    using create_and_start_ok [of 100 s1 h2 "[start_msg h1]" "''LEDTimer''" LED_CALLBACK] h(2)
    by (simp add: s1_def prvCheckForValidListAndQueue_def configTIMER_QUEUE_LENGTH_def)
  show ?thesis by (simp add: firmware_main_def ms one two Let_def) (simp add: s1_def)
qed

lemma main_arms:
  assumes s: "service_reset s" and ms: "ms 1000 = 1000" "ms 100 = 100"
    and h: "pvPortMalloc K Map.empty = Some h1" "pvPortMalloc K [h1 \<mapsto> fw_timer ''TempTimer'' 1000 TEMP_CALLBACK] = Some h2"
    and q: "xQueueCreate K configTIMER_QUEUE_LENGTH = Some []"
    and tick: "\<And>i. ticks K i = n" and n: "n < 100"
  shows "\<exists>s'. prvProcessReceivedCommands K (snd (firmware_main K ms r 0 s)) = Some s' \<and> cinv n s' \<and>
    xTimerQueue s' = Some [] \<and> app s' = app s \<and> deadlines 0 s' = {(1000, h1), (100, h2)} \<and>
    timers s' = [h1 \<mapsto> fw_timer ''TempTimer'' 1000 TEMP_CALLBACK, h2 \<mapsto> fw_timer ''LEDTimer'' 100 LED_CALLBACK]"
proof -
  define a where "a = snd (firmware_main K ms r 0 s)"
  note a = main_state [OF s ms h q, of r, folded a_def]
  have hh: "h2 \<noteq> h1" using malloc_fresh [OF h(2)] by auto
  have un: "unat n < 100" using n by (simp add: word_less_nat_alt)
  have e: "epoch (unat n) = 0" "tk (unat n) = n" using un by (simp_all add: epoch_def)
  have inv: "cinv n a" using s hh
    by (auto simp: a cinv_def tinv_def periods_ok_def queue_ok_def safe_msg_def start_msg_def fw_timer_def
        service_reset_def configTIMER_QUEUE_LENGTH_def)
  have ta: "timers a = [h1 \<mapsto> fw_timer ''TempTimer'' 1000 TEMP_CALLBACK, h2 \<mapsto> fw_timer ''LEDTimer'' 100 LED_CALLBACK]"
    by (simp add: a)
  have q0: "xTimerQueue a = Some [start_msg h1, start_msg h2]" and d0: "deadlines 0 a = {}"
    using s by (simp_all add: a deadlines_def service_reset_def)
  have m: "is_start (xMessageID (start_msg g))" "pxTimer (start_msg g) = g" "xMessageValue (start_msg g) = 0" for g
    by (simp_all add: start_msg_def is_start_def)
  have late: "\<not> xTimerPeriodInTicks (fw_timer nm p cb) \<le> n - 0" if "100 \<le> unat p" for nm p cb
    using un that by (simp add: fw_timer_def word_le_nat_alt)
  from pending_start_command [OF inv q0 tick m(1), unfolded m, OF _ late e(2), of "''TempTimer''" 1000 TEMP_CALLBACK]
  obtain b where b: "process_command K (start_msg h1) (a\<lparr>xTimerQueue := Some [start_msg h2]\<rparr>) = Some b" "cinv n b"
    "xTimerQueue b = Some [start_msg h2]" "timers b = timers a" "app b = app a" "deadlines 0 b = {(1000, h1)}"
    using hh by (auto simp: ta d0 e fw_timer_def)
  from pending_start_command [OF b(2,3) tick m(1), unfolded m, OF _ late e(2), of "''LEDTimer''" 100 LED_CALLBACK]
  obtain c where c: "process_command K (start_msg h2) (b\<lparr>xTimerQueue := Some []\<rparr>) = Some c" "cinv n c"
    "xTimerQueue c = Some []" "timers c = timers a" "app c = app a" "deadlines 0 c = {(1000, h1), (100, h2)}"
    using hh b by (auto simp: ta e fw_timer_def)
  have "prvProcessReceivedCommands K c = Some c"
    by (subst prvProcessReceivedCommands.simps) (simp add: c receive_empty)
  then have "prvProcessReceivedCommands K b = Some c"
    by (subst prvProcessReceivedCommands.simps) (simp add: b receive_first c)
  then have "prvProcessReceivedCommands K a = Some c"
    by (subst prvProcessReceivedCommands.simps) (simp add: q0 receive_first b)
  then show ?thesis using c by (simp add: a_def [symmetric]) (simp add: a)
qed

end

subsection \<open>A concrete operating system\<close>

fun fw_events :: "fw_os \<Rightarrow> i2c_hw \<Rightarrow> event list \<Rightarrow> fw \<Rightarrow> fw option" where
  "fw_events OS H [] s = Some s"
| "fw_events OS H (e # es) s = Option.bind (fw_event OS H e s) (fw_events OS H es)"

lemma fw_events_run: "fw_run OS H s0 es s \<Longrightarrow> fw_events OS H fs s = Some s' \<Longrightarrow> fw_run OS H s0 (es @ fs) s'"
proof (induction fs arbitrary: es s)
  case (Cons e fs)
  then obtain u where u: "fw_event OS H e s = Some u" "fw_events OS H fs u = Some s'"
    by (auto split: Option.bind_splits)
  from Cons.IH [OF fw_run.event [OF Cons.prems(1) u(1)] u(2)] show ?case by simp
qed simp

definition demo_os :: fw_os where
  "demo_os = \<lparr>xSemaphoreGive = (\<lambda>_. 1), xSemaphoreTake = (\<lambda>n. if n = 0 then None else Some (n - 1)),
     xTaskNotifyGive = Suc, ulTaskNotifyTake = (\<lambda>n. if n = 0 then None else Some 0),
     xQueueSendTemp = (\<lambda>l q. if length q < QUEUE_MAX_SIZE then q @ [l] else q),
     xQueueReceiveTemp = (\<lambda>q. case q of [] \<Rightarrow> None | l # q \<Rightarrow> Some (l, q)),
     xQueueSendLED = (\<lambda>l q. if length q < QUEUE_MAX_SIZE then q @ [l] else q),
     xQueueReceiveLED = (\<lambda>q. case q of [] \<Rightarrow> None | l # q \<Rightarrow> Some (l, q)),
     pdTICKS_TO_MS = (\<lambda>t. t)\<rparr>"

interpretation demo_fw: firmware_os demo_os
  by unfold_locales (auto simp: demo_os_def)

subsection \<open>Guarantees\<close>

text \<open>
  C32: Over every interleaving of the tasks and timer callbacks, the LED task has, after \<open>n\<close> passes,
  lit the two LEDs strictly alternately (each pass writes exactly one of them on), counted
  \<open>n\<close> toggles, run at most once more often than the LED timer fired (the semaphore is created
  given), and the log lines the logger printed, followed by those still queued, are a
  subsequence in order of the \<open>n\<close> records it sent; no queue ever holds more than ten records.
\<close>

theorem led_task_history:
  assumes "firmware_os OS" and "fw_run OS H (fw_init pins) es s"
  shows "let n = length (led_times es) in
    gpio s = pins @ concat (map led_write [0..<n]) \<and> toggleCount (txLog s) = of_nat n \<and>
    n \<le> 1 + count_list es LEDTimer \<and>
    subseq (led_lines (uart s) @ xQueueLED s) (led_logs OS (led_times es)) \<and>
    length (xQueueLED s) \<le> QUEUE_MAX_SIZE \<and> length (xQueueTemp s) \<le> QUEUE_MAX_SIZE"
  using firmware_os.run_finv [OF assms] by (auto simp: finv_def Let_def)

theorem led_task_history_witness:
  "\<exists>s. fw_run demo_os (demo_hw 3 0) (fw_init []) [LEDPass 7, LoggerPass, LEDTimer, LEDPass 9] s \<and>
    gpio s = led_write 0 @ led_write 1"
proof -
  have "\<exists>s. fw_events demo_os (demo_hw 3 0) [LEDPass 7, LoggerPass, LEDTimer, LEDPass 9] (fw_init []) = Some s"
    by (simp add: LEDTask_pass_def loggerTask_pass_def demo_os_def fw_init_def tempTask_start_def LEDTask_start_def
        vLEDTimerCallBack_def Let_def QUEUE_MAX_SIZE_def)
  then obtain s where "fw_events demo_os (demo_hw 3 0) [LEDPass 7, LoggerPass, LEDTimer, LEDPass 9] (fw_init []) = Some s" ..
  from fw_events_run [OF fw_run.boot this]
  have run: "fw_run demo_os (demo_hw 3 0) (fw_init []) [LEDPass 7, LoggerPass, LEDTimer, LEDPass 9] s" by simp
  from led_task_history [OF demo_fw.firmware_os_axioms run] have "gpio s = led_write 0 @ led_write 1"
    by (simp add: Let_def upt_rec)
  with run show ?thesis by blast
qed

text \<open>
  A temperature pass raises the alarm exactly when it should. With its semaphore given, all
  three transfers on the bus seen busy, and the sensor showing \<open>n\<close> sixteenths of a degree, 0 or above, a pass of the temperature task takes
  the semaphore, notifies the alert task exactly if the temperature is above 27 degrees, and
  queues the record with temperature \<open>n / 16\<close> and the time, unless the queue is full.
\<close>

theorem temp_pass_alerts:
  assumes "firmware_os OS" and "tempSemaphore s = 1" and "xQueueTemp_handle s" and "busy_timing H lat dur"
    and "sensor_shows H (trace (i2c s)) (tmp102 extended n)"
    and "all_seen dur (trace (i2c s)) SLAVE_ADDRESS_TMP102 TEMP_REG_ADDR"
    and "0 \<le> n" and "n < (if extended then 4096 else 2048)"
  shows "\<exists>s'. tempTask_pass OS H now s = Some s' \<and> tempSemaphore s' = 0 \<and>
    alert_notification s' = alert_notification s + (if n > 27 * 16 then 1 else 0) \<and>
    xQueueTemp s' = (if length (xQueueTemp s) < QUEUE_MAX_SIZE
      then xQueueTemp s @ [\<lparr>temp = of_int n / 16, temp_timestamp = pdTICKS_TO_MS OS now\<rparr>] else xQueueTemp s)"
proof -
  obtain b where b: "readTemp H (i2c s) = Some (of_int n / 16, b)"
    using readTemp_value [OF assms(4,5)] assms(6,7,8) by auto
  have thr: "TEMPERATURE_THRESHOLD < of_int n / 16 \<longleftrightarrow> n > 27 * 16"
    using of_int_less_iff [of "27 * 16" n, where ?'a = rat] by (simp add: TEMPERATURE_THRESHOLD_def field_simps)
  show ?thesis using firmware_os.temp_pass [OF assms(1-3) b, of now] unfolding thr .
qed

theorem temp_pass_alerts_witness:
  "\<exists>s'. tempTask_pass demo_os (demo_hw 3 (tmp102 False 433)) 5 (fw_init []) = Some s' \<and> alert_notification s' = 1"
  using temp_pass_alerts [OF demo_fw.firmware_os_axioms _ _ demo_hw_timing [of 3] demo_hw_shows, where s = "fw_init []"
      and extended = False and n = 433 and now = 5]
  by (auto simp: all_seen_def fw_init_def tempTask_start_def LEDTask_start_def)

text \<open>
  Start-up arms both timers. After \<^verbatim>\<open>main\<close> has run at tick 0 with memory for two timers, and
  the timer service processes its queue before tick 100, both timers are periodic and
  armed, with the first expiry of the temperature timer at tick 1000 and of the LED timer at
  tick 100, no callback has run and the command queue is empty.
\<close>

theorem main_arms_timers:
  assumes "rtos_kernel K" and "service_reset s" and "ms 1000 = 1000" and "ms 100 = 100"
    and "pvPortMalloc K Map.empty = Some h1"
    and "pvPortMalloc K [h1 \<mapsto> fw_timer ''TempTimer'' 1000 TEMP_CALLBACK] = Some h2"
    and "xQueueCreate K configTIMER_QUEUE_LENGTH = Some []" and "\<And>i. ticks K i = n" and "n < 100"
  shows "\<exists>s'. prvProcessReceivedCommands K (snd (firmware_main K ms r 0 s)) = Some s' \<and> cinv n s' \<and>
    xTimerQueue s' = Some [] \<and> app s' = app s \<and> deadlines 0 s' = {(1000, h1), (100, h2)} \<and>
    timers s' = [h1 \<mapsto> fw_timer ''TempTimer'' 1000 TEMP_CALLBACK, h2 \<mapsto> fw_timer ''LEDTimer'' 100 LED_CALLBACK]"
  using assms by (rule rtos_kernel.main_arms)

definition reset_service :: "fw tsvc" where
  "reset_service = \<lparr>timers = Map.empty, pxCurrentTimerList = [], pxOverflowTimerList = [], xTimerQueue = None,
     xLastTime = 0, tick_reads = 0, scheduler_running = False, app = fw_init []\<rparr>"

theorem main_arms_timers_witness:
  "\<exists>s'. prvProcessReceivedCommands (ref_rtos (fw_callback demo_os) (\<lambda>_. 3))
      (snd (firmware_main (ref_rtos (fw_callback demo_os) (\<lambda>_. 3)) id \<lparr>queue_temp_ok = True, queue_led_ok = True,
        sem_temp_ok = True, sem_led_ok = True, task_temp_ok = True, task_logger_ok = True, task_led_ok = True,
        task_alert_ok = True\<rparr> 0 reset_service)) = Some s' \<and> deadlines 0 s' = {(1000, 1), (100, 2)}"
  using main_arms_timers [OF ref.rtos_kernel_axioms, of reset_service id "fw_callback demo_os" "\<lambda>_. 3" 1 2 3]
  by (simp add: service_reset_def reset_service_def upt_rec) blast

end
