(* ===== verification/Startup.thy ===== *)
theory Startup
  imports Prelude
begin

text \<open>
  How the firmware's processor starts and takes exceptions
  (\<^verbatim>\<open>src/HW5/CCS_Homework5/startup_ccs.c\<close>) and the board set-up at the head of \<^verbatim>\<open>main\<close>
  (\<^verbatim>\<open>main.c\<close>: \<^verbatim>\<open>ConfigureUART\<close>, clock and floating point unit). The processor takes exception \<open>n\<close> through
  entry \<open>n\<close> of the vector table.
\<close>

subsection \<open>The vector table\<close>

datatype isr =
  ResetISR | NmiSR | FaultISR | IntDefaultHandler |
  vPortSVCHandler | xPortPendSVHandler | xPortSysTickHandler

datatype vector = StackTop u32 | Reserved | Handler isr

definition g_pfnVectors :: "u32 \<Rightarrow> vector list" where
  "g_pfnVectors STACK_TOP =
     [StackTop STACK_TOP, Handler ResetISR, Handler NmiSR, Handler FaultISR,
      Handler IntDefaultHandler, Handler IntDefaultHandler, Handler IntDefaultHandler,
      Reserved, Reserved, Reserved, Reserved,
      Handler vPortSVCHandler, Handler IntDefaultHandler, Reserved,
      Handler xPortPendSVHandler, Handler xPortSysTickHandler] @
     replicate 68 (Handler IntDefaultHandler) @ replicate 2 Reserved @
     replicate 4 (Handler IntDefaultHandler) @ replicate 1 Reserved @
     replicate 37 (Handler IntDefaultHandler)"

subsection \<open>The handlers\<close>

text \<open>
  The three handlers of this file that end in \<^verbatim>\<open>while(1)\<close> do not return (\<^const>\<open>None\<close>); the reset handler
  jumps to the C start-up routine. That routine and the handlers of the port act on the state \<open>'s\<close> of
  the machine and are parameters.
\<close>

partial_function (option) while_1 :: "'s \<Rightarrow> 's option" where
  "while_1 s = while_1 s"

definition run_isr :: "('s \<Rightarrow> 's option) \<Rightarrow> (isr \<Rightarrow> 's \<Rightarrow> 's option) \<Rightarrow> isr \<Rightarrow> 's \<Rightarrow> 's option" where
  "run_isr c_int00 port h = (case h of
       ResetISR \<Rightarrow> c_int00
     | NmiSR \<Rightarrow> while_1
     | FaultISR \<Rightarrow> while_1
     | IntDefaultHandler \<Rightarrow> while_1
     | _ \<Rightarrow> port h)"

subsection \<open>Board set-up\<close>

datatype board =
  SysCtlClockFreqSet nat | LEDGPIO | PeripheralEnable string | PinConfigure string | PinTypeUART string "nat list" |
  UARTClockSource string | UARTStdioConfig nat nat nat | FPULazyStacking | FPUOn | UARTprintf string

definition ConfigureUART :: "board list" where
  "ConfigureUART =
     [PeripheralEnable ''GPIOA'', PeripheralEnable ''UART0'', PinConfigure ''PA0_U0RX'', PinConfigure ''PA1_U0TX'',
      PinTypeUART ''PORTA'' [0, 1], UARTClockSource ''PIOSC'', UARTStdioConfig 0 115200 16000000]"

definition board_init :: "board list" where
  "board_init =
     [SysCtlClockFreqSet 120000000, LEDGPIO] @ ConfigureUART @
     [FPULazyStacking, FPUOn, UARTprintf ''Welcome to EK-TM4C1294XL!'']"

subsection \<open>Results\<close>

lemma vector_simps [simp]:
  "length (g_pfnVectors t) = 128"
  by (simp add: g_pfnVectors_def)

text \<open>The entries from 16 on: an interrupt is reserved or goes to the default handler.\<close>

lemma interrupt_entry:
  "16 \<le> n \<Longrightarrow> n < 128 \<Longrightarrow>
   g_pfnVectors t ! n = (if n \<in> {84, 85, 90} then Reserved else Handler IntDefaultHandler)"
  by (auto simp: g_pfnVectors_def nth_append nth_Cons')

lemma while_1_diverges: "while_1 s = None"
proof (cases "while_1 s")
  case (Some r)
  then have False by (rule while_1.raw_induct [where P = "\<lambda>_ _. False", rotated])
  then show ?thesis ..
qed

text \<open>So every interrupt beyond the system exceptions that is not reserved stops the firmware.\<close>

lemma interrupt_never_returns:
  assumes "16 \<le> n" and "n < 128" and "n \<notin> {84, 85, 90}"
  shows "\<exists>h. g_pfnVectors t ! n = Handler h \<and> run_isr c_int00 port h s = None"
  using interrupt_entry [OF assms(1,2)] assms(3) by (simp add: run_isr_def while_1_diverges)

text \<open>The console is configured before the first line is printed on it.\<close>

lemma uart_before_print:
  "board_init = pre @ UARTprintf t # post \<Longrightarrow> UARTStdioConfig 0 115200 16000000 \<in> set pre"
  by (auto simp: board_init_def ConfigureUART_def Cons_eq_append_conv)

end
