(* ===== verification/FirmwareConfig.thy ===== *)
theory FirmwareConfig
  imports FirmwareProperties Startup
begin

text \<open>
  The constants of \<^verbatim>\<open>FreeRTOSConfig.h\<close> on which the firmware rests, the tasks that \<^verbatim>\<open>main\<close> and the timer
  service create, and what holds between them: priorities, stacks, tick and interrupt priorities are
  within the limits of the configuration, and the periods in milliseconds become the deadlines of
  the timer service.
\<close>

subsection \<open>Constants\<close>

definition configCPU_CLOCK_HZ :: nat where "configCPU_CLOCK_HZ = 120000000"
definition configTICK_RATE_HZ :: u32 where "configTICK_RATE_HZ = 1000"
definition configMINIMAL_STACK_SIZE :: nat where "configMINIMAL_STACK_SIZE = 200"
definition configTOTAL_HEAP_SIZE :: nat where "configTOTAL_HEAP_SIZE = 50000"
definition configMAX_TASK_NAME_LEN :: nat where "configMAX_TASK_NAME_LEN = 12"
definition configTIMER_TASK_PRIORITY :: "nat \<Rightarrow> nat" where "configTIMER_TASK_PRIORITY tskIDLE_PRIORITY = tskIDLE_PRIORITY + 4"
definition configTIMER_TASK_STACK_DEPTH :: nat where "configTIMER_TASK_STACK_DEPTH = 128"
definition configMAX_PRIORITIES :: nat where "configMAX_PRIORITIES = 16"
definition configKERNEL_INTERRUPT_PRIORITY :: nat where "configKERNEL_INTERRUPT_PRIORITY = push_bit 5 7"
definition configMAX_SYSCALL_INTERRUPT_PRIORITY :: nat where "configMAX_SYSCALL_INTERRUPT_PRIORITY = push_bit 5 5"
definition TASK_STACK_DEPTH :: nat where "TASK_STACK_DEPTH = 512"

text \<open>
  The arguments of the calls of \<^verbatim>\<open>xTaskCreate\<close>: name, stack depth in words, priority. The priority of the idle
  task is a constant of the RTOS and therefore a parameter.
\<close>

type_synonym task_args = "string \<times> nat \<times> nat"

definition main_tasks :: "nat \<Rightarrow> task_args list" where
  "main_tasks tskIDLE_PRIORITY =
     [(''TEMPERATURE_TASK'', TASK_STACK_DEPTH, tskIDLE_PRIORITY + 1),
      (''LOGGER_TASK'', TASK_STACK_DEPTH, tskIDLE_PRIORITY + 1),
      (''LOGGER_TASK'', TASK_STACK_DEPTH, tskIDLE_PRIORITY + 1),
      (''ALERT_TASK'', TASK_STACK_DEPTH, tskIDLE_PRIORITY + 2)]"

definition timer_task :: "nat \<Rightarrow> task_args" where
  "timer_task tskIDLE_PRIORITY =
     (''Tmr Svc'', configTIMER_TASK_STACK_DEPTH, configTIMER_TASK_PRIORITY tskIDLE_PRIORITY)"

lemmas config_defs = configCPU_CLOCK_HZ_def configTICK_RATE_HZ_def configMINIMAL_STACK_SIZE_def
  configTOTAL_HEAP_SIZE_def configMAX_TASK_NAME_LEN_def configTIMER_TASK_PRIORITY_def configTIMER_TASK_STACK_DEPTH_def
  configMAX_PRIORITIES_def configKERNEL_INTERRUPT_PRIORITY_def configMAX_SYSCALL_INTERRUPT_PRIORITY_def
  TASK_STACK_DEPTH_def main_tasks_def timer_task_def

subsection \<open>Limits\<close>

text \<open>
  With an idle priority of 0, as FreeRTOS has it, every priority is below the maximum, the timer service
  runs above every task of the application, and the alert task above the other three.
\<close>

theorem priorities_fit:
  "list_all (\<lambda>(n, d, p). p < configMAX_PRIORITIES) (timer_task 0 # main_tasks 0) \<and>
   list_all (\<lambda>(n, d, p). p < snd (snd (timer_task 0))) (main_tasks 0) \<and>
   list_all (\<lambda>(n, d, p). n = ''ALERT_TASK'' \<or> p < snd (snd (last (main_tasks 0)))) (main_tasks 0)"
  by (simp add: config_defs)

text \<open>The stacks of all tasks, that of the idle task included, take less than a fifth of the heap.\<close>

theorem stacks_fit_heap:
  "5 * (4 * (configMINIMAL_STACK_SIZE + sum_list (map (\<lambda>(n, d, p). d) (timer_task 0 # main_tasks 0))))
     < configTOTAL_HEAP_SIZE"
  by (simp add: config_defs)

text \<open>
  The configured clock is the clock that \<^verbatim>\<open>main\<close> sets, it is a multiple of the tick rate, and the reload value of
  the system timer fits its 24 bits.
\<close>

theorem tick_is_exact:
  "SysCtlClockFreqSet configCPU_CLOCK_HZ \<in> set board_init \<and> configCPU_CLOCK_HZ mod unat configTICK_RATE_HZ = 0 \<and>
   configCPU_CLOCK_HZ div unat configTICK_RATE_HZ - 1 < 2 ^ 24"
  by (simp add: config_defs board_init_def)

text \<open>
  Three bits of an interrupt priority are implemented: both constants use only these, the kernel has the
  lowest priority, and interrupts that call the RTOS are masked before it but not at priority 0, which
  cannot be masked.
\<close>

theorem interrupt_priorities_fit:
  "configKERNEL_INTERRUPT_PRIORITY < 256 \<and> configKERNEL_INTERRUPT_PRIORITY mod 32 = 0 \<and>
   configMAX_SYSCALL_INTERRUPT_PRIORITY mod 32 = 0 \<and>
   0 < configMAX_SYSCALL_INTERRUPT_PRIORITY \<and>
   configMAX_SYSCALL_INTERRUPT_PRIORITY < configKERNEL_INTERRUPT_PRIORITY"
  by (simp add: config_defs push_bit_eq_mult)

text \<open>One name of a task does not fit: the RTOS keeps \<^verbatim>\<open>configMAX_TASK_NAME_LEN\<close> bytes with the null byte.\<close>

theorem temperature_task_name_is_cut:
  "filter (\<lambda>(n, d, p). configMAX_TASK_NAME_LEN \<le> length n) (main_tasks 0)
     = [(''TEMPERATURE_TASK'', TASK_STACK_DEPTH, 1)]"
  by (simp add: config_defs)

subsection \<open>From milliseconds to deadlines\<close>

text \<open>
  C31: when \<^verbatim>\<open>pdMS_TO_TICKS\<close> multiplies by the tick rate and divides by 1000, start-up leaves the two timers of
  the application armed, the temperature timer after one second and the LED timer after a tenth,
  whatever the results of the other creation calls, provided there is memory for the two timers and
  the command queue and the timer service processes the start commands before tick 100.
\<close>

theorem boot_arms_timers:
  assumes "rtos_kernel K" and "service_reset s" and ms: "\<And>x. ms x = x * configTICK_RATE_HZ div 1000"
    and "pvPortMalloc K Map.empty = Some h1"
    and "pvPortMalloc K [h1 \<mapsto> fw_timer ''TempTimer'' configTICK_RATE_HZ TEMP_CALLBACK] = Some h2"
    and "xQueueCreate K configTIMER_QUEUE_LENGTH = Some []" and "\<And>i. ticks K i = n" and "n < 100"
  shows "\<exists>s'. prvProcessReceivedCommands K (snd (firmware_main K ms r 0 s)) = Some s' \<and> cinv n s' \<and>
    xTimerQueue s' = Some [] \<and> app s' = app s \<and>
    deadlines 0 s' = {(unat configTICK_RATE_HZ, h1), (unat configTICK_RATE_HZ div 10, h2)}"
proof -
  have t: "ms 1000 = 1000" "ms 100 = 100" by (simp_all add: ms configTICK_RATE_HZ_def)
  have "pvPortMalloc K [h1 \<mapsto> fw_timer ''TempTimer'' 1000 TEMP_CALLBACK] = Some h2"
    using assms(5) by (simp add: configTICK_RATE_HZ_def)
  from main_arms_timers [OF assms(1,2) t assms(4) this assms(6-8), of r] show ?thesis
    by (auto simp: configTICK_RATE_HZ_def)
qed

theorem boot_arms_timers_witness:
  "\<exists>s'. prvProcessReceivedCommands (ref_rtos (fw_callback demo_os) (\<lambda>_. 3))
      (snd (firmware_main (ref_rtos (fw_callback demo_os) (\<lambda>_. 3)) (\<lambda>x. x * configTICK_RATE_HZ div 1000)
        \<lparr>queue_temp_ok = True, queue_led_ok = True,
        sem_temp_ok = True, sem_led_ok = True, task_temp_ok = True, task_logger_ok = True, task_led_ok = True,
        task_alert_ok = True\<rparr> 0 reset_service)) = Some s' \<and> deadlines 0 s' = {(1000, 1), (100, 2)}"
  using boot_arms_timers [OF ref.rtos_kernel_axioms, of reset_service "\<lambda>x. x * configTICK_RATE_HZ div 1000"
      "fw_callback demo_os" "\<lambda>_. 3" 1 2 3]
  by (simp add: service_reset_def reset_service_def upt_rec) (auto simp: configTICK_RATE_HZ_def)

end
