(* ===== verification/IpcMessages.thy ===== *)
theory IpcMessages
  imports Prelude
begin

text \<open>
  What the three inter-process communication programs of \<^verbatim>\<open>src/HW4/Ques2\<close> share: parent and
  child, the five commands and five strings each side sends, and C strings in memory.
\<close>

datatype role = Parent | Child
datatype payload = Num u8 | Text string

definition other :: "role \<Rightarrow> role" where
  "other r = (case r of Parent \<Rightarrow> Child | Child \<Rightarrow> Parent)"

lemma other_simps [simp]: "other r \<noteq> r" "r \<noteq> other r" "r' = other r \<longleftrightarrow> r' \<noteq> r" "other r = r' \<longleftrightarrow> r' \<noteq> r"
  by (cases r; cases r'; simp add: other_def)+

lemma other_other [simp]: "other (other r) = r"
  by (cases r) (simp_all add: other_def)

definition commands :: "u8 list" where
  "commands = [1, 0, 1, 1, 0]"

definition txParent :: "string list" where
  "txParent = [''Firmino'', ''Salah'', ''Mane'', ''Van Dijk'', ''Alisson'']"

definition txChild :: "string list" where
  "txChild = [''Fabinho'', ''Robertson'', ''Alexander Arnold'', ''Lovren'', ''Wijnaldum'']"

definition c_string :: "string \<Rightarrow> u8 list" where
  "c_string t = map (\<lambda>c. word_of_nat (of_char c)) t @ [0]"

text \<open>The characters up to the first zero byte, as \<^verbatim>\<open>%s\<close> prints them.\<close>

definition read_string :: "u8 list \<Rightarrow> string" where
  "read_string m = map (\<lambda>b. char_of (unat b)) (takeWhile (\<lambda>b. b \<noteq> 0) m)"

definition nul_free_string :: "string \<Rightarrow> bool" where
  "nul_free_string t = list_all (\<lambda>c. (of_char c :: nat) \<noteq> 0) t"

lemma all_roles: "(\<forall>r. P r) \<longleftrightarrow> P Parent \<and> P Child"
  by (metis role.exhaust)

lemma unat_of_char: "unat (word_of_nat (of_char c) :: u8) = (of_char c :: nat)"
proof -
  have "(of_char c :: nat) < 256" by simp
  then show ?thesis by (simp add: unsigned_of_nat take_bit_nat_eq_self_iff)
qed

lemma read_string_c_string:
  assumes "nul_free_string t"
  shows "read_string (c_string t @ bs) = t"
proof -
  have "(word_of_nat (of_char c) :: u8) \<noteq> 0" if "c \<in> set t" for c
    using assms that unat_of_char [of c] by (auto simp: nul_free_string_def list_all_iff)
  then have "takeWhile (\<lambda>b. b \<noteq> 0) (c_string t @ bs) = map (\<lambda>c. word_of_nat (of_char c)) t"
    unfolding c_string_def by (induction t) auto
  then show ?thesis by (simp add: read_string_def unat_of_char comp_def)
qed

end
