(* ===== verification/SharedMem.thy ===== *)
theory SharedMem
  imports IpcMessages
begin

text \<open>
  The shared memory program (\<^verbatim>\<open>src/HW4/Ques2/Shared Memory/sharedMem.c\<close>): parent and child
  exchange commands and strings through one memory segment guarded by the semaphores
  \<^verbatim>\<open>shm_read\<close> and \<^verbatim>\<open>shm_write\<close>. A process is the list of the loop iterations it still has to
  run and the statement of the current iteration it has reached; every interleaving of the
  statements of the two processes, and SIGINT at any point, is a list of events. Time stamps
  and the flushing of the log stream are not modelled: \<open>lines\<close> are the lines a process has
  handed to its stream.
\<close>

subsection \<open>Data\<close>

datatype sem_name = Sem_read | Sem_write

text \<open>
  The two kinds of loop body that write (\<^verbatim>\<open>*(uint8_t *)shm_p=commands[i]\<close> and
  \<^verbatim>\<open>sprintf(shm_p, "%s", ...)\<close>) and the two that read.
\<close>

datatype mem_op = PutCmd u8 | PutStr string | GetCmd | GetStr

datatype task_op = Announce | Access mem_op | Usleep | AwaitSigint | SemUnlink sem_name

text \<open>
  The statement reached in a loop body: at \<^verbatim>\<open>sem_wait\<close>, at the access, at \<^verbatim>\<open>sem_post\<close>, at the
  \<^verbatim>\<open>fputs\<close>.
\<close>

datatype stage = At_wait | At_access | At_post | At_fputs

datatype line = Pid_line | Writing role payload | Reading role payload | Exiting role

record shm_proc =
  todo :: "task_op list"
  stage :: stage
  buf :: payload
  terminateSignal :: bool
  lines :: "line list"

record shm_sys =
  seg :: "u8 list"
  shm_read :: nat
  shm_write :: nat
  linked :: "sem_name set"
  procs :: "role \<Rightarrow> shm_proc"

type_synonym mem_access = "role \<times> mem_op \<times> payload"

definition shutdown :: "task_op list" where
  "shutdown = [AwaitSigint, SemUnlink Sem_read, SemUnlink Sem_write]"

definition parent_code :: "task_op list" where
  "parent_code = Announce # map (\<lambda>c. Access (PutCmd c)) commands
     @ map (\<lambda>t. Access (PutStr t)) txParent @ [Usleep]
     @ replicate 5 (Access GetCmd) @ replicate 5 (Access GetStr) @ shutdown"

definition child_code :: "task_op list" where
  "child_code = Announce # replicate 5 (Access GetCmd) @ replicate 5 (Access GetStr)
     @ map (\<lambda>c. Access (PutCmd c)) commands @ map (\<lambda>t. Access (PutStr t)) txChild @ shutdown"

subsection \<open>Memory, semaphores and steps\<close>

definition put_bytes :: "u8 list \<Rightarrow> u8 list \<Rightarrow> u8 list" where
  "put_bytes bs m = bs @ drop (length bs) m"

definition is_put :: "mem_op \<Rightarrow> bool" where
  "is_put mop = (case mop of PutCmd c \<Rightarrow> True | PutStr t \<Rightarrow> True | GetCmd \<Rightarrow> False | GetStr \<Rightarrow> False)"

text \<open>The access of a loop body, with the value it logs; outside the segment it is undefined.\<close>

definition shm_access :: "mem_op \<Rightarrow> u8 list \<Rightarrow> (payload \<times> u8 list) option" where
  "shm_access mop m = (case mop of
     PutCmd c \<Rightarrow> if m = [] then None else Some (Num c, put_bytes [c] m)
   | PutStr t \<Rightarrow> if length m < length t + 1 then None else Some (Text t, put_bytes (c_string t) m)
   | GetCmd \<Rightarrow> (case m of [] \<Rightarrow> None | b # bs \<Rightarrow> Some (Num b, m))
   | GetStr \<Rightarrow> if 0 \<in> set m then Some (Text (read_string m), m) else None)"

text \<open>
  \<^verbatim>\<open>sem_wait\<close> on \<^verbatim>\<open>shm_write\<close> before a write and on \<^verbatim>\<open>shm_read\<close> before a read (\<^const>\<open>None\<close> while
  it blocks), and the \<^verbatim>\<open>sem_post\<close> on the other semaphore.
\<close>

definition take_sem :: "mem_op \<Rightarrow> shm_sys \<Rightarrow> shm_sys option" where
  "take_sem mop s =
     (if is_put mop
      then if shm_write s = 0 then None else Some (s\<lparr>shm_write := shm_write s - 1\<rparr>)
      else if shm_read s = 0 then None else Some (s\<lparr>shm_read := shm_read s - 1\<rparr>))"

definition post_sem :: "mem_op \<Rightarrow> shm_sys \<Rightarrow> shm_sys" where
  "post_sem mop s =
     (if is_put mop then s\<lparr>shm_read := shm_read s + 1\<rparr> else s\<lparr>shm_write := shm_write s + 1\<rparr>)"

text \<open>The line of a loop body; the child labels the strings it writes as the parent's.\<close>

definition log_line :: "role \<Rightarrow> mem_op \<Rightarrow> payload \<Rightarrow> line" where
  "log_line r mop v = (case mop of
     PutCmd c \<Rightarrow> Writing r v
   | PutStr t \<Rightarrow> Writing Parent v
   | GetCmd \<Rightarrow> Reading r v
   | GetStr \<Rightarrow> Reading r v)"

definition set_proc :: "role \<Rightarrow> shm_proc \<Rightarrow> shm_sys \<Rightarrow> shm_sys" where
  "set_proc r p s = s\<lparr>procs := (procs s)(r := p)\<rparr>"

definition body_step ::
  "role \<Rightarrow> mem_op \<Rightarrow> task_op list \<Rightarrow> shm_proc \<Rightarrow> shm_sys \<Rightarrow> (mem_access list \<times> shm_sys) option" where
  "body_step r mop ops p s = (case stage p of
     At_wait \<Rightarrow> map_option (\<lambda>s. ([], set_proc r (p\<lparr>stage := At_access\<rparr>) s)) (take_sem mop s)
   | At_access \<Rightarrow>
       (case shm_access mop (seg s) of
          None \<Rightarrow> None
        | Some (v, m) \<Rightarrow>
            Some ([(r, mop, v)], set_proc r (p\<lparr>stage := At_post, buf := v\<rparr>) (s\<lparr>seg := m\<rparr>)))
   | At_post \<Rightarrow> Some ([], set_proc r (p\<lparr>stage := At_fputs\<rparr>) (post_sem mop s))
   | At_fputs \<Rightarrow> Some ([], set_proc r
       (p\<lparr>stage := At_wait, todo := ops, lines := lines p @ [log_line r mop (buf p)]\<rparr>) s))"

definition proc_step :: "role \<Rightarrow> shm_sys \<Rightarrow> (mem_access list \<times> shm_sys) option" where
  "proc_step r s = (let p = procs s r in
     case todo p of
       [] \<Rightarrow> None
     | Announce # ops \<Rightarrow> Some ([], set_proc r (p\<lparr>todo := ops, lines := lines p @ [Pid_line]\<rparr>) s)
     | Usleep # ops \<Rightarrow> Some ([], set_proc r (p\<lparr>todo := ops\<rparr>) s)
     | AwaitSigint # ops \<Rightarrow>
         if terminateSignal p
         then Some ([], set_proc r (p\<lparr>todo := ops, lines := lines p @ [Exiting r]\<rparr>) s) else None
     | SemUnlink n # ops \<Rightarrow> Some ([], set_proc r (p\<lparr>todo := ops\<rparr>) (s\<lparr>linked := linked s - {n}\<rparr>))
     | Access mop # ops \<Rightarrow> body_step r mop ops p s)"

text \<open>
  SIGINT sets the flag of the process. The handler is installed without \<^verbatim>\<open>SA_RESTART\<close>, so a
  \<^verbatim>\<open>sem_wait\<close> that is blocked when the signal arrives returns; its result is not checked and
  the loop body goes on.
\<close>

datatype shm_event = Run role | Sigint role bool

definition waiting :: "role \<Rightarrow> shm_sys \<Rightarrow> bool" where
  "waiting r s = (case todo (procs s r) of
     Access mop # ops \<Rightarrow> stage (procs s r) = At_wait \<and> take_sem mop s = None
   | _ \<Rightarrow> False)"

definition shm_step :: "shm_event \<Rightarrow> shm_sys \<Rightarrow> (mem_access list \<times> shm_sys) option" where
  "shm_step e s = (case e of
     Run r \<Rightarrow> proc_step r s
   | Sigint r interrupts \<Rightarrow>
       let p = (procs s r)\<lparr>terminateSignal := True\<rparr>
       in Some ([], set_proc r (if interrupts \<and> waiting r s then p\<lparr>stage := At_access\<rparr> else p) s))"

fun shm_run ::
  "(shm_event \<Rightarrow> shm_sys \<Rightarrow> bool) \<Rightarrow> shm_event list \<Rightarrow> shm_sys \<Rightarrow> (mem_access list \<times> shm_sys) option" where
  "shm_run ok [] s = Some ([], s)"
| "shm_run ok (e # es) s =
     (if ok e s then do {
        (t, s) \<leftarrow> shm_step e s;
        (t', s) \<leftarrow> shm_run ok es s;
        Some (t @ t', s)
      } else None)"

definition start_proc :: "task_op list \<Rightarrow> shm_proc" where
  "start_proc ops = \<lparr>todo = ops, stage = At_wait, buf = Num 0, terminateSignal = False, lines = []\<rparr>"

definition fork_sys :: "bool \<Rightarrow> u8 list \<Rightarrow> nat \<Rightarrow> nat \<Rightarrow> shm_sys" where
  "fork_sys forked m sr sw = \<lparr>seg = m, shm_read = sr, shm_write = sw, linked = {Sem_read, Sem_write},
     procs = (\<lambda>r. case r of Parent \<Rightarrow> start_proc parent_code
                         | Child \<Rightarrow> start_proc (if forked then child_code else []))\<rparr>"

subsection \<open>Set-up\<close>

text \<open>
  The named objects that outlive a run: the segment and the semaphores. Which calls fail is
  given by \<open>shm_env\<close>; a file descriptor is the value \<^verbatim>\<open>shm_open\<close> returns.
\<close>

record shm_os =
  shm_obj :: "u8 list option"
  named_sems :: "sem_name \<rightharpoonup> nat"

record shm_env =
  create_fd :: int
  reopen_fd :: int
  ftruncate_ok :: bool
  sem_open_ok :: "sem_name \<Rightarrow> bool"
  mmap_ok :: bool
  fork_ok :: bool

definition SHM_SEGMENT_SIZE :: nat where
  "SHM_SEGMENT_SIZE = 65536"

text \<open>\<^verbatim>\<open>sem_open\<close> with \<^verbatim>\<open>O_CREAT\<close> and without \<^verbatim>\<open>O_EXCL\<close>: the initial value counts for a new name only.\<close>

definition sem_open :: "shm_env \<Rightarrow> sem_name \<Rightarrow> nat \<Rightarrow> shm_os \<Rightarrow> nat option \<times> shm_os" where
  "sem_open E n v w =
     (if sem_open_ok E n then
        case named_sems w n of
          Some v' \<Rightarrow> (Some v', w)
        | None \<Rightarrow> (Some v, w\<lparr>named_sems := (named_sems w)(n \<mapsto> v)\<rparr>)
      else (None, w))"

text \<open>
  \<^verbatim>\<open>get_shared_memory\<close>: \<open>Inl 1\<close> is \<^verbatim>\<open>exit(1)\<close>; otherwise the mapped bytes (\<^const>\<open>None\<close> for
  \<^verbatim>\<open>MAP_FAILED\<close>, which the test against NULL does not catch) and the values of the two
  semaphores (\<^const>\<open>None\<close> for one that is not open).
\<close>

definition map_segment ::
  "shm_env \<Rightarrow> nat option \<Rightarrow> nat option \<Rightarrow> shm_os \<Rightarrow>
     nat + u8 list option \<times> nat option \<times> nat option \<times> shm_os" where
  "map_segment E sr sw w = Inr (if mmap_ok E then shm_obj w else None, sr, sw, w)"

definition get_shared_memory ::
  "shm_env \<Rightarrow> shm_os \<Rightarrow> nat + u8 list option \<times> nat option \<times> nat option \<times> shm_os" where
  "get_shared_memory E w =
     (if shm_obj w = None then
        if create_fd E = - 1 then Inl 1
        else let w = w\<lparr>shm_obj := Some []\<rparr> in
        if create_fd E > 0 then
          if \<not> ftruncate_ok E then Inl 1
          else let w = w\<lparr>shm_obj := Some (replicate SHM_SEGMENT_SIZE 0)\<rparr>;
                   (sr, w) = sem_open E Sem_read 0 w;
                   (sw, w) = sem_open E Sem_write 1 w
               in map_segment E sr sw w
        else map_segment E None None w
      else
        let (sr, w) = sem_open E Sem_read 0 w;
            (sw, w) = sem_open E Sem_write 1 w
        in if reopen_fd E = - 1 then Inl 1 else map_segment E sr sw w)"

text \<open>
  \<^verbatim>\<open>main\<close> up to the start of both processes; \<^const>\<open>None\<close> when it goes on with a segment or a
  semaphore it does not have.
\<close>

definition shared_mem_main :: "shm_env \<Rightarrow> shm_os \<Rightarrow> nat + shm_sys option" where
  "shared_mem_main E w = (case get_shared_memory E w of
     Inl c \<Rightarrow> Inl c
   | Inr (m, sr, sw, w) \<Rightarrow> Inr (do {
       m \<leftarrow> m; sr \<leftarrow> sr; sw \<leftarrow> sw;
       Some (fork_sys (fork_ok E) m sr sw)
     }))"

text \<open>The named objects a run leaves behind.\<close>

definition left_behind :: "shm_sys \<Rightarrow> shm_os" where
  "left_behind s = \<lparr>shm_obj = Some (seg s),
     named_sems = (\<lambda>n. if n \<in> linked s
       then Some (case n of Sem_read \<Rightarrow> shm_read s | Sem_write \<Rightarrow> shm_write s) else None)\<rparr>"

end
