(* ===== verification/Handover.thy ===== *)
theory Handover
  imports SharedMem
begin

text \<open>
  The shared memory program over every interleaving: the kinds of step, the rights to write
  and to read that the semaphores hand over, what the segment holds, the log, and a bound on
  the length of a run.
\<close>

subsection \<open>Writes, reads and runs\<close>

text \<open>
  The read that belongs to a write, the value it should return, and the accesses a process
  has left.
\<close>

definition get_of :: "mem_op \<Rightarrow> mem_op" where
  "get_of mop = (case mop of PutCmd c \<Rightarrow> GetCmd | PutStr t \<Rightarrow> GetStr | _ \<Rightarrow> mop)"

definition val_of :: "mem_op \<Rightarrow> payload" where
  "val_of mop = (case mop of PutCmd c \<Rightarrow> Num c | PutStr t \<Rightarrow> Text t | _ \<Rightarrow> Num 0)"

fun accesses :: "task_op list \<Rightarrow> mem_op list" where
  "accesses [] = []"
| "accesses (Access mop # ops) = mop # accesses ops"
| "accesses (_ # ops) = accesses ops"

definition remaining :: "shm_proc \<Rightarrow> mem_op list" where
  "remaining p = accesses (if stage p \<in> {At_post, At_fputs} then tl (todo p) else todo p)"

text \<open>The processes may run in any order, as long as no \<^verbatim>\<open>sem_wait\<close> is interrupted.\<close>

definition uninterrupted :: "shm_event \<Rightarrow> shm_sys \<Rightarrow> bool" where
  "uninterrupted e s = (case e of Run r \<Rightarrow> True | Sigint r interrupts \<Rightarrow> \<not> interrupts)"

text \<open>
  The \<^verbatim>\<open>usleep(1)\<close> of the parent is meant to let the child finish reading: the parent goes on
  only when the child has no read left.
\<close>

definition polite :: "shm_event \<Rightarrow> shm_sys \<Rightarrow> bool" where
  "polite e s \<longleftrightarrow> uninterrupted e s \<and>
     (case todo (procs s Parent) of
        Usleep # ops \<Rightarrow> e = Run Parent \<longrightarrow> list_all is_put (remaining (procs s Child))
      | _ \<Rightarrow> True)"

text \<open>What a read returns after a write.\<close>

definition delivers :: "mem_op \<Rightarrow> mem_op \<Rightarrow> payload \<Rightarrow> bool" where
  "delivers put get v = (case (put, get) of
     (PutCmd c, GetCmd) \<Rightarrow> v = Num c
   | (PutStr t, GetStr) \<Rightarrow> v = Text t
   | (PutStr t, GetCmd) \<Rightarrow> v = Num (hd (c_string t))
   | _ \<Rightarrow> True)"

subsection \<open>Steps\<close>

definition well_staged :: "shm_proc \<Rightarrow> bool" where
  "well_staged p \<longleftrightarrow> stage p = At_wait \<or> (\<exists>mop ops. todo p = Access mop # ops)"

lemma set_proc_simps [simp]:
  "seg (set_proc r p s) = seg s" "shm_read (set_proc r p s) = shm_read s"
  "shm_write (set_proc r p s) = shm_write s" "linked (set_proc r p s) = linked s"
  "procs (set_proc r p s) = (procs s)(r := p)"
  by (simp_all add: set_proc_def)

lemma take_sem_procs: "take_sem mop s = Some s' \<Longrightarrow> procs s' = procs s \<and> seg s' = seg s \<and> linked s' = linked s"
  by (auto simp: take_sem_def split: if_splits)

lemma post_sem_simps [simp]:
  "procs (post_sem mop s) = procs s" "seg (post_sem mop s) = seg s" "linked (post_sem mop s) = linked s"
  by (simp_all add: post_sem_def)

text \<open>The kinds of step of a run whose waits are not interrupted.\<close>

lemma shm_step_cases:
  assumes "shm_step e s = Some (t, s')" "uninterrupted e s"
  obtains
    (flag) r where "t = []" "e = Sigint r False"
      "s' = set_proc r ((procs s r)\<lparr>terminateSignal := True\<rparr>) s"
  | (plain) r x ops p' where "t = []" "e = Run r" "todo (procs s r) = x # ops" "\<forall>mop. x \<noteq> Access mop"
      "procs s' = (procs s)(r := p')" "todo p' = ops" "stage p' = stage (procs s r)"
      "seg s' = seg s" "shm_read s' = shm_read s" "shm_write s' = shm_write s"
      "lines p' = lines (procs s r) @
         (case x of Announce \<Rightarrow> [Pid_line] | AwaitSigint \<Rightarrow> [Exiting r] | _ \<Rightarrow> [])"
  | (wait) r mop ops s1 where "t = []" "e = Run r" "todo (procs s r) = Access mop # ops"
      "stage (procs s r) = At_wait" "take_sem mop s = Some s1"
      "s' = set_proc r ((procs s r)\<lparr>stage := At_access\<rparr>) s1"
  | (access) r mop ops v m where "t = [(r, mop, v)]" "e = Run r" "todo (procs s r) = Access mop # ops"
      "stage (procs s r) = At_access" "shm_access mop (seg s) = Some (v, m)"
      "s' = set_proc r ((procs s r)\<lparr>stage := At_post, buf := v\<rparr>) (s\<lparr>seg := m\<rparr>)"
  | (post) r mop ops where "t = []" "e = Run r" "todo (procs s r) = Access mop # ops"
      "stage (procs s r) = At_post"
      "s' = set_proc r ((procs s r)\<lparr>stage := At_fputs\<rparr>) (post_sem mop s)"
  | (fputs) r mop ops where "t = []" "e = Run r" "todo (procs s r) = Access mop # ops"
      "stage (procs s r) = At_fputs"
      "s' = set_proc r ((procs s r)\<lparr>stage := At_wait, todo := ops,
               lines := lines (procs s r) @ [log_line r mop (buf (procs s r))]\<rparr>) s"
proof (cases e)
  case (Sigint r i)
  then show ?thesis using assms flag by (auto simp: shm_step_def uninterrupted_def)
next
  case (Run r)
  then have step: "proc_step r s = Some (t, s')" using assms(1) by (simp add: shm_step_def)
  then obtain x ops where ops: "todo (procs s r) = x # ops"
    by (auto simp: proc_step_def Let_def split: list.splits)
  show ?thesis
  proof (cases "\<exists>mop. x = Access mop")
    case True
    then obtain mop where mop: "todo (procs s r) = Access mop # ops" using ops by auto
    then have "body_step r mop ops (procs s r) s = Some (t, s')"
      using step by (simp add: proc_step_def)
    then show ?thesis using wait access post fputs mop Run
      by (cases "stage (procs s r)") (auto simp: body_step_def split: option.splits)
  next
    case False
    then have x: "\<forall>mop. x \<noteq> Access mop" by auto
    show ?thesis
      using step ops x by (cases x) (auto simp: proc_step_def Let_def split: if_splits intro: plain [OF _ Run ops x])
  qed
qed

text \<open>An invariant of the steps of a run holds at its end.\<close>

lemma shm_run_invariant:
  assumes step: "\<And>tr s e t s'. J tr s \<Longrightarrow> ok e s \<Longrightarrow> shm_step e s = Some (t, s') \<Longrightarrow> J (tr @ t) s'"
  shows "J tr0 s0 \<Longrightarrow> shm_run ok es s0 = Some (tr, s) \<Longrightarrow> J (tr0 @ tr) s"
proof (induction es arbitrary: tr0 s0 tr)
  case (Cons e es)
  from Cons.prems(2) obtain t s1 tr1 where s1: "ok e s0" "shm_step e s0 = Some (t, s1)"
    and rest: "shm_run ok es s1 = Some (tr1, s)" "tr = t @ tr1"
    by (auto split: if_splits option.splits simp: bind_eq_Some_conv)
  show ?case using Cons.IH [OF step [OF Cons.prems(1) s1] rest(1)] rest(2) by simp
qed simp

subsection \<open>The hand-over\<close>

text \<open>
  The right to write and the right to read, as a semaphore value or in the hands of a
  process. One of them exists at any time; the accesses turn one into the other.
\<close>

definition w_tok :: "shm_proc \<Rightarrow> nat" where
  "w_tok p = (case todo p of
     Access mop # ops \<Rightarrow> if stage p = (if is_put mop then At_access else At_post) then 1 else 0
   | _ \<Rightarrow> 0)"

definition r_tok :: "shm_proc \<Rightarrow> nat" where
  "r_tok p = (case todo p of
     Access mop # ops \<Rightarrow> if stage p = (if is_put mop then At_post else At_access) then 1 else 0
   | _ \<Rightarrow> 0)"

definition rights :: "mem_access list \<Rightarrow> shm_sys \<Rightarrow> bool" where
  "rights tr s \<longleftrightarrow> (\<forall>r. well_staged (procs s r)) \<and>
     shm_write s + w_tok (procs s Parent) + w_tok (procs s Child) = (if even (length tr) then 1 else 0) \<and>
     shm_read s + r_tok (procs s Parent) + r_tok (procs s Child) = (if even (length tr) then 0 else 1)"

definition alternating :: "mem_access list \<Rightarrow> bool" where
  "alternating tr \<longleftrightarrow> (\<forall>i < length tr. is_put (fst (snd (tr ! i))) \<longleftrightarrow> even i)"

lemma toks_At_wait [simp]: "stage p = At_wait \<Longrightarrow> w_tok p = 0" "stage p = At_wait \<Longrightarrow> r_tok p = 0"
  by (auto simp: w_tok_def r_tok_def split: list.splits task_op.splits)

lemma toks_update [simp]:
  "w_tok (p\<lparr>terminateSignal := b\<rparr>) = w_tok p" "r_tok (p\<lparr>terminateSignal := b\<rparr>) = r_tok p"
  "well_staged (p\<lparr>terminateSignal := b\<rparr>) = well_staged p"
  by (auto simp: w_tok_def r_tok_def well_staged_def split: list.splits task_op.splits)

lemma toks_Access:
  "todo p = Access mop # ops \<Longrightarrow> w_tok p = (if stage p = (if is_put mop then At_access else At_post) then 1 else 0)"
  "todo p = Access mop # ops \<Longrightarrow> r_tok p = (if stage p = (if is_put mop then At_post else At_access) then 1 else 0)"
  by (simp_all add: w_tok_def r_tok_def)

lemma rights_step:
  assumes "rights tr s" "uninterrupted e s" "shm_step e s = Some (t, s')"
  shows "rights (tr @ t) s'"
  using assms(3, 2)
proof (cases rule: shm_step_cases)
  case (flag r)
  then show ?thesis using assms(1) by (cases r) (auto simp: rights_def)
next
  case (plain r x ops p')
  then have "stage (procs s r) = At_wait" using assms(1) unfolding rights_def well_staged_def by (metis list.inject)
  then show ?thesis using assms(1) plain by (cases r) (auto simp: rights_def well_staged_def)
next
  case (wait r mop ops s1)
  then show ?thesis using assms(1)
    by (cases r) (auto simp: rights_def well_staged_def toks_Access take_sem_def split: if_splits)
next
  case (access r mop ops v m)
  then show ?thesis using assms(1)
    by (cases r; cases "is_put mop") (auto simp: rights_def well_staged_def toks_Access split: if_splits)
next
  case (post r mop ops)
  then show ?thesis using assms(1)
    by (cases r) (auto simp: rights_def well_staged_def toks_Access post_sem_def split: if_splits)
next
  case (fputs r mop ops)
  then show ?thesis using assms(1)
    by (cases r) (auto simp: rights_def well_staged_def toks_Access split: if_splits list.splits task_op.splits)
qed

text \<open>An access finds the parity of the trace that belongs to it.\<close>

lemma rights_access:
  assumes "rights tr s" "todo (procs s r) = Access mop # ops" "stage (procs s r) = At_access"
  shows "is_put mop \<longleftrightarrow> even (length tr)"
  using assms by (cases r; cases "is_put mop") (auto simp: rights_def toks_Access split: if_splits)

text \<open>What the segment holds after a write, and what a read then returns.\<close>

definition holds :: "mem_op \<Rightarrow> u8 list \<Rightarrow> bool" where
  "holds put m = (case put of
     PutCmd c \<Rightarrow> \<exists>bs. m = c # bs
   | PutStr t \<Rightarrow> \<exists>bs. m = c_string t @ bs
   | _ \<Rightarrow> False)"

definition nul_free :: "mem_op \<Rightarrow> bool" where
  "nul_free mop = (case mop of PutStr t \<Rightarrow> nul_free_string t | _ \<Rightarrow> True)"

definition delivered :: "mem_access list \<Rightarrow> bool" where
  "delivered tr \<longleftrightarrow> (\<forall>i. Suc i < length tr \<and> even i \<longrightarrow>
     delivers (fst (snd (tr ! i))) (fst (snd (tr ! Suc i))) (snd (snd (tr ! Suc i))))"

definition stored :: "mem_access list \<Rightarrow> shm_sys \<Rightarrow> bool" where
  "stored tr s \<longleftrightarrow> alternating tr \<and> delivered tr \<and>
     (odd (length tr) \<longrightarrow> nul_free (fst (snd (last tr))) \<and> holds (fst (snd (last tr))) (seg s)) \<and>
     (\<forall>r. list_all nul_free (accesses (todo (procs s r))))"

lemma shm_access_put:
  "is_put mop \<Longrightarrow> shm_access mop m = Some (v, m') \<Longrightarrow> v = val_of mop \<and> holds mop m' \<and> length m' = length m"
  by (auto simp: shm_access_def is_put_def holds_def val_of_def put_bytes_def c_string_def
      split: mem_op.splits if_splits)

lemma shm_access_get:
  assumes "\<not> is_put mop" "shm_access mop m = Some (v, m')"
  shows "m' = m" "holds put m \<Longrightarrow> nul_free put \<Longrightarrow> delivers put mop v"
proof -
  show "m' = m" using assms
    by (auto simp: shm_access_def is_put_def split: mem_op.splits if_splits list.splits)
  have hd: "hd (c_string t @ bs) = hd (c_string t)" for t bs by (simp add: c_string_def hd_append)
  assume put: "holds put m" "nul_free put"
  consider "mop = GetCmd" | "mop = GetStr" using assms(1) by (cases mop) (auto simp: is_put_def)
  then show "delivers put mop v"
  proof cases
    case 1
    then have "v = Num (hd m)" using assms(2) by (auto simp: shm_access_def split: list.splits)
    then show ?thesis using 1 put(1) hd by (cases put) (auto simp: holds_def delivers_def)
  next
    case 2
    then have "v = Text (read_string m)" using assms(2) by (auto simp: shm_access_def split: if_splits)
    then show ?thesis using 2 put by (cases put) (auto simp: holds_def delivers_def nul_free_def read_string_c_string)
  qed
qed

lemma accesses_Cons: "set (accesses ops) \<subseteq> set (accesses (x # ops))"
  by (cases x) auto

lemma alternating_snoc: "alternating (tr @ [a]) \<longleftrightarrow> alternating tr \<and> (is_put (fst (snd a)) \<longleftrightarrow> even (length tr))"
  by (auto simp: alternating_def nth_append less_Suc_eq)

lemma delivered_snoc:
  "delivered (tr @ [a]) \<longleftrightarrow> delivered tr \<and>
     (odd (length tr) \<longrightarrow> delivers (fst (snd (last tr))) (fst (snd a)) (snd (snd a)))"
  (is "_ \<longleftrightarrow> _ \<and> ?last")
proof
  assume whole: "delivered (tr @ [a])"
  have "delivered tr" unfolding delivered_def
  proof (intro allI impI)
    show "delivers (fst (snd (tr ! i))) (fst (snd (tr ! Suc i))) (snd (snd (tr ! Suc i)))"
      if "Suc i < length tr \<and> even i" for i
      using whole [unfolded delivered_def, rule_format, of i] that by (simp add: nth_append)
  qed
  moreover have ?last
    using whole [unfolded delivered_def, rule_format, of "length tr - 1"]
    by (cases tr rule: rev_cases) (auto simp: nth_append)
  ultimately show "delivered tr \<and> ?last" ..
next
  assume parts: "delivered tr \<and> ?last"
  show "delivered (tr @ [a])" unfolding delivered_def
  proof (intro allI impI)
    fix i assume i: "Suc i < length (tr @ [a]) \<and> even i"
    show "delivers (fst (snd ((tr @ [a]) ! i))) (fst (snd ((tr @ [a]) ! Suc i))) (snd (snd ((tr @ [a]) ! Suc i)))"
    proof (cases "Suc i < length tr")
      case True
      then show ?thesis using parts i by (auto simp: delivered_def nth_append)
    next
      case False
      then have "length tr = Suc i" using i by simp
      then show ?thesis using parts i by (cases tr rule: rev_cases) (auto simp: nth_append)
    qed
  qed
qed

lemma stored_step:
  assumes "stored tr s" "rights tr s" "uninterrupted e s" "shm_step e s = Some (t, s')"
  shows "stored (tr @ t) s'"
  using assms(4, 3)
proof (cases rule: shm_step_cases)
  case (plain r x ops p')
  then have "set (accesses ops) \<subseteq> set (accesses (todo (procs s r)))"
    using accesses_Cons [of ops x] by simp
  then have "list_all nul_free (accesses ops)" using assms(1) by (auto simp: stored_def list_all_iff)
  then show ?thesis using assms(1) plain by (auto simp: stored_def)
next
  case (wait r mop ops s1)
  then have "list_all nul_free (mop # accesses ops)" using assms(1) by (auto simp: stored_def dest: spec [of _ r])
  then show ?thesis using assms(1) wait take_sem_procs [of mop s s1] by (auto simp: stored_def)
next
  case (access r mop ops v m)
  have put: "is_put mop \<longleftrightarrow> even (length tr)" using rights_access assms(2) access by blast
  have "list_all nul_free (mop # accesses ops)"
    using assms(1) access by (auto simp: stored_def dest: spec [of _ r])
  then show ?thesis using assms(1) access put shm_access_put [of mop "seg s" v m] shm_access_get [of mop "seg s" v m]
    by (cases "is_put mop") (auto simp: stored_def alternating_snoc delivered_snoc)
next
  case (post r mop ops)
  then have "list_all nul_free (mop # accesses ops)" using assms(1) by (auto simp: stored_def dest: spec [of _ r])
  then show ?thesis using assms(1) post by (auto simp: stored_def)
next
  case (fputs r mop ops)
  then have "list_all nul_free (mop # accesses ops)" using assms(1) by (auto simp: stored_def dest: spec [of _ r])
  then show ?thesis using assms(1) fputs by (auto simp: stored_def)
qed (use assms(1) in \<open>auto simp: stored_def\<close>)

subsection \<open>The log and the length of a run\<close>

text \<open>
  The lines of a process about the shared memory are those of its accesses in order; the
  last one may still wait for its \<^verbatim>\<open>fputs\<close>.
\<close>

definition io_lines :: "line list \<Rightarrow> line list" where
  "io_lines = filter (\<lambda>l. case l of Writing r v \<Rightarrow> True | Reading r v \<Rightarrow> True | _ \<Rightarrow> False)"

definition unlogged :: "role \<Rightarrow> shm_proc \<Rightarrow> line list" where
  "unlogged r p = (case todo p of
     Access mop # ops \<Rightarrow> if stage p \<in> {At_post, At_fputs} then [log_line r mop (buf p)] else []
   | _ \<Rightarrow> [])"

definition access_line :: "mem_access \<Rightarrow> line" where
  "access_line a = log_line (fst a) (fst (snd a)) (snd (snd a))"

definition logged :: "mem_access list \<Rightarrow> shm_sys \<Rightarrow> bool" where
  "logged tr s \<longleftrightarrow> (\<forall>r. io_lines (lines (procs s r)) @ unlogged r (procs s r)
     = map access_line (filter (\<lambda>a. fst a = r) tr))"

lemma io_lines_simps [simp]:
  "io_lines (ls @ [log_line r mop v]) = io_lines ls @ [log_line r mop v]"
  "io_lines (ls @ [Pid_line]) = io_lines ls" "io_lines (ls @ [Exiting r]) = io_lines ls"
  by (simp_all add: io_lines_def log_line_def split: mem_op.splits)

lemma unlogged_simps [simp]:
  "stage p = At_wait \<Longrightarrow> unlogged r p = []" "stage p = At_access \<Longrightarrow> unlogged r p = []"
  "unlogged r (p\<lparr>terminateSignal := b\<rparr>) = unlogged r p"
  by (auto simp: unlogged_def split: list.splits task_op.splits)

lemma logged_step:
  assumes "logged tr s" "\<forall>r. well_staged (procs s r)" "uninterrupted e s" "shm_step e s = Some (t, s')"
  shows "logged (tr @ t) s'"
proof -
  have old: "io_lines (lines (procs s r)) @ unlogged r (procs s r)
      = map access_line (filter (\<lambda>a. fst a = r) tr)" for r
    using assms(1) by (simp add: logged_def)
  show ?thesis
    using assms(4, 3)
  proof (cases rule: shm_step_cases)
    case (flag r)
    then show ?thesis using old by (simp add: logged_def)
  next
    case (plain r x ops p')
    then have "stage (procs s r) = At_wait" using assms(2) unfolding well_staged_def by (metis list.inject)
    then show ?thesis using old old [of r] plain by (cases x) (simp_all add: logged_def)
  next
    case (wait r mop ops s1)
    then show ?thesis using old old [of r] take_sem_procs [of mop s s1] by (simp add: logged_def)
  next
    case (access r mop ops v m)
    then show ?thesis using old old [of r] by (simp add: logged_def access_line_def) (simp add: unlogged_def)
  next
    case (post r mop ops)
    then have "unlogged r (procs s r) = [log_line r mop (buf (procs s r))]" by (simp add: unlogged_def)
    then show ?thesis using old old [of r] post by (simp add: logged_def) (simp add: unlogged_def)
  next
    case (fputs r mop ops)
    then have "unlogged r (procs s r) = [log_line r mop (buf (procs s r))]" by (simp add: unlogged_def)
    then show ?thesis using old old [of r] fputs by (simp add: logged_def)
  qed
qed

text \<open>The statements a process has left, whatever the other one and the signals do.\<close>

definition work :: "shm_proc \<Rightarrow> nat" where
  "work p = 4 * length (todo p) -
     (case stage p of At_wait \<Rightarrow> 0 | At_access \<Rightarrow> 1 | At_post \<Rightarrow> 2 | At_fputs \<Rightarrow> 3)"

definition is_run :: "shm_event \<Rightarrow> bool" where
  "is_run e = (case e of Run r \<Rightarrow> True | Sigint r i \<Rightarrow> False)"

lemma work_step:
  assumes "\<forall>r. well_staged (procs s r)" "shm_step e s = Some (t, s')"
  shows "(\<forall>r. well_staged (procs s' r)) \<and>
    work (procs s' Parent) + work (procs s' Child) + (if is_run e then 1 else 0)
      \<le> work (procs s Parent) + work (procs s Child)"
proof (cases "uninterrupted e s")
  case True
  show ?thesis using assms(2) True
  proof (cases rule: shm_step_cases)
    case (flag r)
    then show ?thesis using assms(1) by (cases r) (auto simp: work_def is_run_def)
  next
    case (plain r x ops p')
    then have "stage (procs s r) = At_wait" using assms(1) unfolding well_staged_def by (metis list.inject)
    then show ?thesis using assms(1) plain by (cases r) (auto simp: work_def is_run_def well_staged_def)
  next
    case (wait r mop ops s1)
    then show ?thesis using assms(1) take_sem_procs [of mop s s1]
      by (cases r) (auto simp: work_def is_run_def well_staged_def)
  next
    case (access r mop ops v m)
    then show ?thesis using assms(1) by (cases r) (auto simp: work_def is_run_def well_staged_def)
  next
    case (post r mop ops)
    then show ?thesis using assms(1) by (cases r) (auto simp: work_def is_run_def well_staged_def)
  next
    case (fputs r mop ops)
    then show ?thesis using assms(1) by (cases r) (auto simp: work_def is_run_def well_staged_def)
  qed
next
  case False
  then obtain r where e: "e = Sigint r True" by (auto simp: uninterrupted_def split: shm_event.splits)
  then have "s' = set_proc r (if waiting r s then (procs s r)\<lparr>terminateSignal := True, stage := At_access\<rparr>
      else (procs s r)\<lparr>terminateSignal := True\<rparr>) s"
    using assms(2) by (auto simp: shm_step_def Let_def)
  moreover have "waiting r s \<Longrightarrow> \<exists>mop ops. todo (procs s r) = Access mop # ops \<and> stage (procs s r) = At_wait"
    by (auto simp: waiting_def split: list.splits task_op.splits)
  ultimately show ?thesis using assms(1) e
    by (cases r; cases "waiting r s") (auto simp: work_def is_run_def well_staged_def)
qed

lemma shm_run_bounded:
  assumes "\<forall>r. well_staged (procs s r)" "shm_run ok es s = Some (tr, s')"
  shows "length (filter is_run es) \<le> work (procs s Parent) + work (procs s Child)"
  using assms
proof (induction es arbitrary: s tr)
  case (Cons e es)
  from Cons.prems(2) obtain t s1 tr1 where "shm_step e s = Some (t, s1)" "shm_run ok es s1 = Some (tr1, s')"
    by (auto split: if_splits option.splits simp: bind_eq_Some_conv)
  with work_step [OF Cons.prems(1), of e t s1] Cons.IH [of s1 tr1] show ?case by (auto split: if_splits)
qed simp

text \<open>Every run can be continued until neither process can go on.\<close>

lemma shm_run_maximal:
  assumes "\<forall>r. well_staged (procs s r)"
  shows "\<exists>es tr s'. shm_run ok es s = Some (tr, s') \<and> (\<forall>r. ok (Run r) s' \<longrightarrow> shm_step (Run r) s' = None)"
  using assms
proof (induction "work (procs s Parent) + work (procs s Child)" arbitrary: s rule: less_induct)
  case less
  show ?case
  proof (cases "\<forall>r. ok (Run r) s \<longrightarrow> shm_step (Run r) s = None")
    case True
    then have "shm_run ok [] s = Some ([], s) \<and> (\<forall>r. ok (Run r) s \<longrightarrow> shm_step (Run r) s = None)" by simp
    then show ?thesis by blast
  next
    case False
    then obtain r where "ok (Run r) s" "shm_step (Run r) s \<noteq> None" by blast
    then obtain t s1 where step: "ok (Run r) s" "shm_step (Run r) s = Some (t, s1)" by auto
    have w: "\<forall>r. well_staged (procs s1 r)"
      "work (procs s1 Parent) + work (procs s1 Child) < work (procs s Parent) + work (procs s Child)"
      using work_step [OF less.prems step(2)] by (simp_all add: is_run_def)
    then obtain es tr s' where rest: "shm_run ok es s1 = Some (tr, s')"
      "\<forall>r. ok (Run r) s' \<longrightarrow> shm_step (Run r) s' = None"
      using less.hyps [of s1] by blast
    then have "shm_run ok (Run r # es) s = Some (t @ tr, s')" using step by simp
    then show ?thesis using rest(2) by blast
  qed
qed

end
