(* ===== verification/Exchange.thy ===== *)
theory Exchange
  imports Handover "HOL-Library.Sublist"
begin

text \<open>
  The exchange as a whole, for any two lists of messages: when the parent goes on from its
  sleep only after the child has read everything, the accesses of a run are the beginning of
  one fixed sequence, and a run that cannot go on has completed it.
\<close>

subsection \<open>The whole exchange\<close>

text \<open>
  The messages in the order in which they are to be exchanged, with the side that writes
  them; what each side does for a message; and the accesses of a complete exchange.
\<close>

definition transfers :: "mem_op list \<Rightarrow> mem_op list \<Rightarrow> (role \<times> mem_op) list" where
  "transfers wp wc = map (Pair Parent) wp @ map (Pair Child) wc"

definition side_op :: "role \<Rightarrow> role \<times> mem_op \<Rightarrow> mem_op" where
  "side_op r x = (if fst x = r then snd x else get_of (snd x))"

definition transfer_trace :: "role \<times> mem_op \<Rightarrow> mem_access list" where
  "transfer_trace x = [(fst x, snd x, val_of (snd x)), (other (fst x), get_of (snd x), val_of (snd x))]"

definition exchange_trace :: "mem_op list \<Rightarrow> mem_op list \<Rightarrow> mem_access list" where
  "exchange_trace wp wc = concat (map transfer_trace (transfers wp wc))"

definition exchange_code :: "mem_op list \<Rightarrow> mem_op list \<Rightarrow> role \<Rightarrow> task_op list" where
  "exchange_code wp wc r = (case r of
     Parent \<Rightarrow> Announce # map Access wp @ Usleep # map (\<lambda>w. Access (get_of w)) wc @ shutdown
   | Child \<Rightarrow> Announce # map (\<lambda>w. Access (get_of w)) wp @ map Access wc @ shutdown)"

definition of_role :: "role \<Rightarrow> mem_access list \<Rightarrow> mem_op list" where
  "of_role r tr = map (\<lambda>a. fst (snd a)) (filter (\<lambda>a. fst a = r) tr)"

lemma of_role_append [simp]: "of_role r (tr @ t) = of_role r tr @ of_role r t"
  by (simp add: of_role_def)

lemma is_put_get_of [simp]: "is_put w \<Longrightarrow> \<not> is_put (get_of w)"
  by (auto simp: is_put_def get_of_def split: mem_op.splits)

lemma concat_pairs_take:
  assumes "\<And>x. length (f x) = 2"
  shows "length (concat (map f xs)) = 2 * length xs"
    "take (2 * k) (concat (map f xs)) = concat (map f (take k xs))"
    "k < length xs \<Longrightarrow> concat (map f xs) ! (2 * k) = f (xs ! k) ! 0"
    "k < length xs \<Longrightarrow> concat (map f xs) ! Suc (2 * k) = f (xs ! k) ! 1"
proof -
  show "length (concat (map f xs)) = 2 * length xs"
    by (induction xs) (auto simp: assms)
  show "take (2 * k) (concat (map f xs)) = concat (map f (take k xs))"
  proof (induction xs arbitrary: k)
    case (Cons x xs)
    then show ?case using assms by (cases k) auto
  qed simp
  show "concat (map f xs) ! (2 * k) = f (xs ! k) ! 0" if "k < length xs"
    using that
  proof (induction xs arbitrary: k)
    case (Cons x xs)
    then show ?case using assms by (cases k) (auto simp: nth_append)
  qed simp
  show "concat (map f xs) ! Suc (2 * k) = f (xs ! k) ! 1" if "k < length xs"
    using that
  proof (induction xs arbitrary: k)
    case (Cons x xs)
    then show ?case using assms by (cases k) (auto simp: nth_append)
  qed simp
qed

lemma length_transfer_trace: "length (transfer_trace x) = 2"
  by (simp add: transfer_trace_def)

lemma exchange_trace_nth:
  "length (exchange_trace wp wc) = 2 * length (transfers wp wc)"
  "take (2 * k) (exchange_trace wp wc) = concat (map transfer_trace (take k (transfers wp wc)))"
  "k < length (transfers wp wc) \<Longrightarrow> exchange_trace wp wc ! (2 * k) = transfer_trace (transfers wp wc ! k) ! 0"
  "k < length (transfers wp wc) \<Longrightarrow> exchange_trace wp wc ! Suc (2 * k) = transfer_trace (transfers wp wc ! k) ! 1"
  unfolding exchange_trace_def by (simp_all only: concat_pairs_take length_transfer_trace)

lemma of_role_transfers: "of_role r (concat (map transfer_trace xs)) = map (side_op r) xs"
  by (induction xs) (auto simp: of_role_def transfer_trace_def side_op_def)

lemma remaining_step:
  assumes "shm_step e s = Some (t, s')" "uninterrupted e s" "\<forall>r. well_staged (procs s r)"
  shows "of_role r t @ remaining (procs s' r) = remaining (procs s r) \<and>
    suffix (todo (procs s' r)) (todo (procs s r))"
  using assms(1, 2)
proof (cases rule: shm_step_cases)
  case (plain r' x ops p')
  then have "stage (procs s r') = At_wait" using assms(3) unfolding well_staged_def by (metis list.inject)
  moreover have "accesses (x # ops) = accesses ops" using plain(4) by (cases x) auto
  ultimately show ?thesis using plain by (auto simp: remaining_def of_role_def suffix_Cons)
next
  case (wait r' mop ops s1)
  then show ?thesis using take_sem_procs [of mop s s1] by (auto simp: remaining_def of_role_def)
qed (auto simp: remaining_def of_role_def suffix_Cons)

lemma before_marker:
  "u \<in> set ops \<Longrightarrow> A @ u # B = pre @ x # ops \<Longrightarrow> u \<notin> set B \<Longrightarrow> x \<in> set A"
proof (induction A arbitrary: pre)
  case Nil
  then show ?case by (cases pre) auto
next
  case (Cons a A)
  then show ?case by (cases pre) auto
qed

lemma marker_unique:
  "A @ u # B = pre @ u # ops \<Longrightarrow> u \<notin> set A \<Longrightarrow> u \<notin> set B \<Longrightarrow> ops = B"
proof (induction A arbitrary: pre)
  case Nil
  then show ?case by (cases pre) auto
next
  case (Cons a A)
  then show ?case by (cases pre) auto
qed

lemma accesses_append: "accesses (xs @ ys) = accesses xs @ accesses ys"
  by (induction xs rule: accesses.induct) auto

lemma accesses_map: "accesses (map (\<lambda>x. Access (f x)) xs) = map f xs"
  by (induction xs) auto

locale exchange =
  fixes wp wc :: "mem_op list"
  assumes puts: "list_all is_put (wp @ wc)"
    and nul_frees: "list_all nul_free (wp @ wc)"
begin

definition on_course :: "mem_access list \<Rightarrow> shm_sys \<Rightarrow> bool" where
  "on_course tr s \<longleftrightarrow>
     (\<forall>r. suffix (todo (procs s r)) (exchange_code wp wc r)) \<and>
     (\<forall>r. of_role r tr @ remaining (procs s r) = map (side_op r) (transfers wp wc)) \<and>
     (Usleep \<notin> set (todo (procs s Parent)) \<longrightarrow> list_all is_put (remaining (procs s Child))) \<and>
     tr = take (length tr) (exchange_trace wp wc)"

lemma transfers_nth:
  assumes "k < length (transfers wp wc)"
  shows "is_put (snd (transfers wp wc ! k))" "nul_free (snd (transfers wp wc ! k))"
    "fst (transfers wp wc ! k) = (if k < length wp then Parent else Child)"
proof -
  have "transfers wp wc ! k \<in> set (transfers wp wc)" using assms by simp
  then have "snd (transfers wp wc ! k) \<in> set (wp @ wc)" by (auto simp: transfers_def)
  then show "is_put (snd (transfers wp wc ! k))" "nul_free (snd (transfers wp wc ! k))"
    using puts nul_frees unfolding list_all_iff by blast+
  show "fst (transfers wp wc ! k) = (if k < length wp then Parent else Child)"
    using assms by (auto simp: transfers_def nth_append)
qed

lemma is_put_side_op:
  "k < length (transfers wp wc) \<Longrightarrow> is_put (side_op r (transfers wp wc ! k)) \<longleftrightarrow> fst (transfers wp wc ! k) = r"
  using transfers_nth(1) [of k] by (auto simp: side_op_def)

text \<open>How far each side has come after \<open>n\<close> accesses, and which operation is its next.\<close>

lemma course_counts:
  assumes "tr = take (length tr) (exchange_trace wp wc)"
  shows "length (of_role r tr) = length tr div 2 +
    (if odd (length tr) \<and> fst (transfers wp wc ! (length tr div 2)) = r then 1 else 0)"
proof (cases "even (length tr)")
  case True
  then obtain k where k: "length tr = 2 * k" by blast
  have "length tr \<le> 2 * length (transfers wp wc)"
    using arg_cong [OF assms, of length] by (simp add: exchange_trace_nth)
  then have "length (of_role r tr) = k"
    using arg_cong [OF assms, of "of_role r"] k by (simp add: exchange_trace_nth of_role_transfers)
  then show ?thesis using k by simp
next
  case False
  then obtain k where k: "length tr = Suc (2 * k)" by (auto elim: oddE)
  have "length tr \<le> 2 * length (transfers wp wc)"
    using arg_cong [OF assms, of length] by (simp add: exchange_trace_nth)
  then have lt: "k < length (transfers wp wc)" using k by simp
  then have "tr = concat (map transfer_trace (take k (transfers wp wc))) @ [exchange_trace wp wc ! (2 * k)]"
    using assms k by (simp add: take_Suc_conv_app_nth exchange_trace_nth)
  then have "of_role r tr = map (side_op r) (take k (transfers wp wc)) @ of_role r [exchange_trace wp wc ! (2 * k)]"
    by (simp add: of_role_transfers)
  then show ?thesis using k lt by (simp add: exchange_trace_nth transfer_trace_def of_role_def)
qed

lemma last_put:
  assumes "tr = take (length tr) (exchange_trace wp wc)" "odd (length tr)"
    and "length tr div 2 < length (transfers wp wc)"
  shows "fst (snd (last tr)) = snd (transfers wp wc ! (length tr div 2))"
proof -
  obtain k where k: "length tr = Suc (2 * k)" using assms(2) by (auto elim: oddE)
  then have "tr = take (2 * k) (exchange_trace wp wc) @ [exchange_trace wp wc ! (2 * k)]"
    using assms by (simp add: take_Suc_conv_app_nth exchange_trace_nth(1))
  then have "last tr = exchange_trace wp wc ! (2 * k)" by (metis last_snoc)
  then show ?thesis using k assms(3) by (simp add: exchange_trace_nth transfer_trace_def)
qed

lemma next_op:
  assumes "on_course tr s" "remaining (procs s r) = mop # rest"
  shows "length (of_role r tr) < length (transfers wp wc)"
    "mop = side_op r (transfers wp wc ! length (of_role r tr))"
proof -
  have eq: "of_role r tr @ mop # rest = map (side_op r) (transfers wp wc)"
    using assms by (auto simp: on_course_def dest: spec [of _ r])
  from arg_cong [OF this, of length] show len: "length (of_role r tr) < length (transfers wp wc)" by simp
  from arg_cong [OF eq, of "\<lambda>xs. xs ! length (of_role r tr)"] len
  show "mop = side_op r (transfers wp wc ! length (of_role r tr))" by simp
qed

text \<open>Past its sleep the parent only reads; before it, it only writes.\<close>

lemma parent_reads_after_sleep:
  assumes "on_course tr s" "todo (procs s Parent) = Access mop # ops" "\<not> is_put mop"
  shows "Usleep \<notin> set (todo (procs s Parent))"
proof
  assume "Usleep \<in> set (todo (procs s Parent))"
  then have "Usleep \<in> set ops" using assms(2) by simp
  moreover have "suffix (Access mop # ops) (exchange_code wp wc Parent)"
    using assms(1, 2) by (auto simp: on_course_def dest: spec [of _ Parent])
  then obtain pre where "(Announce # map Access wp) @ Usleep # map (\<lambda>w. Access (get_of w)) wc @ shutdown
      = pre @ Access mop # ops"
    by (auto simp: suffix_def exchange_code_def)
  ultimately have "Access mop \<in> set (Announce # map Access wp)"
    by (rule before_marker) (auto simp: shutdown_def)
  then have "mop \<in> set wp" by auto
  then show False using assms(3) puts by (auto simp: list_all_iff)
qed

text \<open>The next access of a run is the next one of the complete exchange.\<close>

lemma reader_is_next:
  assumes course: "on_course tr s" and odd: "odd (length tr)"
    and op: "todo (procs s r) = Access mop # ops" "stage (procs s r) = At_access" "\<not> is_put mop"
  shows "r = other (fst (transfers wp wc ! (length tr div 2)))"
proof (rule ccontr)
  let ?k = "length tr div 2"
  assume "r \<noteq> other (fst (transfers wp wc ! ?k))"
  then have r: "fst (transfers wp wc ! ?k) = r" by simp
  have tr: "tr = take (length tr) (exchange_trace wp wc)" using course by (simp add: on_course_def)
  have rem: "remaining (procs s r) = mop # accesses ops" using op by (simp add: remaining_def)
  have cnt: "length (of_role r tr) = Suc ?k" using course_counts [OF tr, of r] odd r by simp
  note nxt = next_op [OF course rem, unfolded cnt]
  then have "fst (transfers wp wc ! Suc ?k) \<noteq> r" using op(3) is_put_side_op [of "Suc ?k" r] by auto
  then have "r = Parent" and k: "?k < length wp"
    using r nxt(1) transfers_nth(3) [of ?k] transfers_nth(3) [of "Suc ?k"] by (auto split: if_splits)
  then have "list_all is_put (remaining (procs s Child))"
    using parent_reads_after_sleep [OF course _ op(3)] course op(1) by (auto simp: on_course_def)
  moreover have child: "length (of_role Child tr) = ?k"
    using course_counts [OF tr, of Child] r \<open>r = Parent\<close> by simp
  moreover have eq: "of_role Child tr @ remaining (procs s Child) = map (side_op Child) (transfers wp wc)"
    using course by (auto simp: on_course_def)
  have "remaining (procs s Child) \<noteq> []" using child nxt(1) arg_cong [OF eq, of length] by auto
  then have "map (side_op Child) (transfers wp wc) ! ?k \<in> set (remaining (procs s Child))"
    using child by (simp add: eq [symmetric] nth_append)
  ultimately have "is_put (side_op Child (transfers wp wc ! ?k))"
    using nxt(1) by (simp add: list_all_iff)
  then show False using is_put_side_op [of ?k Child] nxt(1) r \<open>r = Parent\<close> by simp
qed

lemma course_access:
  assumes course: "on_course tr s" and rights: "rights tr s" and stored: "stored tr s"
    and op: "todo (procs s r) = Access mop # ops" "stage (procs s r) = At_access"
    and v: "shm_access mop (seg s) = Some (v, m)"
  shows "length tr < length (exchange_trace wp wc)" "exchange_trace wp wc ! length tr = (r, mop, v)"
proof -
  let ?k = "length tr div 2"
  have tr: "tr = take (length tr) (exchange_trace wp wc)" using course by (simp add: on_course_def)
  have rem: "remaining (procs s r) = mop # accesses ops" using op by (simp add: remaining_def)
  note nxt = next_op [OF course rem]
  have parity: "is_put mop \<longleftrightarrow> even (length tr)" using rights_access [OF rights op] .
  have "length tr < length (exchange_trace wp wc) \<and> exchange_trace wp wc ! length tr = (r, mop, v)"
  proof (cases "is_put mop")
    case True
    then have n: "length tr = 2 * ?k" using parity by auto
    have cnt: "length (of_role r tr) = ?k" using course_counts [OF tr, of r] True parity by simp
    have "fst (transfers wp wc ! ?k) = r" using is_put_side_op [of ?k r] nxt cnt True by simp
    moreover have "v = val_of mop" using shm_access_put [OF True v] by simp
    ultimately show ?thesis
      using nxt cnt n exchange_trace_nth(1) [of wp wc] exchange_trace_nth(3) [of ?k wp wc]
      by (auto simp: transfer_trace_def side_op_def)
  next
    case False
    then have n: "length tr = Suc (2 * ?k)" using parity by (auto elim: oddE)
    have r: "r = other (fst (transfers wp wc ! ?k))"
      using reader_is_next [OF course _ op False] parity False by simp
    then have cnt: "length (of_role r tr) = ?k" using course_counts [OF tr, of r] by simp
    let ?w = "snd (transfers wp wc ! ?k)"
    have mop: "mop = get_of ?w" using nxt cnt r by (simp add: side_op_def)
    have k: "?k < length (transfers wp wc)" using nxt cnt by simp
    have last: "fst (snd (last tr)) = ?w" using last_put [OF tr _ k] parity False by simp
    have "delivers ?w mop v"
      using shm_access_get(2) [OF False v, of ?w] stored parity False last by (simp add: stored_def)
    then have "v = val_of ?w" using mop transfers_nth(1) [OF k]
      by (cases ?w) (auto simp: delivers_def get_of_def val_of_def is_put_def)
    then have "exchange_trace wp wc ! Suc (2 * ?k) = (r, mop, v)"
      using exchange_trace_nth(4) [OF k] mop r by (simp add: transfer_trace_def)
    moreover have "Suc (2 * ?k) < length (exchange_trace wp wc)" using k by (simp add: exchange_trace_nth)
    ultimately show ?thesis using n by metis
  qed
  then show "length tr < length (exchange_trace wp wc)" "exchange_trace wp wc ! length tr = (r, mop, v)"
    by simp_all
qed

definition roomy :: "u8 list \<Rightarrow> bool" where
  "roomy m \<longleftrightarrow> m \<noteq> [] \<and> (\<forall>t. PutStr t \<in> set (wp @ wc) \<longrightarrow> length t < length m)"

definition good :: "mem_access list \<Rightarrow> shm_sys \<Rightarrow> bool" where
  "good tr s \<longleftrightarrow> rights tr s \<and> stored tr s \<and> on_course tr s \<and> roomy (seg s)"

lemma usleep_passed:
  assumes "Usleep \<in> set (todo (procs s Parent))" "Usleep \<notin> set (todo (procs s' Parent))"
    "shm_step e s = Some (t, s')" "polite e s"
  shows "list_all is_put (remaining (procs s Child))"
proof -
  have ok: "uninterrupted e s" using assms(4) by (simp add: polite_def)
  show ?thesis using assms(3) ok
  proof (cases rule: shm_step_cases)
    case (plain r x ops p')
    then have "r = Parent" "x = Usleep" using assms(1, 2) by (auto split: if_splits)
    then show ?thesis using assms(4) plain by (simp add: polite_def)
  next
    case (wait r mop ops s1)
    then show ?thesis using assms(1, 2) take_sem_procs [of mop s s1] by (auto split: if_splits)
  qed (use assms(1, 2) in \<open>auto split: if_splits\<close>)
qed

lemma course_step:
  assumes "good tr s" "polite e s" "shm_step e s = Some (t, s')"
  shows "on_course (tr @ t) s'"
proof -
  have ok: "uninterrupted e s" using assms(2) by (simp add: polite_def)
  have course: "on_course tr s" and rights: "rights tr s" and stored: "stored tr s"
    using assms(1) by (simp_all add: good_def)
  have staged: "\<forall>r. well_staged (procs s r)" using rights by (simp add: rights_def)
  note rem = remaining_step [OF assms(3) ok staged]
  have "suffix (todo (procs s' r)) (exchange_code wp wc r)" for r
    using rem [of r] course by (auto simp: on_course_def intro: suffix_order.trans)
  moreover have "of_role r (tr @ t) @ remaining (procs s' r) = map (side_op r) (transfers wp wc)" for r
    using rem [of r] course by (simp add: on_course_def)
  moreover have "list_all is_put (remaining (procs s' Child))"
    if "Usleep \<notin> set (todo (procs s' Parent))"
  proof -
    have "list_all is_put (remaining (procs s Child))"
      using usleep_passed [OF _ that assms(3, 2)] course by (auto simp: on_course_def)
    moreover have "remaining (procs s Child) = of_role Child t @ remaining (procs s' Child)"
      using rem [of Child] by simp
    ultimately show ?thesis by simp
  qed
  moreover have "tr @ t = take (length (tr @ t)) (exchange_trace wp wc)"
    using assms(3) ok
  proof (cases rule: shm_step_cases)
    case (access r mop ops v m)
    note nxt = course_access [OF course rights stored access(3-5)]
    have "tr = take (length tr) (exchange_trace wp wc)" using course by (simp add: on_course_def)
    then show ?thesis using nxt access(1) by (simp add: take_Suc_conv_app_nth)
  qed (use course in \<open>simp_all add: on_course_def\<close>)
  ultimately show ?thesis unfolding on_course_def by blast
qed

lemma roomy_step:
  assumes "roomy (seg s)" "uninterrupted e s" "shm_step e s = Some (t, s')"
  shows "roomy (seg s')"
  using assms(3, 2)
proof (cases rule: shm_step_cases)
  case (wait r mop ops s1)
  then show ?thesis using assms(1) take_sem_procs [of mop s s1] by simp
next
  case (access r mop ops v m)
  have "length m = length (seg s)"
    using shm_access_put [of mop "seg s" v m] shm_access_get(1) [of mop "seg s" v m] access
    by (cases "is_put mop") auto
  then show ?thesis using assms(1) access by (auto simp: roomy_def)
qed (use assms(1) in simp_all)

lemma good_step: "good tr s \<Longrightarrow> polite e s \<Longrightarrow> shm_step e s = Some (t, s') \<Longrightarrow> good (tr @ t) s'"
  using course_step rights_step stored_step roomy_step by (auto simp: good_def polite_def)

text \<open>Where the two processes can stand still.\<close>

lemma after_usleep:
  assumes "on_course tr s" "todo (procs s r) = Usleep # ops"
  shows "r = Parent" "accesses ops = map get_of wc"
proof -
  have suf: "suffix (Usleep # ops) (exchange_code wp wc r)"
    using assms by (auto simp: on_course_def dest: spec [of _ r])
  then have "Usleep \<in> set (exchange_code wp wc r)" by (auto simp: suffix_def)
  then show r: "r = Parent" by (cases r) (auto simp: exchange_code_def shutdown_def)
  let ?B = "map (\<lambda>w. Access (get_of w)) wc @ shutdown"
  obtain pre where "(Announce # map Access wp) @ Usleep # ?B = pre @ Usleep # ops"
    using suf r by (auto simp: suffix_def exchange_code_def)
  then have "ops = ?B" by (rule marker_unique) (auto simp: shutdown_def)
  then show "accesses ops = map get_of wc" by (simp add: accesses_append accesses_map shutdown_def)
qed

lemma after_sigint:
  assumes "on_course tr s" "todo (procs s r) = AwaitSigint # ops"
  shows "accesses ops = []"
proof -
  define A where "A = (case r of
      Parent \<Rightarrow> Announce # map Access wp @ Usleep # map (\<lambda>w. Access (get_of w)) wc
    | Child \<Rightarrow> Announce # map (\<lambda>w. Access (get_of w)) wp @ map Access wc)"
  have A: "exchange_code wp wc r = A @ AwaitSigint # [SemUnlink Sem_read, SemUnlink Sem_write]"
    "AwaitSigint \<notin> set A"
    by (cases r; auto simp: A_def exchange_code_def shutdown_def)+
  obtain pre where "exchange_code wp wc r = pre @ AwaitSigint # ops"
    using assms by (auto simp: on_course_def suffix_def dest: spec [of _ r])
  then have "A @ AwaitSigint # [SemUnlink Sem_read, SemUnlink Sem_write] = pre @ AwaitSigint # ops"
    using A(1) by simp
  then have "ops = [SemUnlink Sem_read, SemUnlink Sem_write]"
    by (rule marker_unique [OF _ A(2)]) simp
  then show ?thesis by simp
qed

lemma access_succeeds:
  assumes good: "good tr s" and op: "todo (procs s r) = Access mop # ops" "stage (procs s r) = At_access"
  shows "shm_access mop (seg s) \<noteq> None"
proof (cases "is_put mop")
  case True
  have "mop = side_op r (transfers wp wc ! length (of_role r tr))" "length (of_role r tr) < length (transfers wp wc)"
    using next_op [of tr s r mop "accesses ops"] good op by (auto simp: good_def remaining_def)
  then have "mop \<in> set (wp @ wc)"
    using True is_put_side_op [of "length (of_role r tr)" r] nth_mem [of "length (of_role r tr)" "transfers wp wc"]
    by (auto simp: side_op_def transfers_def)
  then show ?thesis using good True
    by (cases mop rule: mem_op.exhaust) (auto simp: good_def roomy_def shm_access_def is_put_def)
next
  case False
  have course: "on_course tr s" and rights: "rights tr s" and stored: "stored tr s" and room: "seg s \<noteq> []"
    using good by (simp_all add: good_def roomy_def)
  have odd: "odd (length tr)" using rights_access [OF rights op] False by simp
  let ?k = "length tr div 2"
  let ?w = "snd (transfers wp wc ! ?k)"
  have r: "r = other (fst (transfers wp wc ! ?k))" using reader_is_next [OF course odd op False] .
  have tr: "tr = take (length tr) (exchange_trace wp wc)" using course by (simp add: on_course_def)
  have "fst (transfers wp wc ! ?k) \<noteq> r" using r by simp
  then have cnt: "length (of_role r tr) = ?k" using course_counts [OF tr, of r] by simp
  have mop: "mop = get_of ?w" and k: "?k < length (transfers wp wc)"
    using next_op [of tr s r mop "accesses ops"] course op cnt r by (auto simp: remaining_def side_op_def)
  have "holds ?w (seg s)" using stored odd last_put [OF tr odd k] by (simp add: stored_def)
  then have "mop = GetStr \<Longrightarrow> 0 \<in> set (seg s)" using mop
    by (cases ?w rule: mem_op.exhaust) (auto simp: holds_def get_of_def c_string_def)
  then show ?thesis using False room by (cases mop rule: mem_op.exhaust) (auto simp: shm_access_def is_put_def split: list.splits)
qed

lemma idle_cases:
  assumes good: "good tr s" and idle: "polite (Run r) s \<Longrightarrow> shm_step (Run r) s = None"
  shows "stage (procs s r) = At_wait"
    and "todo (procs s r) = [] \<or> (\<exists>ops. todo (procs s r) = AwaitSigint # ops \<and> \<not> terminateSignal (procs s r)) \<or>
      (\<exists>ops. todo (procs s r) = Usleep # ops \<and> \<not> list_all is_put (remaining (procs s Child))) \<or>
      (\<exists>mop ops. todo (procs s r) = Access mop # ops \<and> take_sem mop s = None)"
proof -
  have course: "on_course tr s" and staged: "well_staged (procs s r)"
    using good by (simp_all add: good_def rights_def)
  have pol: "polite (Run r) s" if "todo (procs s r) = x # ops" "x \<noteq> Usleep" for x ops
    using that by (auto simp: polite_def uninterrupted_def split: list.splits task_op.splits)
  have "stage (procs s r) = At_wait \<and> (todo (procs s r) = [] \<or>
      (\<exists>ops. todo (procs s r) = AwaitSigint # ops \<and> \<not> terminateSignal (procs s r)) \<or>
      (\<exists>ops. todo (procs s r) = Usleep # ops \<and> \<not> list_all is_put (remaining (procs s Child))) \<or>
      (\<exists>mop ops. todo (procs s r) = Access mop # ops \<and> take_sem mop s = None))"
  proof (cases "todo (procs s r)")
    case Nil
    then show ?thesis using staged by (simp add: well_staged_def)
  next
    case (Cons x ops)
    show ?thesis
    proof (cases x)
      case (Access mop)
      then have "body_step r mop ops (procs s r) s = None"
        using idle [OF pol [OF Cons]] Cons by (simp add: shm_step_def proc_step_def)
      moreover have "stage (procs s r) = At_access \<Longrightarrow> shm_access mop (seg s) \<noteq> None"
        using access_succeeds [OF good, of r mop ops] Cons Access by simp
      ultimately show ?thesis using Cons Access
        by (cases "stage (procs s r)") (auto simp: body_step_def split: option.splits)
    next
      case Usleep
      then have "r = Parent" using after_usleep(1) [OF course, of r ops] Cons by simp
      moreover have "shm_step (Run r) s \<noteq> None" using Cons Usleep by (simp add: shm_step_def proc_step_def)
      ultimately show ?thesis using idle Cons Usleep staged
        by (auto simp: polite_def uninterrupted_def well_staged_def)
    next
      case Announce
      then show ?thesis using idle [OF pol [OF Cons]] Cons by (simp add: shm_step_def proc_step_def Let_def)
    next
      case AwaitSigint
      then show ?thesis using idle [OF pol [OF Cons]] Cons staged
        by (auto simp: shm_step_def proc_step_def well_staged_def Let_def split: if_splits)
    next
      case (SemUnlink n)
      then show ?thesis using idle [OF pol [OF Cons]] Cons by (simp add: shm_step_def proc_step_def Let_def)
    qed
  qed
  then show "stage (procs s r) = At_wait"
    and "todo (procs s r) = [] \<or> (\<exists>ops. todo (procs s r) = AwaitSigint # ops \<and> \<not> terminateSignal (procs s r)) \<or>
      (\<exists>ops. todo (procs s r) = Usleep # ops \<and> \<not> list_all is_put (remaining (procs s Child))) \<or>
      (\<exists>mop ops. todo (procs s r) = Access mop # ops \<and> take_sem mop s = None)"
    by blast+
qed

text \<open>While the exchange is not complete, the side whose turn it is can go on.\<close>

text \<open>Once the child has put a message and the parent has not taken it, the child has only puts left.\<close>

lemma child_only_puts:
  assumes course: "on_course tr s" and less: "length tr < length (exchange_trace wp wc)"
    and odd: "odd (length tr)" and child: "fst (transfers wp wc ! (length tr div 2)) = Child"
  shows "list_all is_put (remaining (procs s Child))"
proof -
  let ?k = "length tr div 2"
  have tr: "tr = take (length tr) (exchange_trace wp wc)" using course by (simp add: on_course_def)
  have k: "?k < length (transfers wp wc)" using less by (simp add: exchange_trace_nth)
  have wpk: "length wp \<le> ?k" using child transfers_nth(3) [OF k] by (auto split: if_splits)
  have "length (of_role Child tr) = Suc ?k" using course_counts [OF tr, of Child] odd child by simp
  moreover have "of_role Child tr @ remaining (procs s Child) = map (side_op Child) (transfers wp wc)"
    using course by (simp add: on_course_def)
  ultimately have "remaining (procs s Child) = drop (Suc ?k) (map (side_op Child) (transfers wp wc))"
    by (metis append_eq_conv_conj)
  also have "\<dots> = drop (Suc ?k - length wp) wc" using wpk by (simp add: transfers_def side_op_def comp_def)
  finally have "set (remaining (procs s Child)) \<subseteq> set wc" by (simp add: set_drop_subset)
  then show ?thesis using puts by (auto simp: list_all_iff)
qed

lemma turn_can_run:
  assumes good: "good tr s" and less: "length tr < length (exchange_trace wp wc)"
    and waits: "\<forall>r. stage (procs s r) = At_wait"
    and r: "r = (if even (length tr) then fst (transfers wp wc ! (length tr div 2))
                 else other (fst (transfers wp wc ! (length tr div 2))))"
  shows "polite (Run r) s \<and> shm_step (Run r) s \<noteq> None"
proof -
  let ?k = "length tr div 2"
  have course: "on_course tr s" and rights: "rights tr s" using good by (simp_all add: good_def)
  have tr: "tr = take (length tr) (exchange_trace wp wc)" using course by (simp add: on_course_def)
  have k: "?k < length (transfers wp wc)" using less by (simp add: exchange_trace_nth)
  have cnt: "length (of_role r tr) = ?k" using course_counts [OF tr, of r] r by auto
  have eq: "of_role r' tr @ remaining (procs s r') = map (side_op r') (transfers wp wc)" for r'
    using course by (simp add: on_course_def)
  from arg_cong [OF eq [of r], of "drop ?k"] cnt k
  have rem: "remaining (procs s r) = side_op r (transfers wp wc ! ?k) # map (side_op r) (drop (Suc ?k) (transfers wp wc))"
    by (simp add: drop_map Cons_nth_drop_Suc [symmetric])
  have put: "is_put (side_op r (transfers wp wc ! ?k)) \<longleftrightarrow> even (length tr)"
    using is_put_side_op [OF k, of r] r by auto
  have sems: "if even (length tr) then shm_write s \<noteq> 0 else shm_read s \<noteq> 0"
    using rights waits by (auto simp: rights_def)
  show ?thesis
  proof (rule ccontr)
    assume "\<not> ?thesis"
    then have "polite (Run r) s \<Longrightarrow> shm_step (Run r) s = None" by blast
    from idle_cases(2) [OF good this] consider
        (over) "remaining (procs s r) = []"
      | (usleep) ops where "todo (procs s r) = Usleep # ops" "\<not> list_all is_put (remaining (procs s Child))"
      | (sem) mop ops where "todo (procs s r) = Access mop # ops" "take_sem mop s = None"
      using after_sigint [OF course, of r] waits by (fastforce simp: remaining_def)
    then show False
    proof cases
      case over
      then show False using rem by simp
    next
      case sem
      then have "mop = side_op r (transfers wp wc ! ?k)" using rem waits by (simp add: remaining_def)
      then show False using sem put sems by (auto simp: take_sem_def split: if_splits)
    next
      case usleep
      have Parent: "r = Parent" and acc: "accesses ops = map get_of wc"
        using after_usleep [OF course usleep(1)] by simp_all
      have "side_op r (transfers wp wc ! ?k) \<in> set (map get_of wc)"
        using rem waits acc usleep(1) by (simp add: remaining_def)
      then have "\<not> is_put (side_op r (transfers wp wc ! ?k))" using puts by (auto simp: list_all_iff)
      then have "odd (length tr)" "fst (transfers wp wc ! ?k) = Child"
        using put r Parent by (auto simp: other_def split: role.splits)
      then show False using child_only_puts [OF course less] usleep(2) by simp
    qed
  qed
qed

lemma standstill_complete:
  assumes good: "good tr s" and idle: "\<And>r. polite (Run r) s \<Longrightarrow> shm_step (Run r) s = None"
  shows "tr = exchange_trace wp wc"
    and "todo (procs s r) = [] \<or> (\<exists>ops. todo (procs s r) = AwaitSigint # ops \<and> \<not> terminateSignal (procs s r))"
proof -
  have course: "on_course tr s" using good by (simp add: good_def)
  have tr: "tr = take (length tr) (exchange_trace wp wc)" using course by (simp add: on_course_def)
  have waits: "\<forall>r. stage (procs s r) = At_wait" using idle_cases(1) [OF good idle] by blast
  show full: "tr = exchange_trace wp wc"
  proof (rule ccontr)
    assume "tr \<noteq> exchange_trace wp wc"
    then have "length tr < length (exchange_trace wp wc)" using tr by (metis not_le take_all)
    then obtain r' where "polite (Run r') s" "shm_step (Run r') s \<noteq> None"
      using turn_can_run [OF good _ waits] by blast
    then show False using idle by simp
  qed
  have rem: "remaining (procs s r') = []" for r'
  proof -
    have "of_role r' tr = map (side_op r') (transfers wp wc)"
      using full by (simp add: exchange_trace_def of_role_transfers)
    moreover have "of_role r' tr @ remaining (procs s r') = map (side_op r') (transfers wp wc)"
      using course by (simp add: on_course_def)
    ultimately show ?thesis by simp
  qed
  show "todo (procs s r) = [] \<or> (\<exists>ops. todo (procs s r) = AwaitSigint # ops \<and> \<not> terminateSignal (procs s r))"
    using idle_cases(2) [OF good idle, of r] waits rem [of r] rem [of Child] by (auto simp: remaining_def)
qed

end

end
