(* ===== verification/SharedMemProperties.thy ===== *)
theory SharedMemProperties
  imports Exchange
begin

text \<open>
  The guarantees of the shared memory program itself: the library of the exchange applied to
  its messages, and the two ways in which the program can fail.
\<close>

subsection \<open>The messages of the program\<close>

definition parent_puts :: "mem_op list" where
  "parent_puts = map PutCmd commands @ map PutStr txParent"

definition child_puts :: "mem_op list" where
  "child_puts = map PutCmd commands @ map PutStr txChild"

lemmas message_defs = parent_puts_def child_puts_def commands_def txParent_def txChild_def

interpretation prog: exchange parent_puts child_puts
  by unfold_locales (simp_all add: message_defs is_put_def nul_free_def nul_free_string_def)

lemma program_code:
  "exchange_code parent_puts child_puts Parent = parent_code"
  "exchange_code parent_puts child_puts Child = child_code"
  by (simp_all add: exchange_code_def parent_code_def child_code_def message_defs get_of_def
      numeral_eq_Suc)

lemma fork_sys_simps [simp]:
  "seg (fork_sys b m sr sw) = m" "shm_read (fork_sys b m sr sw) = sr" "shm_write (fork_sys b m sr sw) = sw"
  "procs (fork_sys b m sr sw) Parent = start_proc parent_code"
  "procs (fork_sys b m sr sw) Child = start_proc (if b then child_code else [])"
  by (simp_all add: fork_sys_def)

lemma start_proc_simps [simp]:
  "todo (start_proc ops) = ops" "stage (start_proc ops) = At_wait" "lines (start_proc ops) = []"
  by (simp_all add: start_proc_def)

lemma accesses_program:
  "accesses parent_code = map (side_op Parent) (transfers parent_puts child_puts)"
  "accesses child_code = map (side_op Child) (transfers parent_puts child_puts)"
  by (simp_all add: parent_code_def child_code_def message_defs transfers_def side_op_def get_of_def
      shutdown_def numeral_eq_Suc)

lemma start_rights: "rights [] (fork_sys b m 0 1)"
  by (simp add: rights_def well_staged_def all_roles)

lemma start_stored: "stored [] (fork_sys b m 0 1)"
  by (simp add: stored_def alternating_def delivered_def all_roles accesses_program transfers_def
      side_op_def message_defs nul_free_def nul_free_string_def get_of_def)

lemma start_logged: "logged [] (fork_sys b m 0 1)"
  by (simp add: logged_def io_lines_def all_roles)

lemma start_course: "prog.on_course [] (fork_sys True m 0 1)"
proof -
  have "Usleep \<in> set parent_code" by (simp add: parent_code_def)
  then show ?thesis
    by (simp add: prog.on_course_def all_roles program_code accesses_program remaining_def of_role_def)
qed

lemma start_good: "20 \<le> length m \<Longrightarrow> prog.good [] (fork_sys True m 0 1)"
proof -
  assume "20 \<le> length m"
  then have "prog.roomy m" unfolding prog.roomy_def by (auto simp: message_defs)
  then show ?thesis unfolding prog.good_def fork_sys_simps
    using start_rights start_stored start_course by blast
qed

text \<open>The invariants of the library over whole runs.\<close>

lemma uninterrupted_run:
  assumes "shm_run uninterrupted es (fork_sys b m 0 1) = Some (tr, s)"
  shows "rights tr s \<and> stored tr s \<and> logged tr s"
proof -
  let ?J = "\<lambda>tr s. rights tr s \<and> stored tr s \<and> logged tr s"
  have "?J (tr @ t) s'" if J: "?J tr s" and step: "uninterrupted e s" "shm_step e s = Some (t, s')" for tr s e t s'
  proof -
    have "\<forall>r. well_staged (procs s r)" using J by (simp add: rights_def)
    then show ?thesis using J step rights_step stored_step logged_step by blast
  qed
  moreover have "?J [] (fork_sys b m 0 1)" using start_rights start_stored start_logged by blast
  ultimately have "?J ([] @ tr) s" using assms by (rule shm_run_invariant)
  then show ?thesis by simp
qed

lemma polite_run_uninterrupted: "shm_run polite es s = Some r \<Longrightarrow> shm_run uninterrupted es s = Some r"
  by (induction es arbitrary: s r) (auto simp: polite_def bind_eq_Some_conv split: if_splits)

lemma polite_run:
  assumes "20 \<le> length m" "shm_run polite es (fork_sys True m 0 1) = Some (tr, s)"
  shows "prog.good tr s"
  using shm_run_invariant [where J = prog.good and ?tr0.0 = "[]", OF prog.good_step start_good [OF assms(1)] assms(2)]
  by simp

lemma program_work: "work (start_proc parent_code) + work (start_proc child_code) = 196"
  by (simp add: work_def parent_code_def child_code_def message_defs shutdown_def)

lemma program_trace_lines:
  "map access_line (filter (\<lambda>a. fst a = Child) (exchange_trace parent_puts child_puts)) =
     map (\<lambda>c. Reading Child (Num c)) commands @ map (\<lambda>t. Reading Child (Text t)) txParent @
     map (\<lambda>c. Writing Child (Num c)) commands @ map (\<lambda>t. Writing Parent (Text t)) txChild"
  "map access_line (filter (\<lambda>a. fst a = Parent) (exchange_trace parent_puts child_puts)) =
     map (\<lambda>c. Writing Parent (Num c)) commands @ map (\<lambda>t. Writing Parent (Text t)) txParent @
     map (\<lambda>c. Reading Parent (Num c)) commands @ map (\<lambda>t. Reading Parent (Text t)) txChild"
  by (simp_all add: exchange_trace_def transfer_trace_def transfers_def message_defs get_of_def val_of_def
      access_line_def log_line_def other_def)

text \<open>A run on the first bytes of a segment is a run on the whole segment.\<close>

lemma shm_access_extend:
  "shm_access mop m = Some (v, m') \<Longrightarrow> shm_access mop (m @ x) = Some (v, m' @ x)"
  by (cases mop; cases m) (auto simp: shm_access_def put_bytes_def c_string_def read_string_def
      split: if_splits list.splits)

lemma shm_step_extend:
  assumes "shm_step e s = Some (t, s')"
  shows "shm_step e (s\<lparr>seg := seg s @ x\<rparr>) = Some (t, s'\<lparr>seg := seg s' @ x\<rparr>)"
proof (cases e)
  case (Run r)
  show ?thesis
  proof (cases "\<exists>mop ops. todo (procs s r) = Access mop # ops \<and> stage (procs s r) = At_access")
    case True
    then obtain mop ops where op: "todo (procs s r) = Access mop # ops" "stage (procs s r) = At_access" by blast
    then obtain v m where "shm_access mop (seg s) = Some (v, m)"
      using assms Run by (auto simp: shm_step_def proc_step_def body_step_def split: option.splits)
    with shm_access_extend [OF this, of x] show ?thesis
      using assms Run op by (auto simp: shm_step_def proc_step_def body_step_def set_proc_def)
  next
    case False
    then show ?thesis using assms Run
      by (auto simp: shm_step_def proc_step_def body_step_def set_proc_def Let_def take_sem_def post_sem_def
          split: list.splits task_op.splits if_splits stage.splits)
  qed
next
  case (Sigint r i)
  then show ?thesis using assms
    by (auto simp: shm_step_def set_proc_def Let_def waiting_def take_sem_def
        split: list.splits task_op.splits if_splits)
qed

lemma shm_run_extend:
  "shm_run uninterrupted es s = Some (tr, s') \<Longrightarrow>
     shm_run uninterrupted es (s\<lparr>seg := seg s @ x\<rparr>) = Some (tr, s'\<lparr>seg := seg s' @ x\<rparr>)"
proof (induction es arbitrary: s tr)
  case (Cons e es)
  then obtain t s1 tr1 where "uninterrupted e s" "shm_step e s = Some (t, s1)"
    "shm_run uninterrupted es s1 = Some (tr1, s')" "tr = t @ tr1"
    by (auto split: if_splits simp: bind_eq_Some_conv)
  moreover have "uninterrupted e (s\<lparr>seg := seg s @ x\<rparr>) = uninterrupted e s"
    by (simp add: uninterrupted_def)
  ultimately show ?case using shm_step_extend [of e s t s1 x] Cons.IH [of s1 tr1] by simp
qed simp

lemma waiting_seg: "waiting r (s\<lparr>seg := m\<rparr>) = waiting r s"
  by (simp add: waiting_def take_sem_def split: list.splits task_op.splits)

lemma waiting_blocks: "waiting r s \<Longrightarrow> shm_step (Run r) s = None"
  by (auto simp: waiting_def shm_step_def proc_step_def body_step_def split: list.splits task_op.splits)

text \<open>The names of the semaphores exist until a process has unlinked them.\<close>

definition names_held :: "shm_sys \<Rightarrow> bool" where
  "names_held s \<longleftrightarrow> (\<forall>n \<in> linked s. \<forall>r. SemUnlink n \<in> set (todo (procs s r)))"

lemma names_held_step:
  assumes "names_held s" "uninterrupted e s" "shm_step e s = Some (t, s')"
  shows "names_held s' \<and> length (seg s') = length (seg s)"
proof -
  have held: "SemUnlink n \<in> set (todo (procs s r))" if "n \<in> linked s" for n r
    using assms(1) that by (simp add: names_held_def)
  show ?thesis using assms(3, 2)
  proof (cases rule: shm_step_cases)
    case (plain r x ops p')
    have "linked s' = (case x of SemUnlink n \<Rightarrow> linked s - {n} | _ \<Rightarrow> linked s)"
      using assms(3) plain by (cases x) (auto simp: shm_step_def proc_step_def Let_def split: if_splits)
    then show ?thesis using plain held held [of _ r] by (cases x) (auto simp: names_held_def)
  next
    case (wait r mop ops s1)
    then show ?thesis using held held [of _ r] take_sem_procs [of mop s s1] by (auto simp: names_held_def)
  next
    case (access r mop ops v m)
    have "length m = length (seg s)"
      using shm_access_put [of mop "seg s" v m] shm_access_get(1) [of mop "seg s" v m] access
      by (cases "is_put mop") auto
    then show ?thesis using held held [of _ r] access by (auto simp: names_held_def)
  next
    case (post r mop ops)
    then show ?thesis using held held [of _ r] by (auto simp: names_held_def)
  next
    case (fputs r mop ops)
    then show ?thesis using held held [of _ r] by (auto simp: names_held_def)
  qed (use held in \<open>auto simp: names_held_def\<close>)
qed

lemma names_held_run:
  assumes "shm_run uninterrupted es (fork_sys True m sr sw) = Some (tr, s)"
  shows "names_held s \<and> length (seg s) = length m"
proof -
  let ?J = "\<lambda>tr s. names_held s \<and> length (seg s) = length m"
  have "?J [] (fork_sys True m sr sw)"
    by (simp add: names_held_def fork_sys_def start_proc_def parent_code_def child_code_def shutdown_def all_roles)
  moreover have "?J (tr @ t) s'" if "?J tr s" "uninterrupted e s" "shm_step e s = Some (t, s')" for tr s e t s'
    using names_held_step [of s e t s'] that by simp
  ultimately have "?J ([] @ tr) s" using shm_run_invariant [where J = ?J] assms by blast
  then show ?thesis by simp
qed

subsection \<open>Guarantees\<close>

lemma case_Some_pairD: "(case x of None \<Rightarrow> False | Some (a, b) \<Rightarrow> P a b) \<Longrightarrow> \<exists>a b. x = Some (a, b) \<and> P a b"
  by (auto split: option.splits)

definition in_section :: "shm_proc \<Rightarrow> bool" where
  "in_section p \<longleftrightarrow> stage p = At_access \<or> stage p = At_post"

lemma in_section_tok: "well_staged p \<Longrightarrow> in_section p \<longleftrightarrow> w_tok p + r_tok p = 1"
  by (cases "stage p") (auto simp: in_section_def well_staged_def toks_Access w_tok_def r_tok_def
      split: list.splits task_op.splits)

text \<open>
  C14: In every run of the two processes in which no signal interrupts a semaphore wait, writes
  and reads of the segment alternate, each read returns what the write before it stored, and
  the processes are never both between their wait and their post.
\<close>

theorem shm_accesses_alternate:
  assumes "shm_run uninterrupted es (fork_sys forked m 0 1) = Some (tr, s)"
  shows "alternating tr \<and> delivered tr \<and> \<not> (in_section (procs s Parent) \<and> in_section (procs s Child))"
proof -
  have rights: "rights tr s" and "stored tr s" using uninterrupted_run [OF assms] by simp_all
  have "w_tok (procs s Parent) + r_tok (procs s Parent) + (w_tok (procs s Child) + r_tok (procs s Child)) \<le> 1"
    using rights by (auto simp: rights_def split: if_splits)
  moreover have "\<forall>r. well_staged (procs s r)" using rights by (simp add: rights_def)
  ultimately have "\<not> (in_section (procs s Parent) \<and> in_section (procs s Child))"
    by (auto simp: in_section_tok)
  then show ?thesis using \<open>stored tr s\<close> by (simp add: stored_def)
qed

theorem shm_accesses_alternate_witness:
  "\<exists>tr s. shm_run uninterrupted [Run Parent, Run Child, Run Parent, Run Parent, Run Parent, Run Child, Run Child]
     (fork_sys True (replicate 20 0) 0 1) = Some (tr, s) \<and> length tr = 2 \<and> alternating tr \<and> delivered tr"
proof -
  let ?run = "shm_run uninterrupted [Run Parent, Run Child, Run Parent, Run Parent, Run Parent, Run Child, Run Child]
     (fork_sys True (replicate 20 0) 0 1)"
  have "(case ?run of None \<Rightarrow> False | Some (tr, s) \<Rightarrow> length tr = 2)" by code_simp
  then obtain tr s where "?run = Some (tr, s)" "length tr = 2" by (auto split: option.splits)
  with shm_accesses_alternate [OF this(1)] show ?thesis by blast
qed

text \<open>
  C13: When the parent goes on from its sleep only after the child has read all it was sent, and
  no signal interrupts a semaphore wait, the accesses of every run are the beginning of the complete exchange, every run ends after at
  most 196 steps, and where no process can go on both have logged all twenty messages in
  order with the values that were sent and wait for SIGINT or have ended.
\<close>

theorem shm_exchange_completes:
  assumes "20 \<le> length m" "shm_run polite es (fork_sys True m 0 1) = Some (tr, s)"
  shows "prefix tr (exchange_trace parent_puts child_puts) \<and> length (filter is_run es) \<le> 196 \<and>
    ((\<forall>r. polite (Run r) s \<longrightarrow> shm_step (Run r) s = None) \<longrightarrow>
      io_lines (lines (procs s Child)) =
        map (\<lambda>c. Reading Child (Num c)) commands @ map (\<lambda>t. Reading Child (Text t)) txParent @
        map (\<lambda>c. Writing Child (Num c)) commands @ map (\<lambda>t. Writing Parent (Text t)) txChild \<and>
      io_lines (lines (procs s Parent)) =
        map (\<lambda>c. Writing Parent (Num c)) commands @ map (\<lambda>t. Writing Parent (Text t)) txParent @
        map (\<lambda>c. Reading Parent (Num c)) commands @ map (\<lambda>t. Reading Parent (Text t)) txChild \<and>
      (\<forall>r. todo (procs s r) = [] \<or>
        (\<exists>ops. todo (procs s r) = AwaitSigint # ops \<and> \<not> terminateSignal (procs s r))))"
    (is "?prefix \<and> ?bound \<and> (?idle \<longrightarrow> ?child \<and> ?parent \<and> ?stop)")
proof (intro conjI impI)
  have good: "prog.good tr s" using polite_run [OF assms] .
  then show ?prefix by (metis prog.good_def prog.on_course_def take_is_prefix)
  have "\<forall>r. well_staged (procs (fork_sys True m 0 1) r)" by (simp add: well_staged_def all_roles)
  from shm_run_bounded [OF this assms(2)] show ?bound using program_work by simp
  assume ?idle
  then have idle: "\<And>r. polite (Run r) s \<Longrightarrow> shm_step (Run r) s = None" by blast
  have full: "tr = exchange_trace parent_puts child_puts" using prog.standstill_complete(1) [OF good idle] .
  show ?stop using prog.standstill_complete(2) [OF good idle] by blast
  have "logged tr s" using uninterrupted_run [OF polite_run_uninterrupted [OF assms(2)]] by simp
  moreover have "unlogged r (procs s r) = []" for r using prog.idle_cases(1) [OF good idle] by simp
  ultimately have "io_lines (lines (procs s r)) = map access_line (filter (\<lambda>a. fst a = r) tr)" for r
    by (simp add: logged_def)
  then show ?child ?parent using program_trace_lines full by simp_all
qed

theorem shm_exchange_completes_witness:
  "\<exists>es tr s. shm_run polite es (fork_sys True (replicate 20 0) 0 1) = Some (tr, s) \<and>
     prefix tr (exchange_trace parent_puts child_puts) \<and> length (filter is_run es) \<le> 196 \<and>
     io_lines (lines (procs s Parent)) =
        map (\<lambda>c. Writing Parent (Num c)) commands @ map (\<lambda>t. Writing Parent (Text t)) txParent @
        map (\<lambda>c. Reading Parent (Num c)) commands @ map (\<lambda>t. Reading Parent (Text t)) txChild"
proof -
  have "\<forall>r. well_staged (procs (fork_sys True (replicate 20 0) 0 1) r)" by (simp add: well_staged_def all_roles)
  then obtain es tr s where run: "shm_run polite es (fork_sys True (replicate 20 0) 0 1) = Some (tr, s)"
    and idle: "\<forall>r. polite (Run r) s \<longrightarrow> shm_step (Run r) s = None"
    using shm_run_maximal [where ok = polite] by blast
  have "20 \<le> length (replicate 20 (0 :: u8))" by simp
  from shm_exchange_completes [OF this run] idle run show ?thesis by blast
qed

text \<open>
  C36: The sleep of one microsecond is all that keeps the parent from reading its own last
  message: there is a run, without any signal, in which the parent takes the last string it
  wrote for a command of the child (the byte 65) and both processes then wait for
  \<^verbatim>\<open>shm_read\<close> for ever, the child without the last string.
\<close>

theorem shm_parent_can_steal:
  assumes "20 \<le> n"
  shows "\<exists>es tr s. shm_run uninterrupted es (fork_sys True (replicate n 0) 0 1) = Some (tr, s) \<and>
    (\<forall>r. waiting r s \<and> shm_step (Run r) s = None \<and> \<not> terminateSignal (procs s r)) \<and>
    io_lines (lines (procs s Child)) = map (\<lambda>c. Reading Child (Num c)) commands @
      map (\<lambda>t. Reading Child (Text t)) [''Firmino'', ''Salah'', ''Mane'', ''Van Dijk''] \<and>
    last (lines (procs s Parent)) = Reading Parent (Num 65)"
proof -
  let ?es = "[Run Parent, Run Child] @ concat (replicate 9 (replicate 4 (Run Parent) @ replicate 4 (Run Child)))
    @ replicate 9 (Run Parent)"
  let ?run = "\<lambda>n. shm_run uninterrupted ?es (fork_sys True (replicate n 0) 0 1)"
  let ?bad = "\<lambda>s r. waiting r s \<and> \<not> terminateSignal (procs s r)"
  let ?lines = "\<lambda>s. io_lines (lines (procs s Child)) = map (\<lambda>c. Reading Child (Num c)) commands @
      map (\<lambda>t. Reading Child (Text t)) [''Firmino'', ''Salah'', ''Mane'', ''Van Dijk''] \<and>
    last (lines (procs s Parent)) = Reading Parent (Num 65)"
  have "(case ?run 20 of None \<Rightarrow> False | Some (tr, s) \<Rightarrow> ?bad s Parent \<and> ?bad s Child \<and> ?lines s)"
    by code_simp
  then obtain tr s where run: "?run 20 = Some (tr, s)" and s: "?bad s Parent" "?bad s Child" "?lines s"
    by (auto split: option.splits)
  define x :: "u8 list" where "x = replicate (n - 20) 0"
  have "(fork_sys True (replicate 20 0) 0 1)\<lparr>seg := seg (fork_sys True (replicate 20 0) 0 1) @ x\<rparr>
      = fork_sys True (replicate n 0) 0 1"
    using assms by (simp add: fork_sys_def x_def replicate_add [symmetric])
  with shm_run_extend [OF run, of x] have "?run n = Some (tr, s\<lparr>seg := seg s @ x\<rparr>)" by (simp only:)
  moreover have "waiting r (s\<lparr>seg := seg s @ x\<rparr>)" for r using s(1, 2) by (cases r) (simp_all add: waiting_seg)
  moreover from this have "shm_step (Run r) (s\<lparr>seg := seg s @ x\<rparr>) = None" for r by (rule waiting_blocks)
  moreover have "\<forall>r. \<not> terminateSignal (procs (s\<lparr>seg := seg s @ x\<rparr>) r)" using s(1, 2) by (simp add: all_roles)
  moreover have "?lines (s\<lparr>seg := seg s @ x\<rparr>)" using s(3) by simp
  ultimately show ?thesis by blast
qed

theorem shm_parent_can_steal_witness:
  "\<exists>es tr s. shm_run uninterrupted es (fork_sys True (replicate SHM_SEGMENT_SIZE 0) 0 1) = Some (tr, s) \<and>
     (\<forall>r. waiting r s) \<and> last (lines (procs s Parent)) = Reading Parent (Num 65)"
  using shm_parent_can_steal [of SHM_SEGMENT_SIZE] by (auto simp: SHM_SEGMENT_SIZE_def)

text \<open>
  A SIGINT that arrives while the child waits for its first message lets the child into
  its critical section without the semaphore: the parent can then be in its own at the
  same time.
\<close>

theorem shm_sigint_breaks_exclusion:
  "\<exists>es tr s. shm_run (\<lambda>e s. True) es (fork_sys True m 0 1) = Some (tr, s) \<and>
     in_section (procs s Parent) \<and> in_section (procs s Child)"
proof -
  obtain pops where P: "parent_code = Announce # Access (PutCmd 1) # pops"
    by (simp add: parent_code_def commands_def)
  obtain cops where C: "child_code = Announce # Access GetCmd # cops"
    by (simp add: child_code_def numeral_eq_Suc)
  let ?es = "[Run Child, Sigint Child True, Run Parent, Run Parent]"
  have "case shm_run (\<lambda>e s. True) ?es (fork_sys True m 0 1) of None \<Rightarrow> False
    | Some (tr, s) \<Rightarrow> in_section (procs s Parent) \<and> in_section (procs s Child)"
    by (simp add: fork_sys_def start_proc_def P C shm_step_def proc_step_def body_step_def set_proc_def
        waiting_def take_sem_def is_put_def in_section_def)
  then show ?thesis using case_Some_pairD by blast
qed

text \<open>
  When the system calls succeed, a first run starts with a segment of zeros and the
  semaphore values 0 and 1; after a run in which one process has ended, the next run starts
  with the same values and the segment as it was left; a run that is stopped before the names
  are unlinked hands its current semaphore values to the next.
\<close>

theorem shm_restart:
  assumes "create_fd E > 0" "reopen_fd E \<noteq> - 1" "ftruncate_ok E" "\<And>n. sem_open_ok E n" "mmap_ok E"
    and "shm_run uninterrupted es (fork_sys True m sr sw) = Some (tr, s)"
  shows "shared_mem_main E \<lparr>shm_obj = None, named_sems = Map.empty\<rparr>
      = Inr (Some (fork_sys (fork_ok E) (replicate SHM_SEGMENT_SIZE 0) 0 1)) \<and>
    (\<forall>r. todo (procs s r) = [] \<longrightarrow>
      shared_mem_main E (left_behind s) = Inr (Some (fork_sys (fork_ok E) (seg s) 0 1)) \<and>
      length (seg s) = length m) \<and>
    (linked s = {Sem_read, Sem_write} \<longrightarrow>
      shared_mem_main E (left_behind s) = Inr (Some (fork_sys (fork_ok E) (seg s) (shm_read s) (shm_write s))))"
proof -
  have "linked s = {} \<and> length (seg s) = length m" if "todo (procs s r) = []" for r
    using names_held_run [OF assms(6)] that unfolding names_held_def
    by (metis empty_iff equals0I list.set(1))
  then show ?thesis using assms(1-5)
    by (simp add: shared_mem_main_def get_shared_memory_def sem_open_def map_segment_def left_behind_def)
qed

definition demo_shm_env :: shm_env where
  "demo_shm_env = \<lparr>create_fd = 3, reopen_fd = 3, ftruncate_ok = True, sem_open_ok = (\<lambda>_. True),
     mmap_ok = True, fork_ok = True\<rparr>"

theorem shm_restart_witness:
  "shared_mem_main demo_shm_env \<lparr>shm_obj = None, named_sems = Map.empty\<rparr>
     = Inr (Some (fork_sys True (replicate SHM_SEGMENT_SIZE 0) 0 1)) \<and>
   shared_mem_main demo_shm_env (left_behind (fork_sys True [0] 0 1)) = Inr (Some (fork_sys True [0] 0 1))"
  using shm_restart [of demo_shm_env "[]" "[0]" 0 1 "[]" "fork_sys True [0] 0 1"]
  by (simp add: demo_shm_env_def) (simp add: fork_sys_def)

end
