(* ===== verification/Pipes.thy ===== *)
theory Pipes
  imports IpcMessages
begin

text \<open>
  The named pipe program (\<^verbatim>\<open>src/HW4/Ques2/pipes/pipestest.c\<close>): parent and child exchange
  commands and strings through two FIFOs. A FIFO is the list of bytes in it with a record of
  which ends are held; in_open one end waits for the other, reading waits for bytes, and
  writing to a FIFO nobody reads kills the writer. The messages stay far below the capacity
  of a FIFO and the size up to which writes are atomic, so a write neither waits nor mixes
  with others. Every interleaving of the calls of the two processes is a list of events; a
  call is one event together with the log line that follows it. Time stamps and the flushing
  of the log stream are not modelled.
\<close>

subsection \<open>Data\<close>

datatype fifo_name = Fifo1 | Fifo2

datatype pipe_msg = Cmd u8 | Str string
datatype msg_kind = Byte | String20

datatype pipe_op =
    Open_wr fifo_name
  | Open_rd fifo_name
  | PrintInfo
  | Send fifo_name pipe_msg
  | Recv fifo_name msg_kind
  | WaitSigint
  | Close_wr fifo_name
  | Close_rd fifo_name
  | ExitLine

datatype pipe_line = Info_line | Sending role payload | Received role payload | Exit_line role

record pipe_proc =
  ptodo :: "pipe_op list"
  in_open :: bool
  read_cmd :: u8
  rxString :: "u8 list"
  pterminate :: bool
  plines :: "pipe_line list"

record fifo =
  fbytes :: "u8 list"
  writer_held :: bool
  reader_held :: bool

record pipe_sys =
  fifos :: "fifo_name \<Rightarrow> fifo"
  pprocs :: "role \<Rightarrow> pipe_proc"

definition STR_MAX_LEN :: nat where
  "STR_MAX_LEN = 20"

text \<open>\<^verbatim>\<open>txParent[i]\<close> and \<^verbatim>\<open>txChild[i]\<close> are arrays of \<^verbatim>\<open>STR_MAX_LEN\<close> characters filled up with zeros.\<close>

definition char_array :: "string \<Rightarrow> u8 list" where
  "char_array t = c_string t @ replicate (STR_MAX_LEN - length (c_string t)) 0"

definition msg_bytes :: "pipe_msg \<Rightarrow> u8 list" where
  "msg_bytes m = (case m of Cmd c \<Rightarrow> [c] | Str t \<Rightarrow> char_array t)"

definition msg_value :: "pipe_msg \<Rightarrow> payload" where
  "msg_value m = (case m of Cmd c \<Rightarrow> Num c | Str t \<Rightarrow> Text t)"

definition kind_size :: "msg_kind \<Rightarrow> nat" where
  "kind_size k = (case k of Byte \<Rightarrow> 1 | String20 \<Rightarrow> STR_MAX_LEN)"

definition pipe_parent_code :: "pipe_op list" where
  "pipe_parent_code = [Open_wr Fifo1, Open_rd Fifo2, PrintInfo]
     @ map (\<lambda>c. Send Fifo1 (Cmd c)) commands @ map (\<lambda>t. Send Fifo1 (Str t)) txParent
     @ replicate 5 (Recv Fifo2 Byte) @ replicate 5 (Recv Fifo2 String20)
     @ [WaitSigint, Close_wr Fifo1, Close_rd Fifo2, ExitLine]"

definition pipe_child_code :: "pipe_op list" where
  "pipe_child_code = [Open_rd Fifo1, Open_wr Fifo2, PrintInfo]
     @ map (\<lambda>c. Send Fifo2 (Cmd c)) commands @ map (\<lambda>t. Send Fifo2 (Str t)) txChild
     @ replicate 5 (Recv Fifo1 Byte) @ replicate 5 (Recv Fifo1 String20)
     @ [WaitSigint, Close_rd Fifo1, Close_wr Fifo2, ExitLine]"

subsection \<open>Steps\<close>

definition set_fifo :: "fifo_name \<Rightarrow> fifo \<Rightarrow> pipe_sys \<Rightarrow> pipe_sys" where
  "set_fifo f q s = s\<lparr>fifos := (fifos s)(f := q)\<rparr>"

definition set_pproc :: "role \<Rightarrow> pipe_proc \<Rightarrow> pipe_sys \<Rightarrow> pipe_sys" where
  "set_pproc r p s = s\<lparr>pprocs := (pprocs s)(r := p)\<rparr>"

text \<open>
  \<^verbatim>\<open>open\<close> announces its end of the FIFO and then waits until the other end is held or
  announced.
\<close>

definition open_step :: "role \<Rightarrow> fifo_name \<Rightarrow> bool \<Rightarrow> pipe_op list \<Rightarrow> pipe_sys \<Rightarrow> pipe_sys option" where
  "open_step r f writing ops s =
     (let p = pprocs s r; q = fifos s f in
      if \<not> in_open p then
        Some (set_pproc r (p\<lparr>in_open := True\<rparr>)
          (set_fifo f (if writing then q\<lparr>writer_held := True\<rparr> else q\<lparr>reader_held := True\<rparr>) s))
      else if (if writing then reader_held q else writer_held q)
        then Some (set_pproc r (p\<lparr>in_open := False, ptodo := ops\<rparr>) s)
      else None)"

text \<open>
  \<^verbatim>\<open>read\<close> of up to \<open>n\<close> bytes: what is there, nothing at the end of a FIFO whose writer has
  closed it, \<^const>\<open>None\<close> while it waits. The result of the call is not checked, and the bytes
  not read keep their old values in the buffer.
\<close>

definition read_fifo :: "nat \<Rightarrow> fifo \<Rightarrow> (u8 list \<times> fifo) option" where
  "read_fifo n q =
     (if fbytes q = [] then if writer_held q then None else Some ([], q)
      else Some (take n (fbytes q), q\<lparr>fbytes := drop n (fbytes q)\<rparr>))"

definition store_read :: "role \<Rightarrow> msg_kind \<Rightarrow> u8 list \<Rightarrow> pipe_proc \<Rightarrow> pipe_proc" where
  "store_read r k bs p = (case k of
     Byte \<Rightarrow> (let c = (case bs of [] \<Rightarrow> read_cmd p | b # _ \<Rightarrow> b)
              in p\<lparr>read_cmd := c, plines := plines p @ [Received r (Num c)]\<rparr>)
   | String20 \<Rightarrow> (let b = bs @ drop (length bs) (rxString p)
              in p\<lparr>rxString := b, plines := plines p @ [Received r (Text (read_string b))]\<rparr>))"

definition pipe_step :: "role \<Rightarrow> pipe_sys \<Rightarrow> pipe_sys option" where
  "pipe_step r s = (let p = pprocs s r in
     case ptodo p of
       [] \<Rightarrow> None
     | Open_wr f # ops \<Rightarrow> open_step r f True ops s
     | Open_rd f # ops \<Rightarrow> open_step r f False ops s
     | PrintInfo # ops \<Rightarrow> Some (set_pproc r (p\<lparr>ptodo := ops, plines := plines p @ [Info_line]\<rparr>) s)
     | Send f m # ops \<Rightarrow>
         if reader_held (fifos s f)
         then Some (set_pproc r (p\<lparr>ptodo := ops, plines := plines p @ [Sending r (msg_value m)]\<rparr>)
                (set_fifo f ((fifos s f)\<lparr>fbytes := fbytes (fifos s f) @ msg_bytes m\<rparr>) s))
         else None
     | Recv f k # ops \<Rightarrow>
         (case read_fifo (kind_size k) (fifos s f) of
            None \<Rightarrow> None
          | Some (bs, q) \<Rightarrow> Some (set_pproc r ((store_read r k bs p)\<lparr>ptodo := ops\<rparr>) (set_fifo f q s)))
     | WaitSigint # ops \<Rightarrow> if pterminate p then Some (set_pproc r (p\<lparr>ptodo := ops\<rparr>) s) else None
     | Close_wr f # ops \<Rightarrow>
         Some (set_pproc r (p\<lparr>ptodo := ops\<rparr>) (set_fifo f ((fifos s f)\<lparr>writer_held := False\<rparr>) s))
     | Close_rd f # ops \<Rightarrow>
         Some (set_pproc r (p\<lparr>ptodo := ops\<rparr>) (set_fifo f ((fifos s f)\<lparr>reader_held := False\<rparr>) s))
     | ExitLine # ops \<Rightarrow> Some (set_pproc r (p\<lparr>ptodo := ops, plines := plines p @ [Exit_line r]\<rparr>) s))"

text \<open>
  SIGINT sets the flag; it may also end the \<^verbatim>\<open>read\<close> the process waits in, whose failure is
  not noticed. (A signal while a process waits in \<^verbatim>\<open>open\<close> is not modelled.)
\<close>

datatype pipe_event = Go role | Interrupt role bool

definition cut_short :: "role \<Rightarrow> pipe_sys \<Rightarrow> pipe_sys" where
  "cut_short r s = (let p = pprocs s r in
     case ptodo p of
       Recv f k # ops \<Rightarrow>
         if read_fifo (kind_size k) (fifos s f) = None
         then set_pproc r ((store_read r k [] p)\<lparr>ptodo := ops\<rparr>) s else s
     | _ \<Rightarrow> s)"

definition pipe_event_step :: "pipe_event \<Rightarrow> pipe_sys \<Rightarrow> pipe_sys option" where
  "pipe_event_step e s = (case e of
     Go r \<Rightarrow> pipe_step r s
   | Interrupt r cuts \<Rightarrow>
       let s' = set_pproc r ((pprocs s r)\<lparr>pterminate := True\<rparr>) s
       in Some (if cuts then cut_short r s' else s'))"

fun pipe_run :: "pipe_event list \<Rightarrow> pipe_sys \<Rightarrow> pipe_sys option" where
  "pipe_run [] s = Some s"
| "pipe_run (e # es) s = Option.bind (pipe_event_step e s) (pipe_run es)"

definition pipe_start :: "pipe_op list \<Rightarrow> u8 \<Rightarrow> u8 list \<Rightarrow> pipe_proc" where
  "pipe_start ops c rx = \<lparr>ptodo = ops, in_open = False, read_cmd = c, rxString = rx, pterminate = False,
     plines = []\<rparr>"

text \<open>
  The state after \<^verbatim>\<open>fork\<close>: no end is open; \<^verbatim>\<open>read_cmd\<close> and \<^verbatim>\<open>rxString\<close> are not initialised and
  hold any \<open>c\<close> and \<open>rx\<close>.
\<close>

definition pipe_fork :: "bool \<Rightarrow> u8 \<Rightarrow> u8 list \<Rightarrow> pipe_sys" where
  "pipe_fork forked c rx =
     \<lparr>fifos = (\<lambda>f. \<lparr>fbytes = [], writer_held = False, reader_held = False\<rparr>),
      pprocs = (\<lambda>r. case r of Parent \<Rightarrow> pipe_start pipe_parent_code c rx
                   | Child \<Rightarrow> pipe_start (if forked then pipe_child_code else []) c rx)\<rparr>"

end
