(* ===== verification/PipeExchange.thy ===== *)
theory PipeExchange
  imports Pipes "HOL-Library.Sublist"
begin

text \<open>
  The exchange through two FIFOs, for any messages of the two sides: the order in which the
  ends are opened, what is in the FIFOs, and that a process that cannot go on has done its
  part.
\<close>

subsection \<open>Parts of a program\<close>

definition kind_of :: "pipe_msg \<Rightarrow> msg_kind" where
  "kind_of m = (case m of Cmd c \<Rightarrow> Byte | Str t \<Rightarrow> String20)"

definition msg_ok :: "pipe_msg \<Rightarrow> bool" where
  "msg_ok m = (case m of Cmd c \<Rightarrow> True | Str t \<Rightarrow> nul_free_string t \<and> length t < STR_MAX_LEN)"

definition out_fifo :: "role \<Rightarrow> fifo_name" where
  "out_fifo r = (case r of Parent \<Rightarrow> Fifo1 | Child \<Rightarrow> Fifo2)"

definition in_fifo :: "role \<Rightarrow> fifo_name" where
  "in_fifo r = out_fifo (other r)"

fun sends :: "pipe_op list \<Rightarrow> pipe_msg list" where
  "sends [] = []"
| "sends (Send f m # ops) = m # sends ops"
| "sends (_ # ops) = sends ops"

fun recvs :: "pipe_op list \<Rightarrow> msg_kind list" where
  "recvs [] = []"
| "recvs (Recv f k # ops) = k # recvs ops"
| "recvs (_ # ops) = recvs ops"

fun opens_left :: "pipe_op list \<Rightarrow> nat" where
  "opens_left [] = 0"
| "opens_left (Open_wr f # ops) = Suc (opens_left ops)"
| "opens_left (Open_rd f # ops) = Suc (opens_left ops)"
| "opens_left (_ # ops) = opens_left ops"

definition received :: "pipe_line list \<Rightarrow> payload list" where
  "received ls = concat (map (\<lambda>l. case l of Received r v \<Rightarrow> [v] | _ \<Rightarrow> []) ls)"

lemma received_simps [simp]:
  "received [] = []" "received (ls @ ls') = received ls @ received ls'"
  "received [Info_line] = []" "received [Sending r v] = []" "received [Exit_line r] = []"
  "received [Received r v] = [v]"
  by (simp_all add: received_def)

text \<open>The statements of both programs come in the same order of kinds.\<close>

definition rank :: "pipe_op \<Rightarrow> nat" where
  "rank x = (case x of Open_wr f \<Rightarrow> 0 | Open_rd f \<Rightarrow> 0 | PrintInfo \<Rightarrow> 1 | Send f m \<Rightarrow> 2 | Recv f k \<Rightarrow> 3
     | WaitSigint \<Rightarrow> 4 | Close_wr f \<Rightarrow> 5 | Close_rd f \<Rightarrow> 5 | ExitLine \<Rightarrow> 6)"

lemma rank_simps [simp]:
  "rank (Open_wr f) = 0" "rank (Open_rd f) = 0" "rank PrintInfo = 1" "rank (Send f m) = 2"
  "rank (Recv f k) = 3" "rank WaitSigint = 4" "rank (Close_wr f) = 5" "rank (Close_rd f) = 5" "rank ExitLine = 6"
  by (simp_all add: rank_def)

lemma later_in_suffix:
  assumes "sorted (map rank code)" "suffix ops code" "y \<in> set ops" "x \<in> set code" "rank y < rank x"
  shows "x \<in> set ops"
  using assms by (fastforce simp: suffix_def sorted_append)

lemma parts_append:
  "sends (xs @ ys) = sends xs @ sends ys" "recvs (xs @ ys) = recvs xs @ recvs ys"
  "opens_left (xs @ ys) = opens_left xs + opens_left ys"
  by (induction xs rule: sends.induct, auto)+

lemma sends_in: "sends ops \<noteq> [] \<Longrightarrow> \<exists>f m. Send f m \<in> set ops"
  by (induction ops rule: sends.induct) auto

lemma recvs_in: "recvs ops \<noteq> [] \<Longrightarrow> \<exists>f k. Recv f k \<in> set ops"
  by (induction ops rule: recvs.induct) auto

lemma parts_empty:
  "(\<And>x. x \<in> set ops \<Longrightarrow> rank x \<noteq> 2) \<Longrightarrow> sends ops = []"
  "(\<And>x. x \<in> set ops \<Longrightarrow> rank x \<noteq> 3) \<Longrightarrow> recvs ops = []"
  "(\<And>x. x \<in> set ops \<Longrightarrow> rank x \<noteq> 0) \<Longrightarrow> opens_left ops = 0"
  by (induction ops rule: sends.induct; fastforce)+

text \<open>A statement still to come keeps everything of a later kind to come.\<close>

lemma parts_suffix:
  assumes "sorted (map rank code)" "suffix ops code" "y \<in> set ops"
  shows "rank y < 2 \<Longrightarrow> sends ops = sends code" "rank y < 3 \<Longrightarrow> recvs ops = recvs code"
    "hd ops = y \<Longrightarrow> 0 < rank y \<Longrightarrow> opens_left ops = 0"
proof -
  obtain pre where pre: "code = pre @ ops" using assms(2) by (auto simp: suffix_def)
  have le: "rank x \<le> rank y" if "x \<in> set pre" for x
    using assms(1, 3) pre that by (auto simp: sorted_append)
  show "rank y < 2 \<Longrightarrow> sends ops = sends code"
    using parts_empty(1) [of pre] le by (fastforce simp: pre parts_append)
  show "rank y < 3 \<Longrightarrow> recvs ops = recvs code"
    using parts_empty(2) [of pre] le by (fastforce simp: pre parts_append)
  assume hd: "hd ops = y" "0 < rank y"
  have "rank y \<le> rank x" if "x \<in> set ops" for x
    using assms(1, 3) hd(1) that by (cases ops) (auto simp: pre sorted_append)
  then show "opens_left ops = 0" using hd(2) by (intro parts_empty(3)) force
qed

lemma head_rank:
  assumes "sorted (map rank code)" "suffix (x # ops) code"
  shows "2 < rank x \<Longrightarrow> sends (x # ops) = []" "3 < rank x \<Longrightarrow> recvs (x # ops) = []"
    "0 < opens_left (x # ops) \<Longrightarrow> rank x = 0"
proof -
  have le: "rank x \<le> rank y" if "y \<in> set (x # ops)" for y
    using assms that by (auto simp: suffix_def sorted_append)
  show "2 < rank x \<Longrightarrow> sends (x # ops) = []" using le by (intro parts_empty(1)) force
  show "3 < rank x \<Longrightarrow> recvs (x # ops) = []" using le by (intro parts_empty(2)) force
  show "rank x = 0" if "0 < opens_left (x # ops)"
  proof (rule ccontr)
    assume "rank x \<noteq> 0"
    then have "opens_left (x # ops) = 0" using le by (intro parts_empty(3)) force
    then show False using that by simp
  qed
qed

subsection \<open>Steps\<close>

lemma set_sys_simps [simp]:
  "fifos (set_pproc r p s) = fifos s" "pprocs (set_pproc r p s) = (pprocs s)(r := p)"
  "fifos (set_fifo f q s) = (fifos s)(f := q)" "pprocs (set_fifo f q s) = pprocs s"
  by (simp_all add: set_pproc_def set_fifo_def)

definition hold :: "bool \<Rightarrow> bool \<Rightarrow> fifo \<Rightarrow> fifo" where
  "hold writing b q = (if writing then q\<lparr>writer_held := b\<rparr> else q\<lparr>reader_held := b\<rparr>)"

definition held :: "bool \<Rightarrow> fifo \<Rightarrow> bool" where
  "held writing q = (if writing then writer_held q else reader_held q)"

definition open_op :: "bool \<Rightarrow> fifo_name \<Rightarrow> pipe_op" where
  "open_op writing f = (if writing then Open_wr f else Open_rd f)"

definition close_op :: "bool \<Rightarrow> fifo_name \<Rightarrow> pipe_op" where
  "close_op writing f = (if writing then Close_wr f else Close_rd f)"

lemma hold_simps [simp]: "fbytes (hold w b q) = fbytes q" "held w' (hold w b q) = (if w = w' then b else held w' q)"
  "held w (q\<lparr>fbytes := bs\<rparr>) = held w q"
  by (auto simp: hold_def held_def)

lemma open_close_simps [simp]: "rank (open_op w f) = 0" "rank (close_op w f) = 5"
  "opens_left (open_op w f # ops) = Suc (opens_left ops)" "sends (open_op w f # ops) = sends ops"
  "recvs (open_op w f # ops) = recvs ops" "opens_left (close_op w f # ops) = opens_left ops"
  "sends (close_op w f # ops) = sends ops" "recvs (close_op w f # ops) = recvs ops"
  "open_op w f = open_op w' f' \<longleftrightarrow> w = w' \<and> f = f'" "close_op w f = close_op w' f' \<longleftrightarrow> w = w' \<and> f = f'"
  by (auto simp: open_op_def close_op_def)

lemma pipe_step_cases:
  assumes "pipe_step r s = Some s'"
  obtains
    (announce) w f ops where "ptodo (pprocs s r) = open_op w f # ops" "\<not> in_open (pprocs s r)"
      "s' = set_pproc r ((pprocs s r)\<lparr>in_open := True\<rparr>) (set_fifo f (hold w True (fifos s f)) s)"
  | (opened) w f ops where "ptodo (pprocs s r) = open_op w f # ops" "in_open (pprocs s r)"
      "held (\<not> w) (fifos s f)" "s' = set_pproc r ((pprocs s r)\<lparr>in_open := False, ptodo := ops\<rparr>) s"
  | (send) f m ops where "ptodo (pprocs s r) = Send f m # ops"
      "s' = set_pproc r ((pprocs s r)\<lparr>ptodo := ops, plines := plines (pprocs s r) @ [Sending r (msg_value m)]\<rparr>)
              (set_fifo f ((fifos s f)\<lparr>fbytes := fbytes (fifos s f) @ msg_bytes m\<rparr>) s)"
  | (recv) f k ops bs q where "ptodo (pprocs s r) = Recv f k # ops"
      "read_fifo (kind_size k) (fifos s f) = Some (bs, q)"
      "s' = set_pproc r ((store_read r k bs (pprocs s r))\<lparr>ptodo := ops\<rparr>) (set_fifo f q s)"
  | (close) w f ops where "ptodo (pprocs s r) = close_op w f # ops"
      "s' = set_pproc r ((pprocs s r)\<lparr>ptodo := ops\<rparr>) (set_fifo f (hold w False (fifos s f)) s)"
  | (plain) x ops ls where "ptodo (pprocs s r) = x # ops" "x \<in> {PrintInfo, WaitSigint, ExitLine}"
      "s' = set_pproc r ((pprocs s r)\<lparr>ptodo := ops, plines := plines (pprocs s r) @ ls\<rparr>) s" "received ls = []"
proof -
  let ?p = "pprocs s r"
  obtain x ops where todo: "ptodo ?p = x # ops"
    using assms by (auto simp: pipe_step_def Let_def split: list.splits)
  have openD: thesis if "x = open_op w f" "open_step r f w ops s = Some s'" for w f
    using that announce [of w f ops] opened [of w f ops] todo
    by (cases "in_open ?p"; cases w) (auto simp: open_step_def hold_def held_def Let_def split: if_splits)
  show thesis
  proof (cases x)
    case (Open_wr f)
    then show thesis using openD [of True f] assms todo by (simp add: pipe_step_def open_op_def)
  next
    case (Open_rd f)
    then show thesis using openD [of False f] assms todo by (simp add: pipe_step_def open_op_def)
  next
    case (Send f m)
    then show thesis using send [of f m ops] assms todo by (auto simp: pipe_step_def Let_def split: if_splits)
  next
    case (Recv f k)
    then show thesis using recv [of f k ops] assms todo by (auto simp: pipe_step_def Let_def split: option.splits)
  next
    case (Close_wr f)
    then show thesis using close [of True f ops] assms todo
      by (auto simp: pipe_step_def Let_def close_op_def hold_def)
  next
    case (Close_rd f)
    then show thesis using close [of False f ops] assms todo
      by (auto simp: pipe_step_def Let_def close_op_def hold_def)
  next
    case PrintInfo
    then show thesis using plain [of x ops "[Info_line]"] assms todo by (auto simp: pipe_step_def Let_def)
  next
    case WaitSigint
    then show thesis using plain [of x ops "[]"] assms todo by (auto simp: pipe_step_def Let_def split: if_splits)
  next
    case ExitLine
    then show thesis using plain [of x ops "[Exit_line r]"] assms todo by (auto simp: pipe_step_def Let_def)
  qed
qed

subsection \<open>The exchange\<close>

definition user :: "bool \<Rightarrow> fifo_name \<Rightarrow> role" where
  "user w f = (if w \<longleftrightarrow> f = Fifo1 then Parent else Child)"

definition idx :: "fifo_name \<Rightarrow> nat" where
  "idx f = (case f of Fifo1 \<Rightarrow> 1 | Fifo2 \<Rightarrow> 2)"

definition pipe_code :: "(role \<Rightarrow> pipe_msg list) \<Rightarrow> role \<Rightarrow> pipe_op list" where
  "pipe_code msgs r =
     [open_op (r = Parent) Fifo1, open_op (r = Child) Fifo2, PrintInfo]
     @ map (Send (out_fifo r)) (msgs r) @ map (\<lambda>m. Recv (in_fifo r) (kind_of m)) (msgs (other r))
     @ [WaitSigint, close_op (r = Parent) Fifo1, close_op (r = Child) Fifo2, ExitLine]"

definition entered :: "pipe_proc \<Rightarrow> nat" where
  "entered p = 2 - opens_left (ptodo p)"

definition announced :: "pipe_proc \<Rightarrow> nat" where
  "announced p = 2 - opens_left (ptodo p) + (if in_open p then 1 else 0)"

lemma user_simps [simp]: "user (r = Parent) Fifo1 = r" "user (r = Child) Fifo2 = r" "user (\<not> w) f = other (user w f)"
  by (cases r; auto simp: user_def other_def)+

lemma user_idx: "user w f = user w' f' \<Longrightarrow> idx f = idx f' \<Longrightarrow> w = w' \<and> f = f'"
  by (cases f; cases f') (auto simp: user_def idx_def split: if_splits)

lemma idx_pos: "0 < idx f"
  by (cases f) (simp_all add: idx_def)

lemma user_out [simp]: "user True (out_fifo r) = r" "user False (in_fifo r) = r"
  by (cases r; simp add: user_def out_fifo_def in_fifo_def other_def)+

lemma length_msg_bytes: "msg_ok m \<Longrightarrow> length (msg_bytes m) = kind_size (kind_of m)"
  by (cases m) (auto simp: msg_ok_def msg_bytes_def kind_size_def kind_of_def char_array_def c_string_def)

lemma msg_bytes_nonempty: "msg_bytes m \<noteq> []"
  by (cases m) (auto simp: msg_bytes_def char_array_def c_string_def)

lemma read_whole_message:
  assumes "msg_ok m" "fbytes q = msg_bytes m @ rest"
  shows "read_fifo (kind_size (kind_of m)) q = Some (msg_bytes m, q\<lparr>fbytes := rest\<rparr>)"
  using assms length_msg_bytes [OF assms(1)] msg_bytes_nonempty [of m] by (simp add: read_fifo_def)

lemma received_store:
  assumes "msg_ok m"
  shows "received (plines (store_read r (kind_of m) (msg_bytes m) p)) = received (plines p) @ [msg_value m]"
  using assms
  by (cases m) (simp_all add: store_read_def kind_of_def msg_bytes_def msg_value_def char_array_def msg_ok_def
      read_string_c_string)

lemma sends_map [simp]: "sends (map (Send f) ms) = ms" "sends (map (\<lambda>m. Recv f (k m)) ms) = []"
  by (induction ms) auto

lemma recvs_map [simp]: "recvs (map (Send f) ms) = []" "recvs (map (\<lambda>m. Recv f (k m)) ms) = map k ms"
  by (induction ms) auto

lemma opens_left_map [simp]: "opens_left (map (Send f) ms) = 0" "opens_left (map (\<lambda>m. Recv f (k m)) ms) = 0"
  by (induction ms) auto

lemma pipe_code_parts:
  "sends (pipe_code msgs r) = msgs r" "recvs (pipe_code msgs r) = map kind_of (msgs (other r))"
  "opens_left (pipe_code msgs r) = 2" "sorted (map rank (pipe_code msgs r))"
  by (auto simp: pipe_code_def parts_append sorted_append comp_def map_replicate_const)

lemma close_in_code: "close_op w f \<in> set (pipe_code msgs (user w f))"
  by (cases f) (auto simp: pipe_code_def user_def)

lemma in_code:
  "Send f m \<in> set (pipe_code msgs r) \<Longrightarrow> f = out_fifo r"
  "Recv f k \<in> set (pipe_code msgs r) \<Longrightarrow> f = in_fifo r"
  by (auto simp: pipe_code_def open_op_def close_op_def split: if_splits)

lemma open_head:
  assumes "suffix (open_op w f # ops) (pipe_code msgs r)"
  shows "user w f = r \<and> opens_left ops = 2 - idx f"
proof -
  define rest where "rest = PrintInfo # map (Send (out_fifo r)) (msgs r)
    @ map (\<lambda>m. Recv (in_fifo r) (kind_of m)) (msgs (other r))
    @ [WaitSigint, close_op (r = Parent) Fifo1, close_op (r = Child) Fifo2, ExitLine]"
  have code: "pipe_code msgs r = open_op (r = Parent) Fifo1 # open_op (r = Child) Fifo2 # rest"
    by (simp add: pipe_code_def rest_def)
  have "open_op w f \<notin> set rest" by (auto simp: rest_def open_op_def close_op_def)
  moreover have "opens_left rest = 0" by (simp add: rest_def parts_append)
  moreover have "suffix (open_op w f # ops) (open_op (r = Parent) Fifo1 # open_op (r = Child) Fifo2 # rest)"
    using assms unfolding code .
  then have "open_op w f # ops = open_op (r = Parent) Fifo1 # open_op (r = Child) Fifo2 # rest \<or>
      open_op w f # ops = open_op (r = Child) Fifo2 # rest \<or> suffix (open_op w f # ops) rest"
    by (simp add: suffix_Cons)
  ultimately show ?thesis using set_mono_suffix [of "open_op w f # ops" rest]
    by (elim disjE; cases r rule: role.exhaust) (auto simp: idx_def user_def)
qed

lemma close_head:
  assumes "suffix (close_op w f # ops) (pipe_code msgs r)"
  shows "user w f = r \<and> close_op w f \<notin> set ops"
proof -
  define front where "front = [open_op (r = Parent) Fifo1, open_op (r = Child) Fifo2, PrintInfo]
    @ map (Send (out_fifo r)) (msgs r) @ map (\<lambda>m. Recv (in_fifo r) (kind_of m)) (msgs (other r)) @ [WaitSigint]"
  define finish where "finish = [close_op (r = Parent) Fifo1, close_op (r = Child) Fifo2, ExitLine]"
  have "pipe_code msgs r = front @ finish" by (simp add: pipe_code_def front_def finish_def)
  moreover have "close_op w f \<notin> set front" by (auto simp: front_def open_op_def close_op_def)
  ultimately have "suffix (close_op w f # ops) finish"
    using assms by (auto simp: suffix_append Cons_eq_append_conv dest: set_mono_suffix)
  moreover have "ExitLine \<noteq> close_op w f" "close_op w f \<noteq> ExitLine" by (simp_all add: close_op_def)
  ultimately show ?thesis by (cases r) (auto simp: finish_def suffix_Cons user_def)
qed

locale fifo_exchange =
  fixes msgs :: "role \<Rightarrow> pipe_msg list"
  assumes msgs_ok: "list_all msg_ok (msgs r)"
    and msgs_nonempty: "msgs r \<noteq> []"
begin

definition laid_out :: "pipe_sys \<Rightarrow> bool" where
  "laid_out s \<longleftrightarrow> (\<forall>r. suffix (ptodo (pprocs s r)) (pipe_code msgs r) \<and>
     (in_open (pprocs s r) \<longrightarrow> (\<exists>w f ops. ptodo (pprocs s r) = open_op w f # ops)))"

definition doors :: "pipe_sys \<Rightarrow> bool" where
  "doors s \<longleftrightarrow> (\<forall>r. entered (pprocs s r) \<le> announced (pprocs s (other r))) \<and>
     (\<forall>w f. held w (fifos s f) \<longleftrightarrow> idx f \<le> announced (pprocs s (user w f)) \<and>
        close_op w f \<in> set (ptodo (pprocs s (user w f))))"

definition channel :: "role \<Rightarrow> pipe_sys \<Rightarrow> bool" where
  "channel r s \<longleftrightarrow> (\<exists>got ps.
     msgs r = got @ ps @ sends (ptodo (pprocs s r)) \<and>
     fbytes (fifos s (out_fifo r)) = concat (map msg_bytes ps) \<and>
     recvs (ptodo (pprocs s (other r))) = map kind_of (ps @ sends (ptodo (pprocs s r))) \<and>
     received (plines (pprocs s (other r))) = map msg_value got)"

lemma suffix_tl: "suffix (x # ops) code \<Longrightarrow> suffix ops code"
  by (metis suffix_ConsI suffix_order.trans suffix_order.refl)

lemma store_read_simps [simp]:
  "ptodo (store_read r k bs p) = ptodo p" "in_open (store_read r k bs p) = in_open p"
  by (auto simp: store_read_def Let_def split: msg_kind.splits)

lemma laid_out_step:
  assumes inv: "laid_out s" and step: "pipe_step r s = Some s'"
  shows "laid_out s'"
proof -
  have suf: "suffix (ptodo (pprocs s r')) (pipe_code msgs r')" for r' using inv by (simp add: laid_out_def)
  have opn: "in_open (pprocs s r') \<Longrightarrow> \<exists>w f ops. ptodo (pprocs s r') = open_op w f # ops" for r'
    using inv by (simp add: laid_out_def)
  have notopen: "\<not> in_open (pprocs s r)" if "ptodo (pprocs s r) = x # ops" "rank x \<noteq> 0" for x ops
    using opn [of r] that by auto
  from step show ?thesis
  proof (cases rule: pipe_step_cases)
    case (announce w f ops)
    then show ?thesis using suf [of r] suf opn by (auto simp: laid_out_def)
  next
    case (opened w f ops)
    then show ?thesis using suf [of r] suf opn by (auto simp: laid_out_def intro: suffix_tl)
  next
    case (send f m ops)
    then show ?thesis using suf [of r] suf opn notopen [of "Send f m" ops] by (auto simp: laid_out_def intro: suffix_tl)
  next
    case (recv f k ops bs q)
    then show ?thesis using suf [of r] suf opn notopen [of "Recv f k" ops] by (auto simp: laid_out_def intro: suffix_tl)
  next
    case (close w f ops)
    then show ?thesis using suf [of r] suf opn notopen [of "close_op w f" ops] by (auto simp: laid_out_def intro: suffix_tl)
  next
    case (plain x ops ls)
    then show ?thesis using suf [of r] suf opn notopen [of x ops] by (auto simp: laid_out_def intro: suffix_tl)
  qed
qed

text \<open>A step that moves only within the exchange leaves the doors as they are.\<close>

lemma doors_same:
  assumes "doors s" "\<And>w f. held w (fifos s' f) = held w (fifos s f)"
    and "\<And>r. opens_left (ptodo (pprocs s' r)) = opens_left (ptodo (pprocs s r))"
    and "\<And>r. in_open (pprocs s' r) = in_open (pprocs s r)"
    and "\<And>w f r. close_op w f \<in> set (ptodo (pprocs s' r)) \<longleftrightarrow> close_op w f \<in> set (ptodo (pprocs s r))"
  shows "doors s'"
  using assms by (simp add: doors_def entered_def announced_def)

lemma laid_outD: "laid_out s \<Longrightarrow> suffix (ptodo (pprocs s r)) (pipe_code msgs r)"
  by (simp add: laid_out_def)

lemma doorsD:
  assumes "doors s"
  shows "entered (pprocs s r) \<le> announced (pprocs s (other r))"
    and "held w (fifos s f) \<longleftrightarrow> idx f \<le> announced (pprocs s (user w f)) \<and>
      close_op w f \<in> set (ptodo (pprocs s (user w f)))"
  using assms by (simp_all add: doors_def)

lemma doors_announce:
  assumes inv: "laid_out s" "doors s"
    and head: "ptodo (pprocs s r) = open_op w f # ops" "\<not> in_open (pprocs s r)"
    and s': "s' = set_pproc r ((pprocs s r)\<lparr>in_open := True\<rparr>) (set_fifo f (hold w True (fifos s f)) s)"
  shows "doors s'"
proof -
  have u: "user w f = r" "opens_left ops = 2 - idx f"
    using open_head [of w f ops msgs r] laid_outD [OF inv(1), of r] head(1) by simp_all
  have mem: "close_op w f \<in> set (ptodo (pprocs s r))"
    using later_in_suffix [OF pipe_code_parts(4) laid_outD [OF inv(1)], of "open_op w f" r "close_op w f"]
      close_in_code [of w f msgs] head(1) u(1) by simp
  have a: "announced (pprocs s r) = idx f - 1" "announced (pprocs s' r) = idx f"
    using head s' u(2) by (cases f; simp add: announced_def idx_def)+
  show ?thesis unfolding doors_def
  proof (intro conjI allI)
    show "entered (pprocs s' r') \<le> announced (pprocs s' (other r'))" for r'
      using doorsD(1) [OF inv(2), of r'] head s'
      by (cases "other r' = r"; cases "r' = r") (auto simp: entered_def announced_def)
    show "held w' (fifos s' f') \<longleftrightarrow> idx f' \<le> announced (pprocs s' (user w' f')) \<and>
        close_op w' f' \<in> set (ptodo (pprocs s' (user w' f')))" for w' f'
    proof (cases "user w' f' = r")
      case True
      have "idx f' \<le> idx f - 1 \<longleftrightarrow> idx f' \<le> idx f \<and> f' \<noteq> f" using idx_pos [of f]
        by (cases f; cases f') (auto simp: idx_def)
      moreover have "f' = f \<Longrightarrow> w' = w" using user_idx [of w' f' w f] True u(1) by simp
      ultimately show ?thesis using doorsD(2) [OF inv(2), of w' f'] True a mem s' by auto
    next
      case False
      then have "w' = w \<and> f' = f \<Longrightarrow> False" using u(1) by auto
      then show ?thesis using doorsD(2) [OF inv(2), of w' f'] False s' by auto
    qed
  qed
qed

lemma doors_opened:
  assumes inv: "laid_out s" "doors s"
    and head: "ptodo (pprocs s r) = open_op w f # ops" "in_open (pprocs s r)" "held (\<not> w) (fifos s f)"
    and s': "s' = set_pproc r ((pprocs s r)\<lparr>in_open := False, ptodo := ops\<rparr>) s"
  shows "doors s'"
proof -
  have u: "user w f = r" "opens_left ops = 2 - idx f"
    using open_head [of w f ops msgs r] laid_outD [OF inv(1), of r] head(1) by simp_all
  have other: "idx f \<le> announced (pprocs s (other r))" using doorsD(2) [OF inv(2), of "\<not> w" f] head(3) u(1) by simp
  have own: "announced (pprocs s' r) = announced (pprocs s r)" "entered (pprocs s' r) = idx f"
    using head s' u(2) by (cases f; simp add: announced_def entered_def idx_def)+
  have closes: "close_op w' f' \<in> set (ptodo (pprocs s' r)) \<longleftrightarrow> close_op w' f' \<in> set (ptodo (pprocs s r))" for w' f'
    using head s' by (auto simp: open_op_def close_op_def)
  have rest: "pprocs s' r' = pprocs s r'" if "r' \<noteq> r" for r' using s' that by simp
  show ?thesis unfolding doors_def
  proof (intro conjI allI)
    show "entered (pprocs s' r') \<le> announced (pprocs s' (other r'))" for r'
    proof (cases "r' = r")
      case True
      then show ?thesis using other own rest [of "other r"] by simp
    next
      case False
      then have o: "other r' = r" by simp
      show ?thesis using doorsD(1) [OF inv(2), of r'] own rest [OF False] unfolding o by simp
    qed
    show "held w' (fifos s' f') \<longleftrightarrow> idx f' \<le> announced (pprocs s' (user w' f')) \<and>
        close_op w' f' \<in> set (ptodo (pprocs s' (user w' f')))" for w' f'
      using doorsD(2) [OF inv(2), of w' f'] own closes rest [of "user w' f'"] s' by (cases "user w' f' = r") auto
  qed
qed

lemma doors_close:
  assumes inv: "laid_out s" "doors s" and head: "ptodo (pprocs s r) = close_op w f # ops"
    and s': "s' = set_pproc r ((pprocs s r)\<lparr>ptodo := ops\<rparr>) (set_fifo f (hold w False (fifos s f)) s)"
  shows "doors s'"
proof -
  have u: "user w f = r" "close_op w f \<notin> set ops"
    using close_head [of w f ops msgs r] laid_outD [OF inv(1), of r] head by simp_all
  have "held w' (fifos s' f') \<longleftrightarrow> idx f' \<le> announced (pprocs s' (user w' f')) \<and>
        close_op w' f' \<in> set (ptodo (pprocs s' (user w' f')))" for w' f'
    using doorsD(2) [OF inv(2), of w' f'] head s' u by (auto simp: announced_def)
  moreover have "entered (pprocs s' x) = entered (pprocs s x)" "announced (pprocs s' x) = announced (pprocs s x)" for x
    using head s' by (simp_all add: entered_def announced_def)
  ultimately show ?thesis using doorsD(1) [OF inv(2)] by (simp add: doors_def)
qed

lemma doors_step:
  assumes inv: "laid_out s" "doors s" and step: "pipe_step r s = Some s'"
  shows "doors s'"
  using step
proof (cases rule: pipe_step_cases)
  case (announce w f ops)
  then show ?thesis by (rule doors_announce [OF inv])
next
  case (opened w f ops)
  then show ?thesis by (rule doors_opened [OF inv])
next
  case (send f m ops)
  show ?thesis by (rule doors_same [OF inv(2)]) (use send in \<open>auto simp: close_op_def\<close>)
next
  case (recv f k ops bs q)
  show ?thesis
    by (rule doors_same [OF inv(2)])
      (use recv in \<open>auto simp: close_op_def read_fifo_def held_def split: if_splits\<close>)
next
  case (close w f ops)
  then show ?thesis by (rule doors_close [OF inv])
next
  case (plain x ops ls)
  show ?thesis by (rule doors_same [OF inv(2)]) (use plain in \<open>auto simp: close_op_def\<close>)
qed

text \<open>What the channel from one side to the other still holds.\<close>

lemma channelI:
  assumes "other r = x" "msgs r = got @ ps @ sends (ptodo (pprocs s r))"
    "fbytes (fifos s (out_fifo r)) = concat (map msg_bytes ps)"
    "recvs (ptodo (pprocs s x)) = map kind_of (ps @ sends (ptodo (pprocs s r)))"
    "received (plines (pprocs s x)) = map msg_value got"
  shows "channel r s"
  unfolding channel_def using assms(2-5) unfolding assms(1) [symmetric] by blast

lemma channelE:
  assumes "channel r s"
  obtains got ps where "msgs r = got @ ps @ sends (ptodo (pprocs s r))"
    "fbytes (fifos s (out_fifo r)) = concat (map msg_bytes ps)"
    "recvs (ptodo (pprocs s (other r))) = map kind_of (ps @ sends (ptodo (pprocs s r)))"
    "received (plines (pprocs s (other r))) = map msg_value got"
  using assms unfolding channel_def by blast

lemma reading_finds_bytes:
  assumes "laid_out s" "doors s" "other r = x" "ptodo (pprocs s x) = Recv f k # ops"
    and "sends (ptodo (pprocs s r)) \<noteq> []"
  shows "held True (fifos s (out_fifo r))"
proof -
  have suf: "suffix (ptodo (pprocs s y)) (pipe_code msgs y)" for y using assms(1) by (simp add: laid_out_def)
  have "opens_left (ptodo (pprocs s x)) = 0"
    using parts_suffix(3) [OF pipe_code_parts(4) suf [of x], of "Recv f k"] assms(4) by simp
  then have "2 \<le> announced (pprocs s r)"
    using assms(2, 3) unfolding doors_def by (metis diff_zero entered_def other_simps(4))
  moreover obtain f' m where "Send f' m \<in> set (ptodo (pprocs s r))"
    using sends_in [OF assms(5)] by blast
  then have "close_op True (out_fifo r) \<in> set (ptodo (pprocs s r))"
    using later_in_suffix [OF pipe_code_parts(4) suf, of "Send f' m" r "close_op True (out_fifo r)"]
      close_in_code [of True "out_fifo r" msgs] by simp
  moreover have "idx (out_fifo r) \<le> 2" by (cases r) (simp_all add: out_fifo_def idx_def)
  ultimately show ?thesis using assms(2) by (simp add: doors_def)
qed

lemma fifo_ends: "in_fifo (other r) = out_fifo r" "out_fifo (other r) \<noteq> out_fifo r" "in_fifo r \<noteq> out_fifo r"
  by (auto simp: in_fifo_def out_fifo_def other_def split: role.splits)

lemma channel_same:
  assumes "channel r s" "fbytes (fifos s' (out_fifo r)) = fbytes (fifos s (out_fifo r))"
    and "\<And>y. sends (ptodo (pprocs s' y)) = sends (ptodo (pprocs s y))"
    and "\<And>y. recvs (ptodo (pprocs s' y)) = recvs (ptodo (pprocs s y))"
    and "\<And>y. received (plines (pprocs s' y)) = received (plines (pprocs s y))"
  shows "channel r s'"
  using assms by (simp add: channel_def)

text \<open>The first message in the FIFO is the one the reader waits for, and it is read whole.\<close>

lemma channel_recv:
  assumes inv: "laid_out s" "channel r s" "doors s" and x: "other r = x" "x \<noteq> r"
    and head: "ptodo (pprocs s x) = Recv (out_fifo r) k # ops"
    and bs: "read_fifo (kind_size k) (fifos s (out_fifo r)) = Some (bs, q)"
    and s': "s' = set_pproc x ((store_read x k bs (pprocs s x))\<lparr>ptodo := ops\<rparr>) (set_fifo (out_fifo r) q s)"
  shows "channel r s'"
proof -
  obtain got ps where ch: "msgs r = got @ ps @ sends (ptodo (pprocs s r))"
    "fbytes (fifos s (out_fifo r)) = concat (map msg_bytes ps)"
    "recvs (ptodo (pprocs s x)) = map kind_of (ps @ sends (ptodo (pprocs s r)))"
    "received (plines (pprocs s x)) = map msg_value got"
    using inv(2) unfolding channel_def x by blast
  have k: "k # recvs ops = map kind_of (ps @ sends (ptodo (pprocs s r)))" using ch(3) head by simp
  have "ps \<noteq> []"
  proof
    assume "ps = []"
    then have "sends (ptodo (pprocs s r)) \<noteq> []" "fbytes (fifos s (out_fifo r)) = []" using k ch(2) by auto
    then show False using reading_finds_bytes [OF inv(1, 3) x(1) head] bs by (simp add: read_fifo_def held_def)
  qed
  then obtain p ps' where ps: "ps = p # ps'" by (cases ps) auto
  have kp: "k = kind_of p" and p: "p \<in> set (msgs r)" using k ps ch(1) by auto
  have ok: "msg_ok p" using msgs_ok [of r] p by (simp add: list_all_iff)
  have q: "bs = msg_bytes p" "fbytes q = concat (map msg_bytes ps')"
    using bs ch(2) ps kp read_whole_message [OF ok, of "fifos s (out_fifo r)" "concat (map msg_bytes ps')"] by auto
  have "received (plines (store_read x k bs (pprocs s x))) = map msg_value (got @ [p])"
    using ch(4) kp q received_store [OF ok] by simp
  then show ?thesis using ch s' x(2) ps q k
    by (intro channelI [OF x(1), of "got @ [p]" ps']) auto
qed

lemma channel_step:
  assumes inv: "laid_out s" "channel r s" "doors s" and step: "pipe_step r' s = Some s'"
  shows "channel r s'"
proof -
  define x where "x = other r"
  have x: "other r = x" "x \<noteq> r" by (simp_all only: x_def other_simps not_False_eq_True)
  note ends = fifo_ends [of r, unfolded x(1)]
  obtain got ps where ch: "msgs r = got @ ps @ sends (ptodo (pprocs s r))"
    "fbytes (fifos s (out_fifo r)) = concat (map msg_bytes ps)"
    "recvs (ptodo (pprocs s x)) = map kind_of (ps @ sends (ptodo (pprocs s r)))"
    "received (plines (pprocs s x)) = map msg_value got"
    using inv(2) unfolding channel_def x by blast
  have code: "y \<in> set (pipe_code msgs r')" if "ptodo (pprocs s r') = y # ops" for y ops
    using laid_outD [OF inv(1), of r'] that set_mono_suffix by fastforce
  have role: "r' = x \<or> r' = r" using x by (metis other_simps(4))
  from step show ?thesis
  proof (cases rule: pipe_step_cases)
    case (send f m ops)
    then have f: "f = out_fifo r'" using code [of "Send f m" ops] in_code(1) by blast
    have "r' = r \<Longrightarrow> channel r s'"
      using ch send f x(2) by (intro channelI [OF x(1), of got "ps @ [m]"]) auto
    moreover have "r' = x \<Longrightarrow> channel r s'"
      using ch send f x(2) ends by (intro channelI [OF x(1), of got ps]) auto
    ultimately show ?thesis using role by blast
  next
    case (recv f k ops bs q)
    then have f: "f = in_fifo r'" using code [of "Recv f k" ops] in_code(2) by blast
    have "r' = r \<Longrightarrow> channel r s'"
      using ch recv f x(2) ends by (intro channelI [OF x(1), of got ps]) auto
    moreover have "r' = x \<Longrightarrow> channel r s'" using channel_recv [OF inv x] recv f ends by simp
    ultimately show ?thesis using role by blast
  qed (rule channel_same [OF inv(2)]; auto)+
qed

definition pipes_ok :: "pipe_sys \<Rightarrow> bool" where
  "pipes_ok s \<longleftrightarrow> laid_out s \<and> doors s \<and> (\<forall>r. channel r s)"

lemma pipes_ok_step: "pipes_ok s \<Longrightarrow> pipe_step r s = Some s' \<Longrightarrow> pipes_ok s'"
  unfolding pipes_ok_def using laid_out_step doors_step channel_step by blast

lemma sending_finds_reader:
  assumes "pipes_ok s" "ptodo (pprocs s r) = Send f m # ops"
  shows "reader_held (fifos s f)"
proof -
  define x where "x = other r"
  have suf: "suffix (ptodo (pprocs s y)) (pipe_code msgs y)" for y
    using assms(1) by (simp add: pipes_ok_def laid_out_def)
  have "Send f m \<in> set (pipe_code msgs r)" using suf [of r] assms(2) set_mono_suffix by fastforce
  then have f: "f = in_fifo x" using in_code(1) by (fastforce simp: in_fifo_def x_def other_def split: role.splits)
  have "opens_left (ptodo (pprocs s r)) = 0"
    using parts_suffix(3) [OF pipe_code_parts(4) suf [of r], of "Send f m"] assms(2) by simp
  then have "2 \<le> announced (pprocs s x)"
    using assms(1) unfolding pipes_ok_def doors_def x_def by (metis diff_zero entered_def)
  moreover have "channel r s" using assms(1) by (simp add: pipes_ok_def)
  then have "recvs (ptodo (pprocs s x)) \<noteq> []" using assms(2) by (elim channelE) (simp add: x_def)
  then obtain f' k where "Recv f' k \<in> set (ptodo (pprocs s x))" using recvs_in by blast
  then have "close_op False f \<in> set (ptodo (pprocs s x))"
    using later_in_suffix [OF pipe_code_parts(4) suf, of "Recv f' k" x "close_op False f"]
      close_in_code [of False f msgs] f by simp
  moreover have "idx f \<le> 2" by (cases f) (simp_all add: idx_def)
  ultimately have "held False (fifos s f)" using assms(1) f by (simp add: pipes_ok_def doors_def)
  then show ?thesis by (simp add: held_def)
qed

lemma stuck_cases:
  assumes "pipes_ok s" "pipe_step r s = None"
  obtains (over) "ptodo (pprocs s r) = []"
  | (waits) ops where "ptodo (pprocs s r) = WaitSigint # ops" "\<not> pterminate (pprocs s r)"
  | (opens) w f ops where "ptodo (pprocs s r) = open_op w f # ops" "in_open (pprocs s r)" "\<not> held (\<not> w) (fifos s f)"
  | (reads) f k ops where "ptodo (pprocs s r) = Recv f k # ops" "fbytes (fifos s f) = []"
proof (cases "ptodo (pprocs s r)")
  case Nil
  then show ?thesis using over by simp
next
  case (Cons x ops)
  have openD: thesis if "x = open_op w f" "open_step r f w ops s = None" for w f
    using that opens [of w f ops] Cons
    by (cases w) (auto simp: open_step_def held_def Let_def split: if_splits)
  show ?thesis
  proof (cases x)
    case (Open_wr f)
    then show thesis using openD [of True f] assms(2) Cons by (simp add: pipe_step_def open_op_def)
  next
    case (Open_rd f)
    then show thesis using openD [of False f] assms(2) Cons by (simp add: pipe_step_def open_op_def)
  next
    case (Send f m)
    then show thesis using sending_finds_reader [OF assms(1), of r f m ops] assms(2) Cons
      by (simp add: pipe_step_def Let_def)
  next
    case (Recv f k)
    then show thesis using reads [of f k ops] assms(2) Cons
      by (auto simp: pipe_step_def Let_def read_fifo_def split: if_splits)
  next
    case WaitSigint
    then show thesis using waits [of ops] assms(2) Cons by (auto simp: pipe_step_def Let_def split: if_splits)
  qed (use assms(2) Cons in \<open>auto simp: pipe_step_def Let_def\<close>)
qed

text \<open>A process that cannot go on before it has opened both ends is inside an open whose other end is closed.\<close>

lemma stuck_in_open:
  assumes ok: "pipes_ok s" and stuck: "pipe_step r s = None" and left: "opens_left (ptodo (pprocs s r)) \<noteq> 0"
  obtains w f ops where "ptodo (pprocs s r) = open_op w f # ops" "user w f = r" "\<not> held (\<not> w) (fifos s f)"
    "announced (pprocs s r) = idx f"
proof -
  have suf: "suffix (ptodo (pprocs s r)) (pipe_code msgs r)" using ok by (simp add: pipes_ok_def laid_outD)
  show thesis using ok stuck
  proof (cases rule: stuck_cases)
    case (opens w f ops)
    have "user w f = r \<and> opens_left ops = 2 - idx f" using open_head [of w f ops msgs r] suf opens(1) by simp
    moreover from this have "announced (pprocs s r) = idx f"
      using opens by (cases f) (auto simp: announced_def idx_def)
    ultimately show thesis using that opens by blast
  next
    case (waits ops)
    then show thesis using head_rank(3) [OF pipe_code_parts(4), of WaitSigint ops msgs r] suf left by auto
  next
    case (reads f k ops)
    then show thesis using head_rank(3) [OF pipe_code_parts(4), of "Recv f k" ops msgs r] suf left by auto
  qed (use left in simp)
qed

text \<open>Whoever still has to open or to read still holds the close of each of its ends.\<close>

lemma close_to_come:
  assumes "pipes_ok s" "y \<in> set (ptodo (pprocs s (user w f)))" "rank y < 5"
  shows "close_op w f \<in> set (ptodo (pprocs s (user w f)))"
  using assms close_in_code [of w f msgs] open_close_simps(2) [of w f]
  by (metis later_in_suffix pipe_code_parts(4) laid_outD pipes_ok_def)

lemma opens_not_stuck:
  assumes ok: "pipes_ok s" and stuck: "\<And>r. pipe_step r s = None"
  shows "opens_left (ptodo (pprocs s r)) = 0"
proof (rule ccontr)
  define x where "x = other r"
  have doors: "doors s" using ok by (simp add: pipes_ok_def)
  assume "opens_left (ptodo (pprocs s r)) \<noteq> 0"
  then obtain w f ops where r: "ptodo (pprocs s r) = open_op w f # ops" "user w f = r" "\<not> held (\<not> w) (fifos s f)"
    "announced (pprocs s r) = idx f" using stuck_in_open [OF ok stuck] by blast
  show False
  proof (cases "announced (pprocs s x) < idx f")
    case True
    then have "opens_left (ptodo (pprocs s x)) \<noteq> 0" by (cases f) (auto simp: announced_def idx_def split: if_splits)
    then obtain w' f' where x: "user w' f' = x" "\<not> held (\<not> w') (fifos s f')" "announced (pprocs s x) = idx f'"
      using stuck_in_open [OF ok stuck] by blast
    have u: "user (\<not> w') f' = r" using x(1) by (simp add: x_def)
    have "close_op (\<not> w') f' \<in> set (ptodo (pprocs s r))"
      using close_to_come [OF ok, of "open_op w f" "\<not> w'" f', unfolded u] r(1) by simp
    then show False using doorsD(2) [OF doors, of "\<not> w'" f', unfolded u] x(2,3) r(4) True by simp
  next
    case False
    have u: "user (\<not> w) f = x" using r(2) by (simp add: x_def)
    then have "close_op (\<not> w) f \<notin> set (ptodo (pprocs s x))"
      using doorsD(2) [OF doors, of "\<not> w" f, unfolded u] r(3) False by simp
    moreover have "close_op (\<not> w) f \<in> set (ptodo (pprocs s x))" if nz: "recvs (ptodo (pprocs s x)) \<noteq> []"
      using recvs_in [OF nz] close_to_come [OF ok, of _ "\<not> w" f, unfolded u] by fastforce
    ultimately have "recvs (ptodo (pprocs s x)) = []" by blast
    moreover have "channel r s" using ok by (simp add: pipes_ok_def)
    ultimately have "sends (ptodo (pprocs s r)) = []" by (elim channelE) (simp add: x_def)
    moreover have suf: "suffix (ptodo (pprocs s r)) (pipe_code msgs r)" using ok by (simp add: pipes_ok_def laid_outD)
    have "sends (ptodo (pprocs s r)) = msgs r"
      using parts_suffix(1) [OF pipe_code_parts(4) suf, of "open_op w f"] r(1) by (simp add: pipe_code_parts)
    ultimately show False using msgs_nonempty [of r] by simp
  qed
qed

lemma pipe_standstill:
  assumes ok: "pipes_ok s" and stuck: "\<And>r. pipe_step r s = None"
  shows "ptodo (pprocs s r) = [] \<or> (\<exists>ops. ptodo (pprocs s r) = WaitSigint # ops \<and> \<not> pterminate (pprocs s r))"
    and "received (plines (pprocs s (other r))) = map msg_value (msgs r)"
proof -
  have suf: "suffix (ptodo (pprocs s y)) (pipe_code msgs y)" for y using ok by (simp add: pipes_ok_def laid_out_def)
  have sent: "sends (ptodo (pprocs s y)) = []" for y
    using ok stuck [of y]
  proof (cases rule: stuck_cases)
    case (waits ops)
    then show ?thesis using head_rank(1) [OF pipe_code_parts(4), of WaitSigint ops msgs y] suf [of y] by simp
  next
    case (reads f k ops)
    then show ?thesis using head_rank(1) [OF pipe_code_parts(4), of "Recv f k" ops msgs y] suf [of y] by simp
  next
    case (opens w f ops)
    then show ?thesis using opens_not_stuck [OF ok stuck, of y] by simp
  qed simp
  have quiet: "ptodo (pprocs s y) = [] \<or> (\<exists>ops. ptodo (pprocs s y) = WaitSigint # ops \<and> \<not> pterminate (pprocs s y))" for y
    using ok stuck [of y]
  proof (cases rule: stuck_cases)
    case (reads f k ops)
    have "Recv f k \<in> set (pipe_code msgs y)" using suf [of y] reads(1) set_mono_suffix by fastforce
    then have f: "f = out_fifo (other y)" using in_code(2) by (fastforce simp: in_fifo_def)
    have yy: "other (other y) = y" by simp
    have "channel (other y) s" using ok by (simp add: pipes_ok_def)
    then obtain ps where "fbytes (fifos s f) = concat (map msg_bytes ps)" "recvs (ptodo (pprocs s y)) = map kind_of ps"
      using sent [of "other y"] unfolding f by (elim channelE) (simp add: yy)
    then show ?thesis using reads msg_bytes_nonempty by (cases ps) auto
  next
    case (opens w f ops)
    then show ?thesis using opens_not_stuck [OF ok stuck, of y] by simp
  qed auto
  then show "ptodo (pprocs s r) = [] \<or> (\<exists>ops. ptodo (pprocs s r) = WaitSigint # ops \<and> \<not> pterminate (pprocs s r))" .
  have "recvs (ptodo (pprocs s y)) = []" for y
    using quiet [of y] head_rank(2) [OF pipe_code_parts(4), of WaitSigint _ msgs y] suf [of y] by auto
  moreover have "channel r s" using ok by (simp add: pipes_ok_def)
  ultimately show "received (plines (pprocs s (other r))) = map msg_value (msgs r)"
    using sent [of r] by (elim channelE) simp
qed

end

end
