(* ===== verification/PipeProperties.thy ===== *)
theory PipeProperties
  imports PipeExchange
begin

text \<open>
  The guarantees of the named pipe program: the library of the exchange applied to its
  messages, over every interleaving of the two processes and with SIGINT at any time at
  which a process does not wait in a \<^verbatim>\<open>read\<close>.
\<close>

subsection \<open>The messages of the program\<close>

definition pipe_msgs :: "role \<Rightarrow> pipe_msg list" where
  "pipe_msgs r = map Cmd commands @ map Str (case r of Parent \<Rightarrow> txParent | Child \<Rightarrow> txChild)"


lemmas pipe_message_defs = pipe_msgs_def commands_def txParent_def txChild_def



lemma pipe_program:
  "pipe_code pipe_msgs Parent = pipe_parent_code" "pipe_code pipe_msgs Child = pipe_child_code"
  by (simp_all add: pipe_code_def pipe_parent_code_def pipe_child_code_def pipe_message_defs open_op_def
      close_op_def out_fifo_def in_fifo_def other_def kind_of_def numeral_eq_Suc)

lemma pipe_fork_simps [simp]:
  "fifos (pipe_fork b c rx) f = \<lparr>fbytes = [], writer_held = False, reader_held = False\<rparr>"
  "pprocs (pipe_fork True c rx) r = pipe_start (pipe_code pipe_msgs r) c rx"
  by (simp_all add: pipe_fork_def pipe_program split: role.splits)

lemma pipe_start_simps [simp]:
  "ptodo (pipe_start ops c rx) = ops" "\<not> in_open (pipe_start ops c rx)" "plines (pipe_start ops c rx) = []"
  by (simp_all add: pipe_start_def)


subsection \<open>Runs\<close>






lemma opens_left_le: "opens_left ops \<le> length ops"
  by (induction ops rule: opens_left.induct) auto




subsection \<open>Guarantees\<close>

lemma case_SomeD: "(case x of None \<Rightarrow> False | Some y \<Rightarrow> P y) \<Longrightarrow> \<exists>y. x = Some y \<and> P y"
  by (cases x) auto





text \<open>
  A SIGINT that ends a read the child waits in makes the child log whatever its variable
  happened to hold: the failure of the read is not noticed.
\<close>

theorem pipe_sigint_logs_garbage:
  "\<exists>es s. pipe_run es (pipe_fork True c rx) = Some s \<and> last (plines (pprocs s Child)) = Received Child (Num c)"
proof -
  let ?es = "map Go [Parent, Child, Child, Child, Parent, Parent, Child] @ replicate 11 (Go Child) @ [Interrupt Child True]"
  have "case pipe_run ?es (pipe_fork True c rx) of None \<Rightarrow> False
    | Some s \<Rightarrow> last (plines (pprocs s Child)) = Received Child (Num c)"
    by (simp add: pipe_fork_def pipe_start_def pipe_parent_code_def pipe_child_code_def pipe_message_defs
        pipe_event_step_def pipe_step_def open_step_def set_pproc_def set_fifo_def cut_short_def read_fifo_def
        store_read_def numeral_eq_Suc Let_def)
  then show ?thesis using case_SomeD by blast
qed

end
