(* ===== verification/Sockets.thy ===== *)
theory Sockets
  imports IpcMessages
begin

text \<open>
  The socket programs (\<^verbatim>\<open>src/HW4/Ques2/sockets/socketClient.c\<close> and \<^verbatim>\<open>socketServer.c\<close>). The
  socket is of type \<^verbatim>\<open>SOCK_SEQPACKET\<close>: a write is one packet, a read takes one packet and drops
  what does not fit. Each direction is the list of the packets its sender ever writes, in
  order; a read beyond the last one finds the peer gone and returns nothing. Neither program
  reads before it has written all it will write until then, so a session is the composition
  of the two. Undefined behaviour is \<^const>\<open>None\<close>; so is a loop that does not end.
\<close>

subsection \<open>Data\<close>

definition txClient :: "string list" where
  "txClient = [''Firmino'', ''Salah'', ''Mane'', ''Van Dijk'', ''Alisson'']"

definition txServer :: "string list" where
  "txServer = [''Fabinho'', ''Robertson'', ''Alexander Arnold'', ''Lovren'', ''Wijnaldum'']"

definition sock_commands :: "u8 list" where
  "sock_commands = [1, 0, 1, 1, 0]"

datatype sock_line = Sock_info | Sock_sent payload | Sock_received payload | Sock_exit

text \<open>The local variables \<^verbatim>\<open>result\<close> and \<^verbatim>\<open>buffer\<close> of either program and the log written so far.\<close>

record sock_vars =
  result :: u8
  buffer :: "u8 list"
  slog :: "sock_line list"

definition SOCK_STR_LEN :: nat where
  "SOCK_STR_LEN = 20"

definition sock_array :: "string \<Rightarrow> u8 list" where
  "sock_array t = c_string t @ replicate (SOCK_STR_LEN - length (c_string t)) 0"

definition add_line :: "sock_line \<Rightarrow> sock_vars \<Rightarrow> sock_vars" where
  "add_line l v = v\<lparr>slog := slog v @ [l]\<rparr>"

text \<open>\<^verbatim>\<open>read(data_socket, buf, n)\<close>: the bytes stored and the packets left.\<close>

definition read_packet :: "nat \<Rightarrow> u8 list list \<Rightarrow> u8 list \<times> u8 list list" where
  "read_packet n pkts = (case pkts of [] \<Rightarrow> ([], []) | p # ps \<Rightarrow> (take n p, ps))"

definition store_bytes :: "u8 list \<Rightarrow> u8 list \<Rightarrow> u8 list" where
  "store_bytes bs buf = bs @ drop (length bs) buf"

text \<open>\<^verbatim>\<open>strncmp(buffer, "END", STR_MAX_LEN) == 0\<close>\<close>

definition is_END :: "u8 list \<Rightarrow> bool" where
  "is_END buf \<longleftrightarrow> take 4 buf = c_string ''END''"

subsection \<open>The two programs\<close>

text \<open>
  The receiving loop, the same in both programs: five single bytes, then strings up to
  \<^verbatim>\<open>"END"\<close>.
\<close>

partial_function (option) receive_loop ::
  "nat \<Rightarrow> u8 list list \<Rightarrow> sock_vars \<Rightarrow> (u8 list list \<times> sock_vars) option" where
  "receive_loop i pkts v =
     (if i < 5 then
        let (bs, pkts) = read_packet 1 pkts;
            v = v\<lparr>result := (case bs of [] \<Rightarrow> result v | b # _ \<Rightarrow> b)\<rparr>
        in receive_loop (i + 1) pkts (add_line (Sock_received (Num (result v))) v)
      else
        let (bs, pkts) = read_packet SOCK_STR_LEN pkts;
            v = v\<lparr>buffer := store_bytes bs (buffer v)\<rparr>
        in if is_END (buffer v) then Some (pkts, v)
           else if 0 \<in> set (buffer v)
           then receive_loop (i + 1) pkts (add_line (Sock_received (Text (read_string (buffer v)))) v)
           else None)"

definition send_commands :: "u8 list \<Rightarrow> sock_vars \<Rightarrow> u8 list list \<times> sock_vars" where
  "send_commands cs v = (map (\<lambda>c. [c]) cs, fold (\<lambda>c. add_line (Sock_sent (Num c))) cs v)"

definition send_strings :: "string list \<Rightarrow> sock_vars \<Rightarrow> u8 list list \<times> sock_vars" where
  "send_strings ts v = (map sock_array ts, fold (\<lambda>t. add_line (Sock_sent (Text t))) ts v)"

text \<open>
  The client up to the end of its sends; \<^verbatim>\<open>connect\<close> may fail, which the program does not
  notice: its packets then go nowhere.
\<close>

definition client_send :: "bool \<Rightarrow> sock_vars \<Rightarrow> u8 list list \<times> sock_vars" where
  "client_send connected v =
     (let v = add_line Sock_info v;
          (p1, v) = send_commands sock_commands v;
          (p2, v) = send_strings txClient v;
          v = v\<lparr>buffer := store_bytes (c_string ''END'') (buffer v)\<rparr>;
          p3 = take (length (c_string ''END'')) (buffer v)
      in (if connected then p1 @ p2 @ [p3] else [], v))"

text \<open>The client from there on, given what the server sends; SIGINT ends it.\<close>

definition client_finish :: "u8 list list \<Rightarrow> sock_vars \<Rightarrow> sock_vars option" where
  "client_finish pkts v = map_option (\<lambda>(_, v). add_line Sock_exit v) (receive_loop 0 pkts v)"

text \<open>
  The server: one pass of its main loop for a client that sends the given packets. The log
  stream is open in the first pass only; writing to it afterwards is undefined.
\<close>

record server =
  svars :: sock_vars
  fp_open :: bool

definition serve_client :: "u8 list list \<Rightarrow> server \<Rightarrow> (u8 list list \<times> server) option" where
  "serve_client pkts s =
     (if \<not> fp_open s then None
      else case receive_loop 0 pkts (svars s) of
        None \<Rightarrow> None
      | Some (_, v) \<Rightarrow>
          let (p1, v) = send_commands sock_commands v;
              (p2, v) = send_strings txServer v;
              v = v\<lparr>buffer := store_bytes (c_string ''END'') (buffer v)\<rparr>
          in Some (p1 @ p2 @ [take SOCK_STR_LEN (buffer v)], s\<lparr>svars := v, fp_open := False\<rparr>))"

definition server_start :: "sock_vars \<Rightarrow> server" where
  "server_start v = \<lparr>svars = add_line Sock_info v, fp_open = True\<rparr>"

text \<open>The main loop for the clients that connect one after another.\<close>

fun server_loop :: "u8 list list list \<Rightarrow> server \<Rightarrow> (u8 list list list \<times> server) option" where
  "server_loop [] s = Some ([], s)"
| "server_loop (c # cs) s =
     (case serve_client c s of
        None \<Rightarrow> None
      | Some (r, s) \<Rightarrow> map_option (\<lambda>(rs, s). (r # rs, s)) (server_loop cs s))"

subsection \<open>The receiving loop\<close>

lemma fold_add_line: "fold (\<lambda>x. add_line (f x)) xs v = v\<lparr>slog := slog v @ map f xs\<rparr>"
  by (induction xs arbitrary: v) (simp_all add: add_line_def)

lemma receive_bytes:
  assumes "i + length cs \<le> 5"
  shows "receive_loop i (map (\<lambda>c. [c]) cs @ pkts) v = receive_loop (i + length cs) pkts
    (v\<lparr>result := last (result v # cs), slog := slog v @ map (\<lambda>c. Sock_received (Num c)) cs\<rparr>)"
  using assms
proof (induction cs arbitrary: i v)
  case (Cons c cs)
  then show ?case
    by (subst receive_loop.simps) (simp add: read_packet_def add_line_def)
qed simp

definition fits :: "string \<Rightarrow> bool" where
  "fits t \<longleftrightarrow> nul_free_string t \<and> length t < SOCK_STR_LEN \<and> t \<noteq> ''END''"

lemma c_string_append_inject:
  assumes "nul_free_string t" "nul_free_string u" "c_string t @ bs = c_string u @ bs'"
  shows "t = u"
  using assms read_string_c_string [of t bs] read_string_c_string [of u bs'] by simp

lemma store_array:
  assumes "fits t" "length b = SOCK_STR_LEN"
  shows "store_bytes (take SOCK_STR_LEN (sock_array t)) b = sock_array t" "\<not> is_END (sock_array t)"
    "0 \<in> set (sock_array t)" "read_string (sock_array t) = t" "length (sock_array t) = SOCK_STR_LEN"
proof -
  show len: "length (sock_array t) = SOCK_STR_LEN" using assms(1) by (simp add: sock_array_def fits_def c_string_def)
  then show "store_bytes (take SOCK_STR_LEN (sock_array t)) b = sock_array t" using assms(2) by (simp add: store_bytes_def)
  show "0 \<in> set (sock_array t)" by (simp add: sock_array_def c_string_def)
  show "read_string (sock_array t) = t" using assms(1) by (simp add: sock_array_def fits_def read_string_c_string)
  show "\<not> is_END (sock_array t)"
  proof
    assume "is_END (sock_array t)"
    then obtain rest where "sock_array t = c_string ''END'' @ rest" by (metis append_take_drop_id is_END_def)
    then have "c_string t @ replicate (SOCK_STR_LEN - length (c_string t)) 0 = c_string ''END'' @ rest"
      unfolding sock_array_def .
    then have "t = ''END''"
      using c_string_append_inject [of t "''END''"] assms(1) by (simp add: fits_def nul_free_string_def)
    then show False using assms(1) by (simp add: fits_def)
  qed
qed

lemma receive_strings:
  assumes "list_all fits ts" "length (buffer v) = SOCK_STR_LEN" "5 \<le> i"
  shows "receive_loop i (map sock_array ts @ pkts) v = receive_loop (i + length ts) pkts
    (v\<lparr>slog := slog v @ map (\<lambda>t. Sock_received (Text t)) ts, buffer := last (buffer v # map sock_array ts)\<rparr>)"
  using assms
proof (induction ts arbitrary: i v)
  case (Cons t ts)
  then have t: "fits t" by simp
  let ?v = "add_line (Sock_received (Text t)) (v\<lparr>buffer := sock_array t\<rparr>)"
  have "receive_loop i (map sock_array (t # ts) @ pkts) v = receive_loop (i + 1) (map sock_array ts @ pkts) ?v"
    using Cons.prems store_array [OF t Cons.prems(2)] by (subst receive_loop.simps) (simp add: read_packet_def)
  moreover have "length (buffer ?v) = SOCK_STR_LEN" using store_array(5) [OF t Cons.prems(2)] by (simp add: add_line_def)
  ultimately show ?case using Cons.IH [of ?v "i + 1"] Cons.prems by (simp add: add_line_def)
qed simp

lemma receive_END:
  assumes "5 \<le> i" "take 4 e = c_string ''END''" "length e \<le> SOCK_STR_LEN"
  shows "receive_loop i (e # pkts) v = Some (pkts, v\<lparr>buffer := store_bytes e (buffer v)\<rparr>)"
proof -
  have "4 \<le> length e" using arg_cong [OF assms(2), of length] by (simp add: c_string_def)
  then have "is_END (store_bytes e (buffer v))" using assms(2) by (simp add: is_END_def store_bytes_def)
  then show ?thesis using assms(1, 3) by (subst receive_loop.simps) (simp add: read_packet_def)
qed

text \<open>A whole message: the five commands, strings, \<^verbatim>\<open>"END"\<close>.\<close>

lemma receive_message:
  assumes "length cs = 5" "list_all fits ts" "length (buffer v) = SOCK_STR_LEN"
    and "take 4 e = c_string ''END''" "length e \<le> SOCK_STR_LEN"
  shows "\<exists>c b. receive_loop 0 (map (\<lambda>c. [c]) cs @ map sock_array ts @ [e]) v =
      Some ([], v\<lparr>result := c, buffer := b, slog := slog v @ map (\<lambda>c. Sock_received (Num c)) cs @
        map (\<lambda>t. Sock_received (Text t)) ts\<rparr>) \<and> length b = SOCK_STR_LEN"
proof -
  let ?v = "v\<lparr>result := last (result v # cs), slog := slog v @ map (\<lambda>c. Sock_received (Num c)) cs\<rparr>"
  have "receive_loop 0 (map (\<lambda>c. [c]) cs @ map sock_array ts @ [e]) v = receive_loop 5 (map sock_array ts @ [e]) ?v"
    using receive_bytes [of 0 cs] assms(1) by simp
  also have "\<dots> = receive_loop (5 + length ts) [e]
      (?v\<lparr>slog := slog ?v @ map (\<lambda>t. Sock_received (Text t)) ts, buffer := last (buffer v # map sock_array ts)\<rparr>)"
    using receive_strings [of ts ?v 5 "[e]"] assms(2, 3) by simp
  finally have "receive_loop 0 (map (\<lambda>c. [c]) cs @ map sock_array ts @ [e]) v =
      Some ([], v\<lparr>result := last (result v # cs), buffer := store_bytes e (last (buffer v # map sock_array ts)),
        slog := slog v @ map (\<lambda>c. Sock_received (Num c)) cs @ map (\<lambda>t. Sock_received (Text t)) ts\<rparr>)"
    using receive_END [of "5 + length ts" e "[]"] assms(4, 5) by simp
  moreover have "length (last (buffer v # map sock_array ts)) = SOCK_STR_LEN"
    using assms(2, 3) store_array(5) by (induction ts rule: rev_induct) auto
  then have "length (store_bytes e (last (buffer v # map sock_array ts))) = SOCK_STR_LEN"
    using assms(5) by (simp add: store_bytes_def)
  ultimately show ?thesis by blast
qed

text \<open>Without a packet that says \<^verbatim>\<open>"END"\<close> the loop does not end.\<close>

lemma receive_nothing:
  assumes "receive_loop i pkts v = Some r"
  shows "pkts = [] \<longrightarrow> is_END (buffer v)"
  using assms
proof (rule receive_loop.raw_induct [where P = "\<lambda>i pkts v r. pkts = [] \<longrightarrow> is_END (buffer v)", rotated])
  fix f :: "nat \<Rightarrow> u8 list list \<Rightarrow> sock_vars \<Rightarrow> (u8 list list \<times> sock_vars) option" and i pkts v r
  assume IH: "\<And>i pkts v r. f i pkts v = Some r \<Longrightarrow> pkts = [] \<longrightarrow> is_END (buffer v)"
    and eq: "(if i < 5 then
        let (bs, pkts) = read_packet 1 pkts;
            v = v\<lparr>result := (case bs of [] \<Rightarrow> result v | b # _ \<Rightarrow> b)\<rparr>
        in f (i + 1) pkts (add_line (Sock_received (Num (result v))) v)
      else
        let (bs, pkts) = read_packet SOCK_STR_LEN pkts;
            v = v\<lparr>buffer := store_bytes bs (buffer v)\<rparr>
        in if is_END (buffer v) then Some (pkts, v)
           else if 0 \<in> set (buffer v)
           then f (i + 1) pkts (add_line (Sock_received (Text (read_string (buffer v)))) v)
           else None) = Some r"
  show "pkts = [] \<longrightarrow> is_END (buffer v)"
  proof
    assume none: "pkts = []"
    have IH': "is_END (buffer (add_line l w))" if "f (i + 1) [] (add_line l w) = Some r" for l w
      using IH [OF that] by simp
    show "is_END (buffer v)"
      using eq none IH' [of "Sock_received (Num (result v))" v]
        IH' [of "Sock_received (Text (read_string (buffer v)))" v]
      by (cases "i < 5"; cases "is_END (buffer v)")
        (simp_all add: read_packet_def store_bytes_def add_line_def split: if_splits)
  qed
qed

subsection \<open>Guarantees\<close>

lemmas sock_defs = txClient_def txServer_def sock_commands_def

lemma program_fits: "list_all fits txClient" "list_all fits txServer"
  by (simp_all add: sock_defs fits_def nul_free_string_def SOCK_STR_LEN_def)

lemma END_bytes: "length b = SOCK_STR_LEN \<Longrightarrow> take 4 (store_bytes (c_string ''END'') b) = c_string ''END''"
  "length b = SOCK_STR_LEN \<Longrightarrow> length (store_bytes (c_string ''END'') b) = SOCK_STR_LEN"
  by (simp_all add: store_bytes_def c_string_def SOCK_STR_LEN_def)

text \<open>
  C17: In a session of one client with the server both receiving loops end, and the logs of
  both sides record every command and string of the other side in order after their own.
\<close>

theorem socket_session:
  assumes "length (buffer vc) = SOCK_STR_LEN" "length (buffer vs) = SOCK_STR_LEN"
  shows "\<exists>replies s vc'.
    serve_client (fst (client_send True vc)) (server_start vs) = Some (replies, s) \<and>
    client_finish replies (snd (client_send True vc)) = Some vc' \<and>
    slog (svars s) = slog vs @ [Sock_info] @
      map (\<lambda>c. Sock_received (Num c)) sock_commands @ map (\<lambda>t. Sock_received (Text t)) txClient @
      map (\<lambda>c. Sock_sent (Num c)) sock_commands @ map (\<lambda>t. Sock_sent (Text t)) txServer \<and>
    slog vc' = slog vc @ [Sock_info] @
      map (\<lambda>c. Sock_sent (Num c)) sock_commands @ map (\<lambda>t. Sock_sent (Text t)) txClient @
      map (\<lambda>c. Sock_received (Num c)) sock_commands @ map (\<lambda>t. Sock_received (Text t)) txServer @ [Sock_exit]"
proof -
  have five: "length sock_commands = 5" by (simp add: sock_defs)
  let ?vc = "snd (client_send True vc)"
  have out: "fst (client_send True vc) = map (\<lambda>c. [c]) sock_commands @ map sock_array txClient @ [c_string ''END'']"
    using assms(1) by (simp add: client_send_def send_commands_def send_strings_def fold_add_line add_line_def
        store_bytes_def)
  have END: "take 4 (c_string ''END'') = c_string ''END''" "length (c_string ''END'') \<le> SOCK_STR_LEN"
    by (simp_all add: c_string_def SOCK_STR_LEN_def)
  have vc: "length (buffer ?vc) = SOCK_STR_LEN"
    "slog ?vc = slog vc @ [Sock_info] @ map (\<lambda>c. Sock_sent (Num c)) sock_commands @ map (\<lambda>t. Sock_sent (Text t)) txClient"
    using assms(1) END_bytes(2)
    by (simp_all add: client_send_def send_commands_def send_strings_def fold_add_line add_line_def)
  obtain c b where recv: "receive_loop 0 (fst (client_send True vc)) (svars (server_start vs)) =
      Some ([], (svars (server_start vs))\<lparr>result := c, buffer := b, slog := slog (svars (server_start vs)) @
        map (\<lambda>c. Sock_received (Num c)) sock_commands @ map (\<lambda>t. Sock_received (Text t)) txClient\<rparr>)"
    and b: "length b = SOCK_STR_LEN"
    using receive_message [OF five program_fits(1) _ END, of "svars (server_start vs)"] assms(2)
    unfolding out by (auto simp: server_start_def add_line_def)
  let ?e = "store_bytes (c_string ''END'') b"
  have start: "fp_open (server_start vs)" "slog (svars (server_start vs)) = slog vs @ [Sock_info]"
    by (simp_all add: server_start_def add_line_def)
  obtain s where s: "serve_client (fst (client_send True vc)) (server_start vs) =
      Some (map (\<lambda>c. [c]) sock_commands @ map sock_array txServer @ [?e], s)"
    "slog (svars s) = slog vs @ [Sock_info] @
      map (\<lambda>c. Sock_received (Num c)) sock_commands @ map (\<lambda>t. Sock_received (Text t)) txClient @
      map (\<lambda>c. Sock_sent (Num c)) sock_commands @ map (\<lambda>t. Sock_sent (Text t)) txServer"
    using recv END_bytes(2) [OF b] start
    by (simp add: serve_client_def send_commands_def send_strings_def fold_add_line)
  obtain c' b' where "receive_loop 0 (map (\<lambda>c. [c]) sock_commands @ map sock_array txServer @ [?e]) ?vc =
      Some ([], ?vc\<lparr>result := c', buffer := b', slog := slog ?vc @
        map (\<lambda>c. Sock_received (Num c)) sock_commands @ map (\<lambda>t. Sock_received (Text t)) txServer\<rparr>)"
    using receive_message [OF five program_fits(2) vc(1) END_bytes(1) [OF b]] END_bytes(2) [OF b] by auto
  then obtain vc' where "client_finish (map (\<lambda>c. [c]) sock_commands @ map sock_array txServer @ [?e]) ?vc = Some vc'"
    "slog vc' = slog ?vc @ map (\<lambda>c. Sock_received (Num c)) sock_commands @
       map (\<lambda>t. Sock_received (Text t)) txServer @ [Sock_exit]"
    by (simp add: client_finish_def add_line_def)
  then show ?thesis using s vc(2) by auto
qed

theorem socket_session_witness:
  "\<exists>replies s. serve_client (fst (client_send True \<lparr>result = 0, buffer = replicate 20 0, slog = []\<rparr>))
       (server_start \<lparr>result = 0, buffer = replicate 20 0, slog = []\<rparr>) = Some (replies, s) \<and>
     slog (svars s) = [Sock_info] @
      map (\<lambda>c. Sock_received (Num c)) sock_commands @ map (\<lambda>t. Sock_received (Text t)) txClient @
      map (\<lambda>c. Sock_sent (Num c)) sock_commands @ map (\<lambda>t. Sock_sent (Text t)) txServer"
  using socket_session [of "\<lparr>result = 0, buffer = replicate 20 0, slog = []\<rparr>"
      "\<lparr>result = 0, buffer = replicate 20 0, slog = []\<rparr>"]
  by (auto simp: SOCK_STR_LEN_def)

text \<open>
  The server closes its log at the end of the first session and uses it again in the
  second: whatever the clients send, serving two clients is undefined behaviour or never
  gets there.
\<close>

theorem server_serves_one_client: "server_loop (c1 # c2 # cs) s = None"
proof (cases "serve_client c1 s")
  case (Some rs)
  then have "\<not> fp_open (snd rs)"
    by (auto simp: serve_client_def Let_def split: if_splits option.splits prod.splits)
  then have "serve_client c2 (snd rs) = None" by (simp add: serve_client_def)
  then show ?thesis using Some by (cases rs) simp
qed simp

text \<open>
  A client that goes away after any number of its packets before \<^verbatim>\<open>"END"\<close> leaves the server in
  an endless loop: the zero result of the read is not checked.
\<close>

theorem server_spins_when_client_leaves:
  assumes "k \<le> 10" "length (buffer vs) = SOCK_STR_LEN" "\<not> is_END (buffer vs)"
  shows "serve_client (take k (fst (client_send True vc))) (server_start vs) = None"
proof -
  let ?v = "svars (server_start vs)"
  have v: "length (buffer ?v) = SOCK_STR_LEN" "buffer ?v = buffer vs"
    using assms(2) by (simp_all add: server_start_def add_line_def)
  have five: "length sock_commands = 5" "length txClient = 5" by (simp_all add: sock_defs)
  obtain e where out: "fst (client_send True vc) = map (\<lambda>c. [c]) sock_commands @ map sock_array txClient @ [e]"
    by (simp add: client_send_def send_commands_def send_strings_def fold_add_line Let_def)
  define cs where "cs = take k sock_commands"
  define ts where "ts = take (k - 5) txClient"
  have pk: "take k (fst (client_send True vc)) = map (\<lambda>c. [c]) cs @ map sock_array ts"
    using assms(1) five by (simp add: out cs_def ts_def take_map)
  have cs: "length cs \<le> 5" "ts = [] \<or> length cs = 5" using five by (auto simp: cs_def ts_def)
  let ?v1 = "?v\<lparr>result := last (result ?v # cs), slog := slog ?v @ map (\<lambda>c. Sock_received (Num c)) cs\<rparr>"
  have fits: "list_all fits ts" using program_fits(1) by (auto simp: ts_def list_all_iff dest: in_set_takeD)
  have first: "receive_loop 0 (map (\<lambda>c. [c]) cs @ map sock_array ts) ?v = receive_loop (length cs) (map sock_array ts) ?v1"
    using receive_bytes [of 0 cs] cs(1) by simp
  have "\<exists>j w. receive_loop (length cs) (map sock_array ts) ?v1 = receive_loop j [] w \<and> \<not> is_END (buffer w)"
  proof (cases "ts = []")
    case True
    have "receive_loop (length cs) (map sock_array ts) ?v1 = receive_loop (length cs) [] ?v1 \<and> \<not> is_END (buffer ?v1)"
      using True v assms(3) by simp
    then show ?thesis by blast
  next
    case False
    then have "length cs = 5" using cs(2) by simp
    let ?w = "?v1\<lparr>slog := slog ?v1 @ map (\<lambda>t. Sock_received (Text t)) ts, buffer := last (buffer ?v1 # map sock_array ts)\<rparr>"
    have "receive_loop (length cs) (map sock_array ts) ?v1 = receive_loop (5 + length ts) [] ?w"
      using receive_strings [OF fits, of ?v1 5 "[]"] v(1) \<open>length cs = 5\<close> by simp
    moreover have "\<exists>t. fits t \<and> buffer ?w = sock_array t"
      using False fits by (intro exI [of _ "last ts"]) (auto simp: last_map list_all_iff)
    then have "\<not> is_END (buffer ?w)" using store_array(2) v(1) by auto
    ultimately show ?thesis by blast
  qed
  then obtain j w where "receive_loop (length cs) (map sock_array ts) ?v1 = receive_loop j [] w" "\<not> is_END (buffer w)"
    by blast
  then have "receive_loop 0 (map (\<lambda>c. [c]) cs @ map sock_array ts) ?v = None"
    using first receive_nothing [of j "[]" w] by (cases "receive_loop j [] w") auto
  then show ?thesis by (simp add: serve_client_def pk)
qed

theorem server_spins_when_client_leaves_witness:
  "serve_client (take 7 (fst (client_send True \<lparr>result = 0, buffer = replicate 20 0, slog = []\<rparr>)))
     (server_start \<lparr>result = 0, buffer = replicate 20 0, slog = []\<rparr>) = None"
proof -
  have "\<not> is_END (replicate 20 0)" by code_simp
  then show ?thesis
    by (intro server_spins_when_client_leaves) (simp_all add: SOCK_STR_LEN_def)
qed

text \<open>
  A client that finds no server notices nothing: it logs its uninitialised variable as
  five received commands, takes its own \<^verbatim>\<open>"END"\<close> for the server's and waits for SIGINT.
\<close>

theorem client_without_server:
  assumes "length (buffer v) = SOCK_STR_LEN"
  shows "\<exists>v'. client_finish (fst (client_send False v)) (snd (client_send False v)) = Some v' \<and>
    slog v' = slog v @ [Sock_info] @ map (\<lambda>c. Sock_sent (Num c)) sock_commands @
      map (\<lambda>t. Sock_sent (Text t)) txClient @ replicate 5 (Sock_received (Num (result v))) @ [Sock_exit]"
proof -
  let ?v = "snd (client_send False v)"
  have v: "is_END (buffer ?v)" "result ?v = result v" "fst (client_send False v) = []"
    "slog ?v = slog v @ [Sock_info] @ map (\<lambda>c. Sock_sent (Num c)) sock_commands @ map (\<lambda>t. Sock_sent (Text t)) txClient"
    using END_bytes(1) [OF assms]
    by (simp_all add: client_send_def send_commands_def send_strings_def fold_add_line add_line_def is_END_def)
  have byte: "receive_loop i [] w = receive_loop (Suc i) [] (add_line (Sock_received (Num (result w))) w)" if "i < 5" for i w
    using that by (subst receive_loop.simps) (simp add: read_packet_def)
  have END: "receive_loop 5 [] w = Some ([], w)" if "is_END (buffer w)" for w
    using that by (subst receive_loop.simps) (simp add: read_packet_def store_bytes_def)
  have "receive_loop 0 [] ?v = Some ([], ?v\<lparr>slog := slog ?v @ replicate 5 (Sock_received (Num (result ?v)))\<rparr>)"
    using byte [of 0 ?v] byte [of 1] byte [of 2] byte [of 3] byte [of 4] END v(1)
    by (simp add: add_line_def numeral_eq_Suc)
  then show ?thesis using v by (simp add: client_finish_def add_line_def)
qed

end
