(* ===== verification/Pthreads.thy ===== *)
theory Pthreads
  imports Prelude
begin

text \<open>
  The pthread program (\<^verbatim>\<open>src/HW4/Ques1/pthreadtest.c\<close>): one thread counts the letters of a
  file, the other one reports the CPU utilisation ten times a second, and either ends when a
  signal was delivered to it. The globals the signal handler writes are read anew in every
  pass of the loops, so a loop takes the values it finds in its successive passes. Time
  stamps are not modelled, nor that \<^verbatim>\<open>getline\<close> stores a \<^verbatim>\<open>size_t\<close> into the one-byte variable
  \<^verbatim>\<open>len\<close>.
\<close>

subsection \<open>Signals\<close>

record psig =
  recdSignal :: u32
  killedThreadID :: u32

abbreviation (input) SIGUSR1 :: u32 where "SIGUSR1 \<equiv> 10"
abbreviation (input) SIGUSR2 :: u32 where "SIGUSR2 \<equiv> 12"

text \<open>The handler runs in the thread \<open>tid\<close> the signal was delivered to.\<close>

definition sigHandler :: "u32 \<Rightarrow> u32 \<Rightarrow> psig \<Rightarrow> psig" where
  "sigHandler tid signal g =
     g\<lparr>killedThreadID := tid,
       recdSignal := (if signal = SIGUSR1 then SIGUSR1 else if signal = SIGUSR2 then SIGUSR2 else 0)\<rparr>"

datatype pline = Started | Start_time | Ended_by nat | Completed | Count char nat | End_time | Cpu_line

definition signal_lines :: "psig \<Rightarrow> pline list" where
  "signal_lines g = (if recdSignal g = SIGUSR1 then [Ended_by 1]
     else if recdSignal g = SIGUSR2 then [Ended_by 2] else [])"

subsection \<open>Counting letters\<close>

definition ALPHA_COUNT :: nat where
  "ALPHA_COUNT = 26"

text \<open>\<^verbatim>\<open>isalpha\<close> and \<^verbatim>\<open>toupper\<close> of the C locale.\<close>

definition isalpha :: "u8 \<Rightarrow> bool" where
  "isalpha c \<longleftrightarrow> 65 \<le> c \<and> c \<le> 90 \<or> 97 \<le> c \<and> c \<le> 122"

definition toupper :: "u8 \<Rightarrow> u8" where
  "toupper c = (if 97 \<le> c \<and> c \<le> 122 then c - 32 else c)"

text \<open>\<^verbatim>\<open>++charCounts[toupper(ip)-ALPHA_ASCII_OFFSET]\<close>\<close>

definition count_char :: "u8 \<Rightarrow> u32 list \<Rightarrow> u32 list option" where
  "count_char ip charCounts =
     (if isalpha ip then do {
        let i = int (unat (toupper ip)) - 65;
        x \<leftarrow> c_read charCounts i;
        c_write charCounts i (x + 1)
      } else Some charCounts)"

text \<open>
  The reading loop in its \<open>n\<close>-th pass. After the last byte there is one more pass, in which
  \<^verbatim>\<open>fgetc\<close> returns \<^verbatim>\<open>EOF\<close>, which is no letter. The result is the counts and, when the thread was
  killed, the signal.
\<close>

fun count_loop ::
  "u32 \<Rightarrow> (nat \<Rightarrow> psig) \<Rightarrow> u8 list \<Rightarrow> nat \<Rightarrow> u32 list \<Rightarrow> (u32 list \<times> psig option) option" where
  "count_loop tid env [] n charCounts =
     Some (charCounts, if killedThreadID (env n) = tid then Some (env n) else None)"
| "count_loop tid env (ip # rest) n charCounts = do {
     charCounts \<leftarrow> count_char ip charCounts;
     if killedThreadID (env n) = tid then Some (charCounts, Some (env n))
     else count_loop tid env rest (n + 1) charCounts
   }"

definition flushAndClose :: "u32 list \<Rightarrow> pline list" where
  "flushAndClose charCounts =
     concat (map (\<lambda>i. if charCounts ! i < 100 \<and> 0 < charCounts ! i
                      then [Count (char_of (i + 65)) (unat (charCounts ! i))] else []) [0..<ALPHA_COUNT])
     @ [End_time]"

text \<open>The thread; the file does not exist when it is \<^const>\<open>None\<close>, which is undefined.\<close>

definition processCharacters :: "u32 \<Rightarrow> (nat \<Rightarrow> psig) \<Rightarrow> u8 list option \<Rightarrow> pline list option" where
  "processCharacters tid env file = do {
     input \<leftarrow> file;
     (charCounts, killed) \<leftarrow> count_loop tid env input 0 (replicate ALPHA_COUNT 0);
     Some ([Started, Start_time]
       @ (case killed of None \<Rightarrow> [Completed] | Some g \<Rightarrow> signal_lines g)
       @ flushAndClose charCounts)
   }"

subsection \<open>Reporting the CPU utilisation\<close>

record cpu_state =
  CPUUtilFlag :: bool
  open_files :: nat
  clines :: "pline list"
  returned :: bool

text \<open>\<^verbatim>\<open>checkStatFile\<close> opens \<^verbatim>\<open>/proc/stat\<close> and does not close it; without a free descriptor it reads from NULL.\<close>

definition checkStatFile :: "nat \<Rightarrow> cpu_state \<Rightarrow> cpu_state option" where
  "checkStatFile lim s =
     (if open_files s < lim
      then Some (s\<lparr>open_files := open_files s + 1, clines := clines s @ [Cpu_line]\<rparr>) else None)"

datatype cpu_event = Timer_expires | Loop_pass psig

definition timerHandler :: "cpu_state \<Rightarrow> cpu_state" where
  "timerHandler s = s\<lparr>CPUUtilFlag := True\<rparr>"

definition cpu_pass :: "nat \<Rightarrow> u32 \<Rightarrow> psig \<Rightarrow> cpu_state \<Rightarrow> cpu_state option" where
  "cpu_pass lim tid g s =
     (if killedThreadID g = tid
      then Some (s\<lparr>clines := clines s @ signal_lines g @ [End_time], open_files := open_files s - 1, returned := True\<rparr>)
      else if CPUUtilFlag s then map_option (\<lambda>s. s\<lparr>CPUUtilFlag := False\<rparr>) (checkStatFile lim s)
      else Some s)"

definition cpu_event_step :: "nat \<Rightarrow> u32 \<Rightarrow> cpu_event \<Rightarrow> cpu_state \<Rightarrow> cpu_state option" where
  "cpu_event_step lim tid e s = (case e of
     Timer_expires \<Rightarrow> Some (timerHandler s)
   | Loop_pass g \<Rightarrow> if returned s then Some s else cpu_pass lim tid g s)"

fun reportCPUUtil :: "nat \<Rightarrow> u32 \<Rightarrow> cpu_event list \<Rightarrow> cpu_state \<Rightarrow> cpu_state option" where
  "reportCPUUtil lim tid [] s = Some s"
| "reportCPUUtil lim tid (e # es) s = Option.bind (cpu_event_step lim tid e s) (reportCPUUtil lim tid es)"

text \<open>The state when the loop starts: the log file is open besides the \<open>n\<close> files of the process.\<close>

definition cpu_start :: "nat \<Rightarrow> cpu_state" where
  "cpu_start n = \<lparr>CPUUtilFlag = False, open_files = n + 1, clines = [Started, Start_time], returned = False\<rparr>"

subsection \<open>Counting is right\<close>

definition letter :: "u8 \<Rightarrow> nat" where
  "letter c = unat (toupper c) - 65"

definition letters_in :: "u8 list \<Rightarrow> nat \<Rightarrow> nat" where
  "letters_in cs i = length (filter (\<lambda>c. isalpha c \<and> letter c = i) cs)"

lemma toupper_range: "isalpha c \<Longrightarrow> 65 \<le> unat (toupper c) \<and> unat (toupper c) \<le> 90"
proof -
  assume a: "isalpha c"
  have "unat (c - 32) = unat c - 32" if "97 \<le> c" using that by (simp add: unat_sub_if_size word_le_nat_alt)
  then show ?thesis using a by (auto simp: isalpha_def toupper_def word_le_nat_alt)
qed

lemma letter_range: "isalpha c \<Longrightarrow> letter c < 26"
  unfolding letter_def using toupper_range [of c] by linarith

lemma count_char_alpha:
  assumes "isalpha c" "length cnt = 26"
  shows "count_char c cnt = Some (cnt[letter c := cnt ! letter c + 1])"
proof -
  have "int (unat (toupper c)) - 65 = int (letter c)" using toupper_range [OF assms(1)] by (simp add: letter_def)
  then show ?thesis using assms letter_range [OF assms(1)] by (simp add: count_char_def c_simps)
qed

definition counted :: "u8 list \<Rightarrow> u32 list" where
  "counted cs = map (\<lambda>i. word_of_nat (letters_in cs i)) [0..<26]"

lemma counted_simps: "length (counted cs) = 26" "i < 26 \<Longrightarrow> counted cs ! i = word_of_nat (letters_in cs i)"
  by (simp_all add: counted_def)

lemma counted_snoc: "count_char c (counted cs) = Some (counted (cs @ [c]))"
proof (cases "isalpha c")
  case True
  have "(counted cs)[letter c := counted cs ! letter c + 1] = counted (cs @ [c])"
    using letter_range [OF True] True
    by (intro nth_equalityI) (auto simp: counted_simps nth_list_update letters_in_def)
  then show ?thesis using count_char_alpha [OF True counted_simps(1)] by simp
next
  case False
  then show ?thesis by (simp add: count_char_def counted_def letters_in_def)
qed

text \<open>The pass in which the loop stops: the first one that finds the thread killed, or the last.\<close>

lemma count_loop_stops:
  assumes "k \<le> n + length rest" "n \<le> k" "\<And>j. n \<le> j \<Longrightarrow> j < k \<Longrightarrow> killedThreadID (env j) \<noteq> tid"
    and "killedThreadID (env k) = tid \<or> k = n + length rest"
  shows "count_loop tid env rest n (counted cs) =
    Some (counted (cs @ take (Suc (k - n)) rest), if killedThreadID (env k) = tid then Some (env k) else None)"
  using assms
proof (induction rest arbitrary: n cs)
  case (Cons c rest)
  show ?case
  proof (cases "k = n")
    case True
    then show ?thesis using Cons.prems(4) by (auto simp: counted_snoc)
  next
    case False
    then have "n + 1 \<le> k" "killedThreadID (env n) \<noteq> tid" using Cons.prems(2, 3) by auto
    then show ?thesis using Cons.IH [of "n + 1" "cs @ [c]"] Cons.prems
      by (simp add: counted_snoc Suc_diff_Suc)
  qed
qed (auto simp: counted_def)

text \<open>
  C18: The counting thread stops in the first pass that finds it killed, or after the last
  byte. Its report names the signal or completion and then, in alphabetical order, each
  letter with the number of times it was read in either case; letters read a hundred times
  or more are left out, as are those not read. No array access leaves the counters.
\<close>

theorem char_thread_report:
  assumes "k \<le> length input" "\<And>j. j < k \<Longrightarrow> killedThreadID (env j) \<noteq> tid"
    and "killedThreadID (env k) = tid \<or> k = length input" "length input < 2 ^ 32"
  shows "processCharacters tid env (Some input) = Some ([Started, Start_time]
    @ (if killedThreadID (env k) = tid then signal_lines (env k) else [Completed])
    @ concat (map (\<lambda>i. let n = letters_in (take (Suc k) input) i in
        if 0 < n \<and> n < 100 then [Count (char_of (i + 65)) n] else []) [0..<26])
    @ [End_time])"
proof -
  let ?cs = "take (Suc k) input"
  have start: "replicate ALPHA_COUNT 0 = counted []"
    by (simp add: counted_def letters_in_def ALPHA_COUNT_def map_replicate_const)
  have loop: "count_loop tid env input 0 (counted []) =
      Some (counted ?cs, if killedThreadID (env k) = tid then Some (env k) else None)"
    using count_loop_stops [of k 0 input env tid "[]"] assms by simp
  have n: "letters_in ?cs i < 2 ^ 32" for i
    using assms(4) length_filter_le [of "\<lambda>c. isalpha c \<and> letter c = i" ?cs] by (simp add: letters_in_def)
  have "flushAndClose (counted ?cs) = concat (map (\<lambda>i. let n = letters_in ?cs i in
        if 0 < n \<and> n < 100 then [Count (char_of (i + 65)) n] else []) [0..<26]) @ [End_time]"
    unfolding flushAndClose_def ALPHA_COUNT_def
  proof (intro arg_cong2 [where f = "(@)"] arg_cong [where f = concat] map_cong refl)
    fix i assume "i \<in> set [0..<26]"
    then have "counted ?cs ! i = word_of_nat (letters_in ?cs i)" by (simp add: counted_simps)
    moreover have "unat (word_of_nat (letters_in ?cs i) :: u32) = letters_in ?cs i"
      using n [of i] by (simp add: unsigned_of_nat take_bit_nat_eq_self)
    ultimately show "(if counted ?cs ! i < 100 \<and> 0 < counted ?cs ! i
        then [Count (char_of (i + 65)) (unat (counted ?cs ! i))] else []) =
      (let n = letters_in ?cs i in if 0 < n \<and> n < 100 then [Count (char_of (i + 65)) n] else [])"
      by (auto simp: word_less_nat_alt Let_def)
  qed
  then show ?thesis using loop by (simp add: processCharacters_def start)
qed

theorem char_thread_report_witness:
  "processCharacters 7 (\<lambda>n. \<lparr>recdSignal = 0, killedThreadID = 0\<rparr>) (Some (map (\<lambda>c. word_of_nat (of_char c)) ''aBzb''))
     = Some ([Started, Start_time, Completed, Count (CHR ''A'') 1, Count (CHR ''B'') 2, Count (CHR ''Z'') 1, End_time])"
proof -
  let ?in = "map (\<lambda>c. word_of_nat (of_char c)) ''aBzb'' :: u8 list" and ?env = "\<lambda>n :: nat. \<lparr>recdSignal = 0, killedThreadID = 0\<rparr>"
  have lines: "concat (map (\<lambda>i. let n = letters_in (take (Suc 4) ?in) i in
        if 0 < n \<and> n < 100 then [Count (char_of (i + 65)) n] else []) [0..<26])
      = [Count (CHR ''A'') 1, Count (CHR ''B'') 2, Count (CHR ''Z'') 1]"
    by code_simp
  have "processCharacters 7 ?env (Some ?in) = Some ([Started, Start_time]
    @ (if killedThreadID (?env 4) = 7 then signal_lines (?env 4) else [Completed])
    @ concat (map (\<lambda>i. let n = letters_in (take (Suc 4) ?in) i in
        if 0 < n \<and> n < 100 then [Count (char_of (i + 65)) n] else []) [0..<26])
    @ [End_time])"
    by (rule char_thread_report) simp_all
  then show ?thesis unfolding lines by simp
qed

subsection \<open>The reporting thread\<close>

definition unkilled :: "u32 \<Rightarrow> cpu_event \<Rightarrow> bool" where
  "unkilled tid e = (case e of Timer_expires \<Rightarrow> True | Loop_pass g \<Rightarrow> killedThreadID g \<noteq> tid)"

definition reporting :: "nat \<Rightarrow> nat \<Rightarrow> nat \<Rightarrow> cpu_state \<Rightarrow> bool" where
  "reporting n ticks m s \<longleftrightarrow> \<not> returned s \<and> open_files s = n + 1 + m \<and>
     clines s = [Started, Start_time] @ replicate m Cpu_line \<and> m + (if CPUUtilFlag s then 1 else 0) \<le> ticks"

lemma reporting_step:
  assumes "reporting n ticks m s" "unkilled tid e" "cpu_event_step lim tid e s = Some s'"
  shows "\<exists>m'. reporting n (ticks + (if e = Timer_expires then 1 else 0)) m' s' \<and> (n + 1 + m \<le> lim \<longrightarrow> n + 1 + m' \<le> lim)"
proof (cases e)
  case Timer_expires
  then have "reporting n (ticks + 1) m s'" using assms
    by (auto simp: reporting_def cpu_event_step_def timerHandler_def split: if_splits)
  then show ?thesis using Timer_expires by auto
next
  case (Loop_pass g)
  show ?thesis
  proof (cases "CPUUtilFlag s")
    case True
    then have "reporting n ticks (Suc m) s' \<and> n + 1 + m < lim" using assms Loop_pass
      by (auto simp: reporting_def cpu_event_step_def cpu_pass_def checkStatFile_def unkilled_def
          replicate_append_same split: if_splits)
    then show ?thesis using Loop_pass by (intro exI [of _ "Suc m"]) simp
  next
    case False
    then have "s' = s" using assms Loop_pass by (simp add: cpu_event_step_def cpu_pass_def unkilled_def reporting_def)
    then show ?thesis using assms(1) Loop_pass by auto
  qed
qed

lemma reporting_run:
  assumes "list_all (unkilled tid) es" "reporting n ticks m s" "n + 1 + m \<le> lim" "reportCPUUtil lim tid es s = Some s'"
  shows "\<exists>m'. reporting n (ticks + length (filter (\<lambda>e. e = Timer_expires) es)) m' s' \<and> n + 1 + m' \<le> lim"
  using assms
proof (induction es arbitrary: ticks m s)
  case (Cons e es)
  then obtain s1 where s1: "cpu_event_step lim tid e s = Some s1" "reportCPUUtil lim tid es s1 = Some s'"
    by (auto simp: bind_eq_Some_conv)
  then obtain m' where "reporting n (ticks + (if e = Timer_expires then 1 else 0)) m' s1" "n + 1 + m' \<le> lim"
    using reporting_step [OF Cons.prems(2) _ s1(1)] Cons.prems(1, 3) by auto
  then show ?case
    using Cons.IH [of "ticks + (if e = Timer_expires then 1 else 0)" m' s1] Cons.prems(1) s1(2)
    by (cases "e = Timer_expires") auto
qed auto

lemma reporting_exhausts:
  assumes "killedThreadID g \<noteq> tid" "\<not> returned s" "open_files s = n + 1 + m" "n + 1 + m \<le> lim" "lim - (n + m) \<le> j"
  shows "reportCPUUtil lim tid (concat (replicate j [Timer_expires, Loop_pass g])) s = None"
  using assms(2-)
proof (induction j arbitrary: s m)
  case (Suc j)
  show ?case
  proof (cases "n + 1 + m < lim")
    case True
    then show ?thesis using Suc.prems assms(1)
      by (simp add: cpu_event_step_def timerHandler_def cpu_pass_def checkStatFile_def
          Suc.IH [of _ "Suc m"])
  next
    case False
    then show ?thesis using Suc.prems assms(1)
      by (simp add: cpu_event_step_def timerHandler_def cpu_pass_def checkStatFile_def)
  qed
qed simp

text \<open>
  Until it is killed the reporting thread writes at most one line per expiry of its timer
  and leaves one file open for each of them; once the files of the process are used up, the
  next report reads from a file that could not be opened.
\<close>

theorem cpu_thread_leaks_files:
  assumes "n < lim" "list_all (unkilled tid) es"
  shows "(\<forall>s. reportCPUUtil lim tid es (cpu_start n) = Some s \<longrightarrow>
      (\<exists>m. \<not> returned s \<and> clines s = [Started, Start_time] @ replicate m Cpu_line \<and>
        m \<le> length (filter (\<lambda>e. e = Timer_expires) es) \<and> open_files s = n + 1 + m \<and> open_files s \<le> lim)) \<and>
    (\<forall>g. killedThreadID g \<noteq> tid \<longrightarrow>
      reportCPUUtil lim tid (concat (replicate (lim - n) [Timer_expires, Loop_pass g])) (cpu_start n) = None)"
proof (intro conjI allI impI)
  fix s assume run: "reportCPUUtil lim tid es (cpu_start n) = Some s"
  have "reporting n 0 0 (cpu_start n)" by (simp add: reporting_def cpu_start_def)
  from reporting_run [OF assms(2) this _ run] assms(1)
  obtain m where "reporting n (length (filter (\<lambda>e. e = Timer_expires) es)) m s" "n + 1 + m \<le> lim" by auto
  then show "\<exists>m. \<not> returned s \<and> clines s = [Started, Start_time] @ replicate m Cpu_line \<and>
        m \<le> length (filter (\<lambda>e. e = Timer_expires) es) \<and> open_files s = n + 1 + m \<and> open_files s \<le> lim"
    by (intro exI [of _ m]) (auto simp: reporting_def split: if_splits)
next
  fix g :: psig assume "killedThreadID g \<noteq> tid"
  then show "reportCPUUtil lim tid (concat (replicate (lim - n) [Timer_expires, Loop_pass g])) (cpu_start n) = None"
    using assms(1) by (intro reporting_exhausts [where n = n and m = 0]) (simp_all add: cpu_start_def)
qed

theorem cpu_thread_leaks_files_witness:
  "reportCPUUtil 6 9 (concat (replicate 3 [Timer_expires, Loop_pass \<lparr>recdSignal = 0, killedThreadID = 0\<rparr>])) (cpu_start 3)
     = None"
  using cpu_thread_leaks_files [of 3 6 9 "[]"] by simp

end
