(* ===== verification/PthreadMain.thy ===== *)
theory PthreadMain
  imports Pthreads
begin

text \<open>
  The function \<^verbatim>\<open>main\<close> of \<^verbatim>\<open>src/HW4/Ques1/pthreadtest.c\<close>: it installs the signal handler, starts the
  counting and the reporting thread on the same file name and waits for both. The two threads
  share the globals the handler writes, so the composition decides which thread sees which signal.

  A run is the list of what happens: a signal delivered to one of the two threads, the timer, a
  pass of either loop. Each pass reads the globals as they are then.
\<close>

datatype main_event = Signal u32 u32 | Char_pass | Cpu_pass | Timer

text \<open>The values the successive passes of the two loops find in the globals.\<close>

fun observe :: "main_event list \<Rightarrow> psig \<Rightarrow> psig list \<times> cpu_event list" where
  "observe [] g = ([], [])"
| "observe (e # es) g =
     (case e of
        Signal tid sig \<Rightarrow> observe es (sigHandler tid sig g)
      | Char_pass \<Rightarrow> let (cs, us) = observe es g in (g # cs, us)
      | Cpu_pass \<Rightarrow> let (cs, us) = observe es g in (cs, Loop_pass g # us)
      | Timer \<Rightarrow> let (cs, us) = observe es g in (cs, Timer_expires # us))"

definition no_signal :: psig where
  "no_signal = \<lparr>recdSignal = 0, killedThreadID = 0\<rparr>"

record joined =
  char_log :: "pline list option"
  cpu_result :: "cpu_state option"

text \<open>
  Both threads of a run. \<open>opened\<close> says whether the output file named on the command line can be opened for
  appending: each thread writes its first line to the stream without a check, so a NULL stream is undefined
  (\<^const>\<open>None\<close>) in both. \<open>file\<close> is the contents of \<^verbatim>\<open>gdb.txt\<close>, \<^const>\<open>None\<close> when it does not exist. The counting
  thread runs to its end, with no new signal after the run.
\<close>

definition pthread_main :: "nat \<Rightarrow> nat \<Rightarrow> u32 \<Rightarrow> u32 \<Rightarrow> bool \<Rightarrow> u8 list option \<Rightarrow> main_event list \<Rightarrow> joined" where
  "pthread_main lim n tid1 tid2 opened file es =
     (if \<not> opened then \<lparr>char_log = None, cpu_result = None\<rparr>
      else let (cs, us) = observe es no_signal;
          g = foldl (\<lambda>g e. case e of Signal t s \<Rightarrow> sigHandler t s g | _ \<Rightarrow> g) no_signal es
      in \<lparr>char_log = processCharacters tid1 (\<lambda>i. if i < length cs then cs ! i else g) file,
          cpu_result = reportCPUUtil lim tid2 us (cpu_start n)\<rparr>)"

text \<open>\<^verbatim>\<open>main\<close> gets past both joins.\<close>

definition main_returns :: "joined \<Rightarrow> bool" where
  "main_returns j = (char_log j \<noteq> None \<and> (case cpu_result j of None \<Rightarrow> False | Some s \<Rightarrow> returned s))"

subsection \<open>Which thread a signal reaches\<close>

definition signals :: "u32 \<Rightarrow> main_event \<Rightarrow> bool" where
  "signals tid e = (case e of Signal t _ \<Rightarrow> t = tid | _ \<Rightarrow> False)"

lemma killed_by_handler [simp]: "killedThreadID (sigHandler t s g) = t"
  by (simp add: sigHandler_def)

lemma observe_append:
  "observe (es @ fs) g =
     (let (cs, us) = observe es g;
          (cs', us') = observe fs (foldl (\<lambda>g e. case e of Signal t s \<Rightarrow> sigHandler t s g | _ \<Rightarrow> g) g es)
      in (cs @ cs', us @ us'))"
  by (induction es arbitrary: g) (auto simp: Let_def split: main_event.splits prod.splits)

text \<open>While no signal goes to a thread that is not already marked, it finds itself not killed.\<close>

lemma unsignalled_unkilled:
  "killedThreadID g \<noteq> tid \<Longrightarrow> list_all (\<lambda>e. \<not> signals tid e) es \<Longrightarrow> list_all (unkilled tid) (snd (observe es g))"
  by (induction es arbitrary: g) (auto simp: signals_def unkilled_def Let_def case_prod_beta split: main_event.splits)

lemma no_pass_no_events:
  "list_all (\<lambda>e. e \<noteq> Cpu_pass) es \<Longrightarrow> list_all (unkilled tid) (snd (observe es g))"
  by (induction es arbitrary: g) (auto simp: unkilled_def Let_def case_prod_beta split: main_event.splits)

lemma unkilled_not_returned:
  assumes "list_all (unkilled tid) us" "\<not> returned s" "reportCPUUtil lim tid us s = Some s'"
  shows "\<not> returned s'"
  using assms
proof (induction us arbitrary: s)
  case (Cons e us)
  then obtain s1 where s1: "cpu_event_step lim tid e s = Some s1" "reportCPUUtil lim tid us s1 = Some s'"
    by (auto simp: bind_eq_Some_conv)
  have "\<not> returned s1"
    using s1(1) Cons.prems(1, 2)
    by (auto simp: cpu_event_step_def timerHandler_def cpu_pass_def checkStatFile_def unkilled_def
        split: cpu_event.splits if_splits)
  then show ?case using Cons.IH s1(2) Cons.prems(1) by simp
qed simp

text \<open>
  C37: the handler records only the thread that got the last signal. If the reporting thread is
  signalled once and the counting thread is signalled before the reporting thread's next pass,
  the first signal is lost: however the run goes on without a further signal to it, the reporting
  thread does not end and \<^verbatim>\<open>main\<close> does not return.
\<close>

theorem second_kill_hides_first:
  assumes "tid1 \<noteq> tid2" "tid2 \<noteq> 0"
    and "list_all (\<lambda>e. \<not> signals tid2 e) pre" "list_all (\<lambda>e. e \<noteq> Cpu_pass) mid"
    and "list_all (\<lambda>e. \<not> signals tid2 e) post"
  shows "\<not> main_returns (pthread_main lim n tid1 tid2 opened file
    (pre @ [Signal tid2 s] @ mid @ [Signal tid1 s'] @ post))"
proof -
  let ?es = "pre @ [Signal tid2 s] @ mid @ [Signal tid1 s'] @ post"
  have "killedThreadID no_signal \<noteq> tid2" using assms(2) by (simp add: no_signal_def)
  then have "list_all (unkilled tid2) (snd (observe ?es no_signal))"
    using assms unsignalled_unkilled [of no_signal tid2 pre] no_pass_no_events [OF assms(4)]
      unsignalled_unkilled [of "sigHandler tid1 s' _" tid2 post]
    by (simp add: observe_append Let_def case_prod_beta)
  then show ?thesis
    using unkilled_not_returned [of tid2 _ "cpu_start n" lim]
    by (auto simp: main_returns_def pthread_main_def cpu_start_def Let_def case_prod_beta split: option.splits)
qed

text \<open>Without the second signal the first one is seen, and \<^verbatim>\<open>main\<close> returns.\<close>

theorem second_kill_hides_first_witness:
  "\<not> main_returns (pthread_main 20 3 5 6 True (Some [65]) ([] @ [Signal 6 10] @ [] @ [Signal 5 10] @ [Char_pass, Cpu_pass])) \<and>
   main_returns (pthread_main 20 3 5 6 True (Some [65]) [Signal 6 10, Cpu_pass, Signal 5 10, Char_pass])"
proof
  show "\<not> main_returns (pthread_main 20 3 5 6 True (Some [65]) ([] @ [Signal 6 10] @ [] @ [Signal 5 10] @ [Char_pass, Cpu_pass]))"
    by (rule second_kill_hides_first) (simp_all add: signals_def)
  show "main_returns (pthread_main 20 3 5 6 True (Some [65]) [Signal 6 10, Cpu_pass, Signal 5 10, Char_pass])"
    by (simp add: main_returns_def pthread_main_def processCharacters_def ALPHA_COUNT_def count_char_def isalpha_def
        toupper_def c_read_def c_write_def no_signal_def cpu_event_step_def cpu_pass_def cpu_start_def)
qed

end
