(* ===== verification/SystemInfo.thy ===== *)
theory SystemInfo
  imports Prelude
begin

unbundle bit_operations_syntax

text \<open>
  Memory and load statistics (\<^verbatim>\<open>src/HW2/Ques5/sys.c\<close>: \<^verbatim>\<open>do_sysinfo\<close>, the call \<^verbatim>\<open>sysinfo\<close> and its
  compat variant). \<^verbatim>\<open>unsigned long\<close> is a word of width \<open>'w\<close>; the compat variant exists on 64-bit
  kernels only. The sources of the numbers (boot time, load averages, \<^verbatim>\<open>si_meminfo\<close>,
  \<^verbatim>\<open>si_swapinfo\<close>) and user memory are parameters.

  The memory counters are given in units of \<^verbatim>\<open>mem_unit\<close> bytes. The results: the conversion to
  bytes happens exactly when the sum of RAM and swap fits an \<^verbatim>\<open>unsigned long\<close> and it keeps every
  byte count; the compat conversion loses less than one unit.
\<close>

subsection \<open>Data\<close>

record 'u sysinfo =
  uptime :: 'u
  loads :: "'u \<times> 'u \<times> 'u"
  totalram :: 'u
  freeram :: 'u
  sharedram :: 'u
  bufferram :: 'u
  totalswap :: 'u
  freeswap :: 'u
  procs :: u16
  totalhigh :: 'u
  freehigh :: 'u
  mem_unit :: u32

record ('u, 'k) sienv =
  get_monotonic_boottime :: "'k \<Rightarrow> 'u \<times> 'u"
  get_avenrun :: "'k \<Rightarrow> 'u \<times> 'u \<times> 'u"
  nr_threads :: "'k \<Rightarrow> int"
  si_meminfo :: "'k \<Rightarrow> 'u sysinfo \<Rightarrow> 'u sysinfo"
  si_swapinfo :: "'k \<Rightarrow> 'u sysinfo \<Rightarrow> 'u sysinfo"
  copy_sysinfo_to_user :: "nat \<Rightarrow> 'u sysinfo \<Rightarrow> 'k \<Rightarrow> 'k option"

text \<open>\<^verbatim>\<open>memset(info, 0, sizeof(struct sysinfo))\<close>.\<close>

definition zero_sysinfo :: "'w::len word sysinfo" where
  "zero_sysinfo = \<lparr>uptime = 0, loads = (0, 0, 0), totalram = 0, freeram = 0, sharedram = 0, bufferram = 0,
     totalswap = 0, freeswap = 0, procs = 0, totalhigh = 0, freehigh = 0, mem_unit = 0\<rparr>"

subsection \<open>Conversion to bytes\<close>

lemma unat_drop_bit_Suc_0: "unat (drop_bit (Suc 0) (w :: 'a::len word)) = unat w div 2"
  unfolding unat_drop_bit_eq by (simp add: drop_bit_Suc)

text \<open>
  The loop that counts the doublings of \<^verbatim>\<open>mem_unit\<close>; \<^const>\<open>None\<close> is the jump to \<^verbatim>\<open>out\<close> when the
  doubled total wraps.
\<close>

function count_unit_bits :: "u32 \<Rightarrow> nat \<Rightarrow> 'w::len word \<Rightarrow> nat option" where
  "count_unit_bits unit bitcount mem_total =
     (if 1 < unit then
        (let sav_total = mem_total; mem_total = push_bit 1 mem_total in
         if mem_total < sav_total then None
         else count_unit_bits (drop_bit 1 unit) (bitcount + 1) mem_total)
      else Some bitcount)"
  by pat_completeness auto

termination
  by (relation "measure (\<lambda>(unit, _, _). unat unit)")
    (auto simp: unat_drop_bit_Suc_0 word_less_nat_alt)

declare count_unit_bits.simps [simp del]

definition shift_memory :: "('u \<Rightarrow> 'u) \<Rightarrow> 'u sysinfo \<Rightarrow> 'u sysinfo" where
  "shift_memory sh i = i
     \<lparr>totalram := sh (totalram i), freeram := sh (freeram i), sharedram := sh (sharedram i),
      bufferram := sh (bufferram i), totalswap := sh (totalswap i), freeswap := sh (freeswap i),
      totalhigh := sh (totalhigh i), freehigh := sh (freehigh i)\<rparr>"

text \<open>The structure as the kernel's statistics fill it, before the conversion.\<close>

definition gather_sysinfo :: "('w::len word, 'k) sienv \<Rightarrow> 'k \<Rightarrow> 'w word sysinfo" where
  "gather_sysinfo E k =
     (let info = zero_sysinfo;
          (tv_sec, tv_nsec) = get_monotonic_boottime E k;
          info = info\<lparr>uptime := tv_sec + (if tv_nsec \<noteq> 0 then 1 else 0)\<rparr>;
          info = info\<lparr>loads := get_avenrun E k\<rparr>;
          info = info\<lparr>procs := word_of_int (nr_threads E k)\<rparr>;
          info = si_meminfo E k info
      in si_swapinfo E k info)"

definition do_sysinfo :: "('w::len word, 'k) sienv \<Rightarrow> 'k \<Rightarrow> 'w word sysinfo" where
  "do_sysinfo E k =
     (let info = gather_sysinfo E k;
          mem_total = totalram info + totalswap info
      in if mem_total < totalram info \<or> mem_total < totalswap info then info
         else case count_unit_bits (mem_unit info) 0 mem_total of
                None \<Rightarrow> info
              | Some bitcount \<Rightarrow> shift_memory (push_bit bitcount) (info\<lparr>mem_unit := 1\<rparr>))"

definition sysinfo_call :: "('w::len word, 'k) sienv \<Rightarrow> nat \<Rightarrow> 'k \<Rightarrow> int \<times> 'k" where
  "sysinfo_call E p k =
     (case copy_sysinfo_to_user E p (do_sysinfo E k) k of
        None \<Rightarrow> (- EFAULT, k)
      | Some k \<Rightarrow> (0, k))"

subsection \<open>The compat variant\<close>

datatype compat_field =
  CUptime | CLoad nat | CTotalram | CFreeram | CSharedram | CBufferram | CTotalswap | CFreeswap |
  CProcs | CTotalhigh | CFreehigh | CMem_unit

record 'k compat_access =
  access_ok :: "nat \<Rightarrow> 'k \<Rightarrow> bool"
  put_field :: "nat \<Rightarrow> compat_field \<Rightarrow> u32 \<Rightarrow> 'k \<Rightarrow> 'k option"

partial_function (option) raise_unit :: "u64 \<Rightarrow> u32 \<Rightarrow> nat \<Rightarrow> (u32 \<times> nat) option" where
  [code]: "raise_unit PAGE_SIZE unit bitcount =
     (if ucast unit < PAGE_SIZE then raise_unit PAGE_SIZE (push_bit 1 unit) (bitcount + 1)
      else Some (unit, bitcount))"

text \<open>The structure after the conversion to units that fit 32 bits; \<^const>\<open>None\<close> if the loop does not end.\<close>

definition scale_down :: "u64 \<Rightarrow> u64 sysinfo \<Rightarrow> u64 sysinfo option" where
  "scale_down PAGE_SIZE s =
     (if drop_bit 32 (totalram s) \<noteq> 0 \<or> drop_bit 32 (totalswap s) \<noteq> 0 then
        do {
          (unit, bitcount) \<leftarrow> raise_unit PAGE_SIZE (mem_unit s) 0;
          Some (shift_memory (drop_bit bitcount) (s\<lparr>mem_unit := unit\<rparr>))
        }
      else Some s)"

text \<open>The values stored by \<^verbatim>\<open>__put_user\<close>, converted to the 32-bit fields, in order.\<close>

definition compat_fields :: "u64 sysinfo \<Rightarrow> (compat_field \<times> u32) list" where
  "compat_fields s =
     [(CUptime, ucast (uptime s)), (CLoad 0, ucast (fst (loads s))), (CLoad 1, ucast (fst (snd (loads s)))),
      (CLoad 2, ucast (snd (snd (loads s)))), (CTotalram, ucast (totalram s)), (CFreeram, ucast (freeram s)),
      (CSharedram, ucast (sharedram s)), (CBufferram, ucast (bufferram s)),
      (CTotalswap, ucast (totalswap s)), (CFreeswap, ucast (freeswap s)), (CProcs, ucast (procs s)),
      (CTotalhigh, ucast (totalhigh s)), (CFreehigh, ucast (freehigh s)), (CMem_unit, mem_unit s)]"

fun put_fields :: "'k compat_access \<Rightarrow> nat \<Rightarrow> (compat_field \<times> u32) list \<Rightarrow> 'k \<Rightarrow> bool \<times> 'k" where
  "put_fields A p [] k = (True, k)"
| "put_fields A p ((f, v) # fs) k =
     (case put_field A p f v k of None \<Rightarrow> (False, k) | Some k \<Rightarrow> put_fields A p fs k)"

definition compat_sysinfo :: "u64 \<Rightarrow> (u64, 'k) sienv \<Rightarrow> 'k compat_access \<Rightarrow> nat \<Rightarrow> 'k \<Rightarrow> (int \<times> 'k) option" where
  "compat_sysinfo PAGE_SIZE E A p k = do {
     s \<leftarrow> scale_down PAGE_SIZE (do_sysinfo E k);
     Some (if \<not> access_ok A p k then (- EFAULT, k)
           else let (ok, k) = put_fields A p (compat_fields s) k in (if ok then 0 else - EFAULT, k))
   }"


subsection \<open>The loops\<close>

lemma unat_push_bit:
  "unat (push_bit n (w :: 'w::len word)) = unat w * 2 ^ n mod 2 ^ LENGTH('w)"
  unfolding unsigned_push_bit_eq by (simp add: push_bit_eq_mult take_bit_eq_mod)

lemma mod_once: "b \<le> a \<Longrightarrow> a < 2 * b \<Longrightarrow> a mod b = a - b" for a b :: nat
  by (simp add: le_mod_geq)

lemma wrapped_sum_less_iff:
  fixes a b n :: nat
  assumes "a < n" "b < n"
  shows "(a + b) mod n < a \<longleftrightarrow> n \<le> a + b"
proof (cases "n \<le> a + b")
  case True
  then have "(a + b) mod n = a + b - n" using assms by (intro mod_once) simp_all
  then show ?thesis using True assms by linarith
qed simp

lemma double_wraps_iff: "(w :: 'w::len word) * 2 < w \<longleftrightarrow> 2 ^ LENGTH('w) \<le> 2 * unat w"
  unfolding mult_2_right mult_2 word_less_nat_alt unat_word_ariths
  by (rule wrapped_sum_less_iff) (rule unat_bound)+

lemma sum_overflows_iff:
  "(a :: 'w::len word) + b < a \<or> a + b < b \<longleftrightarrow> 2 ^ LENGTH('w) \<le> unat a + unat b"
  using wrapped_sum_less_iff [OF unat_bound [of a] unat_bound [of b]]
    wrapped_sum_less_iff [OF unat_bound [of b] unat_bound [of a]]
  by (simp add: word_less_nat_alt unat_word_ariths add.commute)

lemma unat_pow2: "k < LENGTH('w) \<Longrightarrow> unat (2 ^ k :: 'w::len word) = 2 ^ k"
  by (metis of_nat_numeral of_nat_power take_bit_nat_eq_self unsigned_of_nat power_strict_increasing one_less_numeral_iff semiring_norm(76))

lemma count_unit_bits_pow2:
  "k < 32 \<Longrightarrow> count_unit_bits (2 ^ k) b (t :: 'w::len word)
     = (if unat t * 2 ^ k < 2 ^ LENGTH('w) then Some (b + k) else None)"
proof (induction k arbitrary: b t)
  case 0
  then show ?case by (subst count_unit_bits.simps) simp
next
  case (Suc k)
  have gt: "1 < (2 ^ Suc k :: u32)"
    using Suc.prems one_less_power [of "2 :: nat" "Suc k"] unat_pow2 [of "Suc k", where 'w = 32]
    unfolding word_less_nat_alt by simp
  have half: "drop_bit 1 (2 ^ Suc k :: u32) = 2 ^ k"
    using Suc.prems unat_pow2 [of "Suc k", where 'w = 32] unat_pow2 [of k, where 'w = 32]
    by (simp add: word_unat_eq_iff unat_drop_bit_Suc_0)
  show ?case
  proof (cases "2 ^ LENGTH('w) \<le> 2 * unat t")
    case True
    moreover have "2 * unat t \<le> unat t * 2 ^ Suc k" by simp
    ultimately have "\<not> unat t * 2 ^ Suc k < 2 ^ LENGTH('w)" by linarith
    then show ?thesis using gt True by (subst count_unit_bits.simps) (simp add: double_wraps_iff Let_def)
  next
    case False
    then have "unat (push_bit 1 t) = 2 * unat t" using unat_push_bit [of 1 t] by (simp add: mult.commute)
    then show ?thesis
      using gt half False Suc.IH [of "b + 1" "push_bit 1 t"] Suc.prems
      by (subst count_unit_bits.simps) (simp add: double_wraps_iff Let_def mult.assoc mult.left_commute)
  qed
qed

lemma raise_unit_pow2:
  assumes "p < 32"
  shows "j \<le> p \<Longrightarrow> raise_unit (2 ^ p) (2 ^ j) b = Some (2 ^ p, b + (p - j))"
proof (induction "p - j" arbitrary: j b)
  case 0
  then have "\<not> (ucast (2 ^ j :: u32) :: u64) < 2 ^ p"
    using assms by (simp add: word_less_nat_alt unsigned_ucast_eq take_bit_nat_eq_self unat_pow2)
  then show ?case using 0 by (subst raise_unit.simps) simp
next
  case (Suc d)
  then have j: "Suc j \<le> p" by simp
  have "(ucast (2 ^ j :: u32) :: u64) < 2 ^ p"
    using j assms by (simp add: word_less_nat_alt unsigned_ucast_eq take_bit_nat_eq_self unat_pow2)
  then show ?case using Suc.hyps(1) [of "Suc j" "b + 1"] Suc.hyps(2) j
    by (subst raise_unit.simps) (simp add: push_bit_eq_mult Suc_diff_Suc mult.commute)
qed

subsection \<open>Byte counts\<close>

definition counters :: "'u sysinfo \<Rightarrow> 'u list" where
  "counters i = [totalram i, freeram i, sharedram i, bufferram i, totalswap i, freeswap i,
     totalhigh i, freehigh i]"

definition byte_counts :: "'w::len word sysinfo \<Rightarrow> nat list" where
  "byte_counts i = map (\<lambda>c. unat c * unat (mem_unit i)) (counters i)"

text \<open>What the statistics promise: no counter exceeds both totals.\<close>

definition counters_bounded :: "'w::len word sysinfo \<Rightarrow> bool" where
  "counters_bounded i = (\<forall>c\<in>set (counters i). c \<le> totalram i \<or> c \<le> totalswap i)"

lemma counters_shift_memory [simp]:
  "counters (shift_memory sh (i\<lparr>mem_unit := u\<rparr>)) = map sh (counters i)"
  "mem_unit (shift_memory sh i) = mem_unit i"
  "totalram (shift_memory sh i) = sh (totalram i)" "totalswap (shift_memory sh i) = sh (totalswap i)"
  by (simp_all add: counters_def shift_memory_def)

lemma totals_in_counters: "totalram i \<in> set (counters i)" "totalswap i \<in> set (counters i)"
  by (simp_all add: counters_def)

text \<open>The conversion in closed form.\<close>

lemma do_sysinfo_cases:
  fixes E :: "('w::len word, 'k) sienv"
  assumes "mem_unit (gather_sysinfo E k) = 2 ^ j" "j < 32"
  defines "g \<equiv> gather_sysinfo E k"
  shows "do_sysinfo E k =
    (if (unat (totalram g) + unat (totalswap g)) * 2 ^ j < 2 ^ LENGTH('w)
     then shift_memory (push_bit j) (g\<lparr>mem_unit := 1\<rparr>) else g)"
proof (cases "2 ^ LENGTH('w) \<le> unat (totalram g) + unat (totalswap g)")
  case True
  have "unat (totalram g) + unat (totalswap g) \<le> (unat (totalram g) + unat (totalswap g)) * 2 ^ j"
    by simp
  then have "\<not> (unat (totalram g) + unat (totalswap g)) * 2 ^ j < 2 ^ LENGTH('w)"
    using True by linarith
  then show ?thesis
    using True sum_overflows_iff [of "totalram g" "totalswap g"]
    by (auto simp: do_sysinfo_def g_def [symmetric] Let_def)
next
  case False
  then have "unat (totalram g + totalswap g) = unat (totalram g) + unat (totalswap g)"
    by (simp add: unat_word_ariths)
  then show ?thesis
    using assms(1, 2) False sum_overflows_iff [of "totalram g" "totalswap g"]
      count_unit_bits_pow2 [of j 0 "totalram g + totalswap g"]
    by (auto simp: do_sysinfo_def g_def [symmetric] Let_def)
qed

lemma counter_le_sum:
  "counters_bounded i \<Longrightarrow> c \<in> set (counters i) \<Longrightarrow> unat c \<le> unat (totalram i) + unat (totalswap i)"
  by (auto simp: counters_bounded_def word_le_nat_alt)

lemma shifted_counter:
  assumes "counters_bounded (i :: 'w::len word sysinfo)" "c \<in> set (counters i)"
    and "(unat (totalram i) + unat (totalswap i)) * 2 ^ j < 2 ^ LENGTH('w)"
  shows "unat (push_bit j c) = unat c * 2 ^ j"
proof -
  have "unat c * 2 ^ j < 2 ^ LENGTH('w)"
    using mult_le_mono1 [OF counter_le_sum [OF assms(1, 2)], of "2 ^ j"] assms(3) by (rule le_less_trans)
  then show ?thesis by (simp only: unat_push_bit mod_less)
qed

lemma do_sysinfo_bytes:
  fixes E :: "('w::len word, 'k) sienv"
  assumes "mem_unit (gather_sysinfo E k) = 2 ^ j" "j < 32" "counters_bounded (gather_sysinfo E k)"
  shows "byte_counts (do_sysinfo E k) = byte_counts (gather_sysinfo E k)"
  using shifted_counter [OF assms(3)] unat_pow2 [of j, where 'w = 32] assms(2)
  by (auto simp: do_sysinfo_cases [OF assms(1, 2)] byte_counts_def assms(1))

text \<open>
  C23: if the kernel's statistics come in units of a power of two and no counter exceeds both the
  RAM and the swap total, \<^verbatim>\<open>do_sysinfo\<close> reports every memory counter with its exact number of
  bytes, whatever the width of \<^verbatim>\<open>unsigned long\<close>; it reports bytes (unit 1) exactly if the sum of
  RAM and swap in bytes fits an \<^verbatim>\<open>unsigned long\<close>, and the statistics' own unit otherwise.
\<close>

theorem sysinfo_keeps_byte_counts:
  fixes E :: "('w::len word, 'k) sienv"
  assumes "mem_unit (gather_sysinfo E k) = 2 ^ j" "j < 32" "counters_bounded (gather_sysinfo E k)"
  shows "byte_counts (do_sysinfo E k) = byte_counts (gather_sysinfo E k) \<and>
    mem_unit (do_sysinfo E k) =
      (if (unat (totalram (gather_sysinfo E k)) + unat (totalswap (gather_sysinfo E k))) * 2 ^ j
            < 2 ^ LENGTH('w) then 1 else 2 ^ j)"
  using do_sysinfo_bytes [OF assms] by (simp add: do_sysinfo_cases [OF assms(1, 2)] assms(1))

text \<open>A machine with 3 GiB of RAM in pages of 4 KiB: a 32-bit kernel reports bytes.\<close>

definition sample_env :: "u32 \<Rightarrow> (u32, unit) sienv" where
  "sample_env swap = \<lparr>get_monotonic_boottime = (\<lambda>_. (7, 1)), get_avenrun = (\<lambda>_. (1, 2, 3)), nr_threads = (\<lambda>_. 70000),
     si_meminfo = (\<lambda>_ i. i\<lparr>totalram := 786432, freeram := 1000, mem_unit := 4096\<rparr>),
     si_swapinfo = (\<lambda>_ i. i\<lparr>totalswap := swap, freeswap := 5\<rparr>), copy_sysinfo_to_user = (\<lambda>_ _ _. None)\<rparr>"

lemma gather_sample:
  "gather_sysinfo (sample_env swap) () = zero_sysinfo\<lparr>uptime := 8, loads := (1, 2, 3), procs := 4464,
     totalram := 786432, freeram := 1000, mem_unit := 4096, totalswap := swap, freeswap := 5\<rparr>"
  by (simp add: gather_sysinfo_def sample_env_def)

theorem sysinfo_keeps_byte_counts_witness:
  "byte_counts (do_sysinfo (sample_env 9) ()) = [3221225472, 4096000, 0, 0, 36864, 20480, 0, 0] \<and>
   mem_unit (do_sysinfo (sample_env 9) ()) = 1 \<and>
   mem_unit (do_sysinfo (sample_env 300000) ()) = 4096"
proof -
  have raw: "byte_counts (gather_sysinfo (sample_env 9) ()) = [3221225472, 4096000, 0, 0, 36864, 20480, 0, 0]"
    by (simp add: gather_sample zero_sysinfo_def byte_counts_def counters_def)
  show ?thesis
    using sysinfo_keeps_byte_counts [of "sample_env 9" "()" 12]
      sysinfo_keeps_byte_counts [of "sample_env 300000" "()" 12]
    by (simp add: raw) (simp add: gather_sample zero_sysinfo_def counters_bounded_def counters_def)
qed

subsection \<open>The 32-bit view\<close>

text \<open>The memory counters and the unit as the compat structure holds them.\<close>

definition stored :: "u64 sysinfo \<Rightarrow> compat_field \<Rightarrow> u32" where
  "stored s f = the (map_of (compat_fields s) f)"

definition stored_counters :: "u64 sysinfo \<Rightarrow> u32 list" where
  "stored_counters s = map (stored s)
     [CTotalram, CFreeram, CSharedram, CBufferram, CTotalswap, CFreeswap, CTotalhigh, CFreehigh]"

lemma stored_simps: "stored_counters s = map ucast (counters s)" "stored s CMem_unit = mem_unit s"
  by (simp_all add: stored_counters_def stored_def counters_def compat_fields_def)

lemma do_sysinfo_bounded:
  assumes "mem_unit (gather_sysinfo E k) = 2 ^ j" "j < 32" "counters_bounded (gather_sysinfo E k)"
  shows "counters_bounded (do_sysinfo E k)"
  using assms(3) shifted_counter [OF assms(3)] totals_in_counters [of "gather_sysinfo E k"]
  by (auto simp: do_sysinfo_cases [OF assms(1, 2)] counters_bounded_def word_le_nat_alt)

lemma do_sysinfo_unit:
  assumes "mem_unit (gather_sysinfo E k) = 2 ^ j" "j < 32"
  obtains i where "mem_unit (do_sysinfo E k) = 2 ^ i" "i \<le> j"
  using that [of 0] that [of j] by (cases "mem_unit (do_sysinfo E k) = 1")
    (auto simp: do_sysinfo_cases [OF assms] assms(1) split: if_splits)

lemma floor_unit:
  fixes c a i p :: nat
  assumes "i \<le> p" "a = c * 2 ^ i"
  shows "c div 2 ^ (p - i) * 2 ^ p \<le> a \<and> a < (c div 2 ^ (p - i) + 1) * 2 ^ p"
proof -
  define d where "d = (2 :: nat) ^ (p - i)"
  have p: "2 ^ p = d * 2 ^ i" using assms(1) by (simp add: d_def flip: power_add)
  have low: "c div d * d \<le> c" and high: "c < (c div d + 1) * d"
    using dividend_less_div_times [of d c] by (simp_all add: d_def)
  have "c div d * d * 2 ^ i \<le> c * 2 ^ i" using low by (rule mult_le_mono1)
  moreover have "c * 2 ^ i < (c div d + 1) * d * 2 ^ i" using high by (rule mult_less_mono1) simp
  ultimately show ?thesis unfolding p assms(2) d_def [symmetric] by (simp only: mult.assoc)
qed

lemma ucast_below: "unat (c :: u64) < 2 ^ 32 \<Longrightarrow> unat (ucast c :: u32) = unat c"
  by (simp add: unsigned_ucast_eq take_bit_nat_eq_self)

lemma upper_zero: "drop_bit 32 (c :: u64) = 0 \<longleftrightarrow> unat c < 2 ^ 32"
proof -
  have "drop_bit 32 c = 0 \<longleftrightarrow> unat c div 2 ^ 32 = 0"
    unfolding word_unat_eq_iff unat_drop_bit_eq by (simp add: drop_bit_eq_div)
  then show ?thesis by (simp add: div_eq_0_iff)
qed

text \<open>One counter: what the 32-bit field says of the 64-bit value.\<close>

lemma scaled_counter:
  assumes "i \<le> p" "unat c * 2 ^ i < 2 ^ (32 + p)"
  shows "unat (ucast (drop_bit (p - i) (c :: u64)) :: u32) = unat c div 2 ^ (p - i)"
proof -
  have "unat c * 2 ^ i < 2 ^ 32 * 2 ^ (p - i) * 2 ^ i"
    using assms by (simp only: mult.assoc flip: power_add) simp
  then have "unat c div 2 ^ (p - i) < 2 ^ 32" by (simp add: less_mult_imp_div_less)
  then show ?thesis
    using ucast_below [of "drop_bit (p - i) c"] unfolding unat_drop_bit_eq drop_bit_eq_div [where 'a = nat] by simp
qed

text \<open>
  on a 64-bit kernel with pages of \<open>2 ^ p\<close> bytes whose RAM and swap each take less than
  \<open>2 ^ (32 + p)\<close> bytes (16 TiB for 4 KiB pages), the compat \<^verbatim>\<open>sysinfo\<close> returns, and each of the
  32-bit counters it stores, times the stored unit, is the kernel's byte count rounded down by less
  than one unit.
\<close>

theorem compat_sysinfo_rounds_down:
  fixes E :: "(u64, 'k) sienv"
  assumes unit: "mem_unit (gather_sysinfo E k) = 2 ^ j" "j \<le> p" "p < 32"
    and bounded: "counters_bounded (gather_sysinfo E k)"
    and totals: "unat (totalram (gather_sysinfo E k)) * 2 ^ j < 2 ^ (32 + p)"
      "unat (totalswap (gather_sysinfo E k)) * 2 ^ j < 2 ^ (32 + p)"
  shows "\<exists>s. scale_down (2 ^ p) (do_sysinfo E k) = Some s \<and>
    compat_sysinfo (2 ^ p) E A a k =
      Some (if \<not> access_ok A a k then (- 14, k)
            else let (ok, k) = put_fields A a (compat_fields s) k in (if ok then 0 else - 14, k)) \<and>
    list_all2 (\<lambda>b c. unat c * unat (stored s CMem_unit) \<le> b \<and> b < (unat c + 1) * unat (stored s CMem_unit))
      (byte_counts (gather_sysinfo E k)) (stored_counters s)"
proof -
  define d where "d = do_sysinfo E k"
  have j: "j < 32" using unit by simp
  note d = do_sysinfo_bytes [OF unit(1) j bounded] do_sysinfo_bounded [OF unit(1) j bounded]
  obtain i where i: "mem_unit d = 2 ^ i" "i \<le> p"
    using do_sysinfo_unit [OF unit(1) j] unit(2) unfolding d_def by (metis order_trans)
  have ui: "unat (2 ^ i :: u32) = 2 ^ i" and up: "unat (2 ^ p :: u32) = 2 ^ p"
    using i(2) unit(3) by (simp_all add: unat_pow2)
  have bytes: "byte_counts (gather_sysinfo E k) = map (\<lambda>c. unat c * 2 ^ i) (counters d)"
    using d(1) byte_counts_def [of d] by (simp add: d_def [symmetric] i(1) ui)
  have tot: "unat (totalram d) * 2 ^ i < 2 ^ (32 + p)" "unat (totalswap d) * 2 ^ i < 2 ^ (32 + p)"
    using bytes totals unat_pow2 [of j, where 'w = 32] j
    by (simp_all add: byte_counts_def counters_def unit(1))
  have small: "unat c * 2 ^ i < 2 ^ (32 + p)" if c: "c \<in> set (counters d)" for c
    using d(2) c tot le_less_trans [OF mult_le_mono1]
    unfolding counters_bounded_def d_def [symmetric] word_le_nat_alt by blast
  show ?thesis
  proof (cases "drop_bit 32 (totalram d) \<noteq> 0 \<or> drop_bit 32 (totalswap d) \<noteq> 0")
    case True
    define s where "s = shift_memory (drop_bit (p - i)) (d\<lparr>mem_unit := 2 ^ p\<rparr>)"
    have "scale_down (2 ^ p) d = Some s"
      using True i raise_unit_pow2 [OF unit(3) i(2), of 0] by (simp add: scale_down_def s_def)
    moreover have "list_all2 (\<lambda>b c. unat c * unat (stored s CMem_unit) \<le> b \<and> b < (unat c + 1) * unat (stored s CMem_unit))
      (byte_counts (gather_sysinfo E k)) (stored_counters s)"
      unfolding bytes stored_simps s_def counters_shift_memory list.map_comp o_def list_all2_map1 list_all2_map2
      using floor_unit [OF i(2) refl] scaled_counter [OF i(2) small] up
      by (auto simp: list_all2_same)
    ultimately show ?thesis by (auto simp: compat_sysinfo_def d_def)
  next
    case False
    then have "unat c < 2 ^ 32" if "c \<in> set (counters d)" for c
      using d(2) that by (auto simp: counters_bounded_def d_def [symmetric] word_le_nat_alt upper_zero)
    then have "list_all2 (\<lambda>b c. unat c * unat (stored d CMem_unit) \<le> b \<and> b < (unat c + 1) * unat (stored d CMem_unit))
      (byte_counts (gather_sysinfo E k)) (stored_counters d)"
      by (auto simp: bytes stored_simps list_all2_map1 list_all2_map2 list_all2_same ucast_below i(1) ui)
    moreover have "scale_down (2 ^ p) d = Some d" using False by (simp add: scale_down_def)
    ultimately show ?thesis by (auto simp: compat_sysinfo_def d_def)
  qed
qed

text \<open>A machine with 8 GiB of RAM in pages of 4 KiB, whose user memory takes every store.\<close>

definition sample_env64 :: "(u64, (compat_field \<times> u32) list) sienv" where
  "sample_env64 = \<lparr>get_monotonic_boottime = (\<lambda>_. (7, 0)), get_avenrun = (\<lambda>_. (1, 2, 3)), nr_threads = (\<lambda>_. 100),
     si_meminfo = (\<lambda>_ i. i\<lparr>totalram := 2097152, freeram := 1000, mem_unit := 4096\<rparr>),
     si_swapinfo = (\<lambda>_ i. i), copy_sysinfo_to_user = (\<lambda>_ _ _. None)\<rparr>"

definition sample_access :: "(compat_field \<times> u32) list compat_access" where
  "sample_access = \<lparr>access_ok = (\<lambda>_ _. True), put_field = (\<lambda>_ f v k. Some (k @ [(f, v)]))\<rparr>"

lemma gather_sample64:
  "gather_sysinfo sample_env64 k = zero_sysinfo\<lparr>uptime := 7, loads := (1, 2, 3), procs := 100,
     totalram := 2097152, freeram := 1000, mem_unit := 4096\<rparr>"
  by (simp add: gather_sysinfo_def sample_env64_def)

theorem compat_sysinfo_rounds_down_witness:
  "\<exists>s. scale_down (2 ^ 12) (do_sysinfo sample_env64 []) = Some s \<and>
    list_all2 (\<lambda>b c. unat c * unat (stored s CMem_unit) \<le> b \<and> b < (unat c + 1) * unat (stored s CMem_unit))
      [8589934592, 4096000, 0, 0, 0, 0, 0, 0] (stored_counters s)"
proof -
  have raw: "byte_counts (gather_sysinfo sample_env64 []) = [8589934592, 4096000, 0, 0, 0, 0, 0, 0]"
    by (simp add: gather_sample64 zero_sysinfo_def byte_counts_def counters_def)
  have hyps: "mem_unit (gather_sysinfo sample_env64 []) = 2 ^ 12" "counters_bounded (gather_sysinfo sample_env64 [])"
    "unat (totalram (gather_sysinfo sample_env64 [])) * 2 ^ 12 < 2 ^ (32 + 12)"
    "unat (totalswap (gather_sysinfo sample_env64 [])) * 2 ^ 12 < 2 ^ (32 + 12)"
    by (simp_all add: gather_sample64 zero_sysinfo_def counters_bounded_def counters_def)
  show ?thesis
    using compat_sysinfo_rounds_down [where A = sample_access and a = 0, OF hyps(1) order_refl _ hyps(2-4), unfolded raw]
    by auto
qed

end
