(* ===== verification/UserMemory.thy ===== *)
theory UserMemory
  imports Prelude
begin

text \<open>
  The byte interface between system calls and user memory: \<^verbatim>\<open>copy_to_user\<close>, \<^verbatim>\<open>copy_from_user\<close>
  and the \<^verbatim>\<open>put_user\<close> family of the kernel, which the sources only call. They are the fields of a
  record; what is documented of them is the locale \<open>user_memory\<close>. A copy that reports success has
  stored every byte and touched no other; one that fails may have stored a part.
\<close>

record 'm umem_ops =
  to_user :: "nat \<Rightarrow> u8 list \<Rightarrow> 'm \<Rightarrow> bool \<times> 'm"
  from_user :: "nat \<Rightarrow> nat \<Rightarrow> 'm \<Rightarrow> u8 list option"

definition slice :: "(nat \<Rightarrow> u8) \<Rightarrow> nat \<Rightarrow> nat \<Rightarrow> u8 list" where
  "slice b a n = map b [a..<a + n]"

text \<open>The contents of memory with the bytes \<open>bs\<close> stored from address \<open>a\<close> on.\<close>

definition store :: "nat \<Rightarrow> u8 list \<Rightarrow> (nat \<Rightarrow> u8) \<Rightarrow> nat \<Rightarrow> u8" where
  "store a bs b x = (if a \<le> x \<and> x < a + length bs then bs ! (x - a) else b x)"

lemma length_slice [simp]: "length (slice b a n) = n"
  by (simp add: slice_def)

lemma nth_slice [simp]: "i < n \<Longrightarrow> slice b a n ! i = b (a + i)"
  by (simp add: slice_def)

lemma slice_store_same [simp]: "n = length bs \<Longrightarrow> slice (store a bs b) a n = bs"
  by (rule nth_equalityI) (simp_all add: store_def)

lemma slice_store_disjoint:
  "a + length bs \<le> c \<or> c + n \<le> a \<Longrightarrow> slice (store a bs b) c n = slice b c n"
  by (rule nth_equalityI) (auto simp: store_def)

lemma slice_store_inside:
  "a \<le> c \<Longrightarrow> c + n \<le> a + length bs \<Longrightarrow> slice (store a bs b) c n = take n (drop (c - a) bs)"
  by (rule nth_equalityI) (auto simp: store_def algebra_simps)

lemma store_outside: "x < a \<or> a + length bs \<le> x \<Longrightarrow> store a bs b x = b x"
  by (auto simp: store_def)

lemma store_store_inside:
  assumes "a \<le> c" "c + length cs \<le> a + length bs"
  shows "store c cs (store a bs b) = store a (take (c - a) bs @ cs @ drop (c - a + length cs) bs) b"
proof
  fix x
  show "store c cs (store a bs b) x = store a (take (c - a) bs @ cs @ drop (c - a + length cs) bs) b x"
    using assms by (cases "x < c"; cases "x < c + length cs") (auto simp: store_def nth_append min_def)
qed

lemma store_append: "store (a + length bs) cs (store a bs b) = store a (bs @ cs) b"
  by (rule ext) (auto simp: store_def nth_append)

locale user_memory =
  fixes U :: "'m umem_ops"
    and byte :: "'m \<Rightarrow> nat \<Rightarrow> u8"
  assumes to_user_ok: "to_user U a bs m = (True, m') \<Longrightarrow> byte m' = store a bs (byte m)"
    and to_user_fault: "to_user U a bs m = (False, m') \<Longrightarrow> x < a \<or> a + length bs \<le> x \<Longrightarrow> byte m' x = byte m x"
    and from_user_ok: "from_user U a n m = Some bs \<Longrightarrow> bs = slice (byte m) a n"
begin

lemma from_user_length: "from_user U a n m = Some bs \<Longrightarrow> length bs = n"
  using from_user_ok by fastforce

text \<open>Success or not, nothing outside the target range changes.\<close>

lemma to_user_frame:
  assumes "to_user U a bs m = (ok, m')" "x < a \<or> a + length bs \<le> x"
  shows "byte m' x = byte m x"
  using assms to_user_ok [of a bs m m'] to_user_fault [of a bs m m' x] store_outside [of x a bs]
  by (cases ok) auto

lemma copy_round_trip:
  assumes "to_user U a bs m = (True, m')" "from_user U a (length bs) m' = Some cs"
  shows "cs = bs"
  using from_user_ok [OF assms(2)] to_user_ok [OF assms(1)] by simp

end

subsection \<open>An address space with one mapped range\<close>

text \<open>
  User memory whose addresses below a limit are mapped. A copy stores bytes up to the first
  unmapped address and reports whether it got to the end.
\<close>

type_synonym flat_memory = "nat \<times> (nat \<Rightarrow> u8)"

definition flat_ops :: "flat_memory umem_ops" where
  "flat_ops = \<lparr>
     to_user = (\<lambda>a bs (top, b). (a + length bs \<le> top, (top, store a (take (top - a) bs) b))),
     from_user = (\<lambda>a n (top, b). if a + n \<le> top then Some (slice b a n) else None)\<rparr>"

interpretation flat: user_memory flat_ops snd
proof (unfold_locales, goal_cases)
  case (1 a bs m m')
  then show ?case by (cases m) (auto simp: flat_ops_def)
next
  case (2 a bs m m' x)
  then show ?case by (cases m) (auto simp: flat_ops_def store_def)
next
  case (3 a n m bs)
  then show ?case by (cases m) (auto simp: flat_ops_def split: if_splits)
qed

end
