(* ===== verification/UtsNames.thy ===== *)
theory UtsNames
  imports UserMemory
begin

unbundle bit_operations_syntax

text \<open>
  The system's names (\<^verbatim>\<open>src/HW2/Ques5/sys.c\<close>: \<^verbatim>\<open>sethostname\<close>, \<^verbatim>\<open>gethostname\<close>, \<^verbatim>\<open>setdomainname\<close>,
  \<^verbatim>\<open>newuname\<close>, the two older variants of \<^verbatim>\<open>uname\<close>, \<^verbatim>\<open>override_release\<close> and
  \<^verbatim>\<open>override_architecture\<close>). Names are arrays of bytes; user memory is the interface of
  \<open>UserMemory\<close>. The lock \<^verbatim>\<open>uts_sem\<close> is not modelled: each call runs on its own. A result
  \<^const>\<open>None\<close> is a read past the end of an array.
\<close>

subsection \<open>Data\<close>

abbreviation (input) NEW_UTS_LEN :: nat where "NEW_UTS_LEN \<equiv> 64"
abbreviation (input) OLD_UTS_LEN :: nat where "OLD_UTS_LEN \<equiv> 8"

record new_utsname =
  sysname :: "u8 list"
  nodename :: "u8 list"
  release :: "u8 list"
  version :: "u8 list"
  machine :: "u8 list"
  domainname :: "u8 list"

datatype uts_proc = UTS_PROC_HOSTNAME | UTS_PROC_DOMAINNAME

record 'm uts_state =
  utsname :: new_utsname
  notified :: "uts_proc list"
  uts_mem :: 'm

text \<open>
  The running task's personality and privilege, the release string and version code that the
  build generates, and \<^verbatim>\<open>COMPAT_UTS_MACHINE\<close> if the architecture defines it.
\<close>

record 'm uts_env =
  uops :: "'m umem_ops"
  ns_capable_sys_admin :: bool
  uname26 :: bool
  per_linux32 :: bool
  UTS_RELEASE :: "u8 list"
  LINUX_VERSION_CODE :: u32
  COMPAT_UTS_MACHINE :: "u8 list option"

text \<open>\<^verbatim>\<open>strlen\<close> of the string in a byte array; \<^const>\<open>None\<close> if no byte of it is zero.\<close>

definition c_strlen :: "u8 list \<Rightarrow> nat option" where
  "c_strlen bs = (if 0 \<in> set bs then Some (length (takeWhile (\<lambda>b. b \<noteq> 0) bs)) else None)"

subsection \<open>Host and domain name\<close>

definition sethostname :: "'m uts_env \<Rightarrow> nat \<Rightarrow> int \<Rightarrow> 'm uts_state \<Rightarrow> int \<times> 'm uts_state" where
  "sethostname E name len s =
     (if \<not> ns_capable_sys_admin E then (- EPERM, s)
      else if len < 0 \<or> int NEW_UTS_LEN < len then (- EINVAL, s)
      else case from_user (uops E) name (nat len) (uts_mem s) of
        None \<Rightarrow> (- EFAULT, s)
      | Some tmp \<Rightarrow>
          let u = utsname s;
              u = u\<lparr>nodename := tmp @ drop (nat len) (nodename u)\<rparr>;
              u = u\<lparr>nodename := take (nat len) (nodename u) @ replicate (length (nodename u) - nat len) 0\<rparr>
          in (0, s\<lparr>utsname := u, notified := notified s @ [UTS_PROC_HOSTNAME]\<rparr>))"

definition gethostname :: "'m uts_env \<Rightarrow> nat \<Rightarrow> int \<Rightarrow> 'm uts_state \<Rightarrow> (int \<times> 'm uts_state) option" where
  "gethostname E name len s =
     (if len < 0 then Some (- EINVAL, s)
      else do {
        n \<leftarrow> c_strlen (nodename (utsname s));
        let i = 1 + int n;
        let i = (if len < i then len else i);
        let (ok, m) = to_user (uops E) name (take (nat i) (nodename (utsname s))) (uts_mem s);
        Some (if ok then 0 else - EFAULT, s\<lparr>uts_mem := m\<rparr>)
      })"

definition setdomainname :: "'m uts_env \<Rightarrow> nat \<Rightarrow> int \<Rightarrow> 'm uts_state \<Rightarrow> int \<times> 'm uts_state" where
  "setdomainname E name len s =
     (if \<not> ns_capable_sys_admin E then (- EPERM, s)
      else if len < 0 \<or> int NEW_UTS_LEN < len then (- EINVAL, s)
      else case from_user (uops E) name (nat len) (uts_mem s) of
        None \<Rightarrow> (- EFAULT, s)
      | Some tmp \<Rightarrow>
          let u = utsname s;
              u = u\<lparr>domainname := tmp @ drop (nat len) (domainname u)\<rparr>;
              u = u\<lparr>domainname := take (nat len) (domainname u) @ replicate (length (domainname u) - nat len) 0\<rparr>
          in (0, s\<lparr>utsname := u, notified := notified s @ [UTS_PROC_DOMAINNAME]\<rparr>))"

subsection \<open>Overrides\<close>

text \<open>The loop that skips the first three numbers of the release string.\<close>

fun skip_numbers :: "u8 list \<Rightarrow> nat \<Rightarrow> u8 list" where
  "skip_numbers [] ndots = []"
| "skip_numbers (c # rest) ndots =
     (let ndots' = (if c = 46 then ndots + 1 else ndots) in
      if c = 46 \<and> 3 \<le> ndots' then c # rest
      else if \<not> (48 \<le> c \<and> c \<le> 57) \<and> c \<noteq> 46 then c # rest
      else skip_numbers rest ndots')"

text \<open>\<^verbatim>\<open>%u\<close>.\<close>

fun decimal :: "nat \<Rightarrow> u8 list" where
  "decimal n = (if n < 10 then [48 + word_of_nat n] else decimal (n div 10) @ [48 + word_of_nat (n mod 10)])"

declare decimal.simps [simp del]

text \<open>\<^verbatim>\<open>"2.6.%u%s"\<close>.\<close>

definition release26 :: "'m uts_env \<Rightarrow> u8 list" where
  "release26 E =
     (let rest = skip_numbers (UTS_RELEASE E) 0;
          v = unat (drop_bit 8 (LINUX_VERSION_CODE E) AND 0xff) + 60
      in [50, 46, 54, 46] @ decimal v @ rest)"

text \<open>
  The bytes copied over the release field of \<open>len\<close> bytes: \<^verbatim>\<open>scnprintf\<close> stores at most \<open>copy - 1\<close>
  characters and a zero byte. The result says whether the copy failed.
\<close>

definition release_bytes :: "'m uts_env \<Rightarrow> nat \<Rightarrow> u8 list" where
  "release_bytes E len =
     (let copy = min 65 (max 1 len) in take (copy - 1) (release26 E) @ [0])"

definition override_release :: "'m uts_env \<Rightarrow> nat \<Rightarrow> nat \<Rightarrow> 'm \<Rightarrow> bool \<times> 'm" where
  "override_release E rel len m =
     (if uname26 E then let (ok, m) = to_user (uops E) rel (release_bytes E len) m in (\<not> ok, m)
      else (False, m))"

definition override_architecture :: "'m uts_env \<Rightarrow> nat \<Rightarrow> 'm \<Rightarrow> bool \<times> 'm" where
  "override_architecture E mach m =
     (case COMPAT_UTS_MACHINE E of
        None \<Rightarrow> (False, m)
      | Some name \<Rightarrow>
          if per_linux32 E then let (ok, m) = to_user (uops E) mach (name @ [0]) m in (\<not> ok, m)
          else (False, m))"

subsection \<open>The \<^verbatim>\<open>uname\<close> calls\<close>

definition uname_bytes :: "new_utsname \<Rightarrow> u8 list" where
  "uname_bytes u = sysname u @ nodename u @ release u @ version u @ machine u @ domainname u"

text \<open>A step that runs only while no error has occurred, as in \<^verbatim>\<open>if (!errno && f()) errno = -EFAULT\<close>.\<close>

definition unless_error :: "('m \<Rightarrow> bool \<times> 'm) \<Rightarrow> int \<times> 'm \<Rightarrow> int \<times> 'm" where
  "unless_error f em =
     (let (err, m) = em in
      if err = 0 then let (bad, m) = f m in (if bad then - EFAULT else 0, m) else (err, m))"

definition newuname :: "'m uts_env \<Rightarrow> nat \<Rightarrow> 'm uts_state \<Rightarrow> int \<times> 'm uts_state" where
  "newuname E name s =
     (let (ok, m) = to_user (uops E) name (uname_bytes (utsname s)) (uts_mem s);
          em = (if ok then 0 else - EFAULT, m);
          em = unless_error (override_release E (name + 130) 65) em;
          em = unless_error (override_architecture E (name + 260)) em
      in (fst em, s\<lparr>uts_mem := snd em\<rparr>))"

text \<open>The structure \<^verbatim>\<open>old_utsname\<close> has no domain name: 325 bytes. Address 0 is NULL.\<close>

definition uname :: "'m uts_env \<Rightarrow> nat \<Rightarrow> 'm uts_state \<Rightarrow> int \<times> 'm uts_state" where
  "uname E name s =
     (if name = 0 then (- EFAULT, s)
      else let (ok, m) = to_user (uops E) name (take 325 (uname_bytes (utsname s))) (uts_mem s);
               em = (if ok then 0 else - EFAULT, m);
               em = unless_error (override_release E (name + 130) 65) em;
               em = unless_error (override_architecture E (name + 260)) em
           in (fst em, s\<lparr>uts_mem := snd em\<rparr>))"

text \<open>
  One field of \<^verbatim>\<open>oldold_utsname\<close>: 8 bytes and a zero byte; both stores are made whatever happened
  before.
\<close>

definition put_old_field :: "'m uts_env \<Rightarrow> nat \<Rightarrow> u8 list \<Rightarrow> bool \<times> 'm \<Rightarrow> bool \<times> 'm" where
  "put_old_field E a field em =
     (let (bad, m) = em;
          (ok, m) = to_user (uops E) a (take OLD_UTS_LEN field) m;
          (ok', m) = to_user (uops E) (a + OLD_UTS_LEN) [0] m
      in (bad \<or> \<not> ok \<or> \<not> ok', m))"

definition olduname :: "'m uts_env \<Rightarrow> (nat \<Rightarrow> nat \<Rightarrow> bool) \<Rightarrow> nat \<Rightarrow> 'm uts_state \<Rightarrow> int \<times> 'm uts_state" where
  "olduname E access_ok name s =
     (if name = 0 then (- EFAULT, s)
      else if \<not> access_ok name 45 then (- EFAULT, s)
      else let u = utsname s;
               em = put_old_field E name (sysname u) (False, uts_mem s);
               em = put_old_field E (name + 9) (nodename u) em;
               em = put_old_field E (name + 18) (release u) em;
               em = put_old_field E (name + 27) (version u) em;
               (bad, m) = put_old_field E (name + 36) (machine u) em;
               em = (if bad then - EFAULT else 0, m);
               em = unless_error (override_architecture E (name + 36)) em;
               em = unless_error (override_release E (name + 18) 9) em
           in (if fst em \<noteq> 0 then - EFAULT else 0, s\<lparr>uts_mem := snd em\<rparr>))"

subsection \<open>Well-formed names\<close>

definition name_field :: "u8 list \<Rightarrow> bool" where
  "name_field bs = (length bs = 65 \<and> bs ! 64 = 0)"

definition uts_ok :: "new_utsname \<Rightarrow> bool" where
  "uts_ok u = list_all name_field [sysname u, nodename u, release u, version u, machine u, domainname u]"

lemma uts_ok_fields:
  "uts_ok u \<longleftrightarrow> name_field (sysname u) \<and> name_field (nodename u) \<and> name_field (release u) \<and>
     name_field (version u) \<and> name_field (machine u) \<and> name_field (domainname u)"
  by (simp add: uts_ok_def)

lemma name_field_length [simp]: "name_field bs \<Longrightarrow> length bs = 65"
  by (simp add: name_field_def)

lemma name_field_padded: "length bs = n \<Longrightarrow> n \<le> 64 \<Longrightarrow> name_field (bs @ replicate (65 - n) 0)"
  by (simp add: name_field_def nth_append)

lemma c_strlen_string: "0 \<notin> set bs \<Longrightarrow> c_strlen (bs @ 0 # cs) = Some (length bs)"
  by (induction bs) (auto simp: c_strlen_def)

lemma padding_Cons: "n \<le> 64 \<Longrightarrow> replicate (65 - n) (0 :: u8) = 0 # replicate (64 - n) 0"
  using replicate_Suc [of "64 - n" "0 :: u8"] Suc_diff_le [of n 64] by simp

text \<open>Both setters keep the names well formed, whatever they return.\<close>

lemma setters_keep_uts_ok:
  assumes "user_memory (uops E) byte" "uts_ok (utsname s)"
  shows "uts_ok (utsname (snd (sethostname E a len s)))" "uts_ok (utsname (snd (setdomainname E a len s)))"
proof -
  have "length bs = nat len" if "from_user (uops E) a (nat len) (uts_mem s) = Some bs" for bs
    using user_memory.from_user_length [OF assms(1) that] .
  moreover have "nat len \<le> 64" if "\<not> (len < 0 \<or> int NEW_UTS_LEN < len)" using that by (simp add: nat_le_iff)
  ultimately show "uts_ok (utsname (snd (sethostname E a len s)))"
    "uts_ok (utsname (snd (setdomainname E a len s)))"
    using assms(2)
    by (auto simp: sethostname_def setdomainname_def uts_ok_fields Let_def intro!: name_field_padded split: option.splits)
qed

text \<open>
  C25: a host name of at most 64 bytes without a zero byte that a privileged task sets with
  \<^verbatim>\<open>sethostname\<close> comes back from \<^verbatim>\<open>gethostname\<close> zero-terminated and byte for byte into any buffer
  that is larger than the name, and the names stay well formed.
\<close>

theorem hostname_round_trip:
  assumes U: "user_memory (uops E) byte" and ok: "uts_ok (utsname s)"
    and priv: "ns_capable_sys_admin E" and len: "len \<le> 64"
    and rd: "from_user (uops E) a len (uts_mem s) = Some bs" and str: "0 \<notin> set bs"
    and buf: "int len < n" and wr: "to_user (uops E) b (bs @ [0]) (uts_mem s) = (True, m')"
  shows "\<exists>s1 s2. sethostname E a (int len) s = (0, s1) \<and> uts_ok (utsname s1) \<and>
    gethostname E b n s1 = Some (0, s2) \<and>
    slice (byte (uts_mem s2)) b (len + 1) = slice (byte (uts_mem s)) a len @ [0]"
proof -
  have bs: "length bs = len" "bs = slice (byte (uts_mem s)) a len"
    using user_memory.from_user_length [OF U rd] user_memory.from_user_ok [OF U rd] by simp_all
  define s1 where "s1 = s\<lparr>utsname := utsname s\<lparr>nodename := bs @ replicate (65 - len) 0\<rparr>,
    notified := notified s @ [UTS_PROC_HOSTNAME]\<rparr>"
  have set: "sethostname E a (int len) s = (0, s1)"
    using priv len rd bs(1) ok
    by (simp add: sethostname_def s1_def uts_ok_fields Let_def)
  have get: "gethostname E b n s1 = Some (0, s1\<lparr>uts_mem := m'\<rparr>)"
    using buf wr bs(1) c_strlen_string [OF str, of "replicate (64 - len) 0"]
    by (simp add: gethostname_def s1_def nat_add_distrib padding_Cons [OF len])
  have "slice (byte m') b (len + 1) = bs @ [0]"
    using user_memory.to_user_ok [OF U wr] bs(1) by simp
  moreover have "uts_ok (utsname s1)"
    using setters_keep_uts_ok(1) [OF U ok, of a "int len"] set by simp
  ultimately show ?thesis using set get bs(2) by auto
qed

text \<open>A machine with names in place and user memory mapped below address 4096.\<close>

definition sample_uts_env :: "bool \<Rightarrow> flat_memory uts_env" where
  "sample_uts_env old = \<lparr>uops = flat_ops, ns_capable_sys_admin = True, uname26 = old, per_linux32 = False,
     UTS_RELEASE = [52, 46, 49, 57, 46, 50, 45, 114], LINUX_VERSION_CODE = 0x041302, COMPAT_UTS_MACHINE = None\<rparr>"

definition sample_uts :: "flat_memory uts_state" where
  "sample_uts = \<lparr>utsname = \<lparr>sysname = [76] @ replicate 64 0, nodename = replicate 65 0, release = [52, 46] @ replicate 63 0,
     version = replicate 65 0, machine = replicate 65 0, domainname = replicate 65 0\<rparr>,
     notified = [], uts_mem = (4096, \<lambda>x. if x < 3 then 98 else 0)\<rparr>"

lemma sample_uts_ok: "uts_ok (utsname sample_uts)"
  by (simp add: sample_uts_def uts_ok_fields name_field_def)

theorem hostname_round_trip_witness:
  "\<exists>s1 s2. sethostname (sample_uts_env False) 0 3 sample_uts = (0, s1) \<and> uts_ok (utsname s1) \<and>
    gethostname (sample_uts_env False) 1000 65 s1 = Some (0, s2) \<and>
    slice (snd (uts_mem s2)) 1000 4 = [98, 98, 98, 0]"
proof -
  have mem: "uops (sample_uts_env False) = flat_ops" "uts_mem sample_uts = (4096, \<lambda>x. if x < 3 then 98 else 0)"
    by (simp_all add: sample_uts_env_def sample_uts_def)
  have rd: "from_user (uops (sample_uts_env False)) 0 3 (uts_mem sample_uts) = Some [98, 98, 98]"
    by (simp add: mem flat_ops_def slice_def upt_rec)
  have wr: "fst (to_user (uops (sample_uts_env False)) 1000 ([98, 98, 98] @ [0]) (uts_mem sample_uts))"
    by (simp add: mem flat_ops_def)
  have U: "user_memory (uops (sample_uts_env False)) snd" by (simp add: mem flat.user_memory_axioms)
  show ?thesis
    using hostname_round_trip [where a = 0 and len = 3 and n = 65 and b = 1000, OF U sample_uts_ok _ _ rd _ _ prod_eqI] wr
    by (simp add: sample_uts_env_def sample_uts_def slice_def upt_rec)
qed

subsection \<open>What \<^verbatim>\<open>uname\<close> reports\<close>

text \<open>A field with the bytes \<open>bs\<close> stored over its beginning.\<close>

definition overwrite :: "u8 list \<Rightarrow> u8 list \<Rightarrow> u8 list" where
  "overwrite bs f = bs @ drop (length bs) f"

lemma length_overwrite [simp]: "length bs \<le> length f \<Longrightarrow> length (overwrite bs f) = length f"
  by (simp add: overwrite_def)

text \<open>The names with the two overrides applied.\<close>

definition reported :: "'m uts_env \<Rightarrow> new_utsname \<Rightarrow> new_utsname" where
  "reported E u = u
     \<lparr>release := (if uname26 E then overwrite (release_bytes E 65) (release u) else release u),
      machine := (case COMPAT_UTS_MACHINE E of
         None \<Rightarrow> machine u
       | Some name \<Rightarrow> if per_linux32 E then overwrite (name @ [0]) (machine u) else machine u)\<rparr>"

text \<open>The architecture's machine name fits the field.\<close>

definition machine_fits :: "'m uts_env \<Rightarrow> nat \<Rightarrow> bool" where
  "machine_fits E n = (case COMPAT_UTS_MACHINE E of None \<Rightarrow> True | Some name \<Rightarrow> length name < n)"

lemma length_release_bytes: "0 < len \<Longrightarrow> length (release_bytes E len) \<le> len \<and> length (release_bytes E len) \<le> 65"
  by (auto simp: release_bytes_def Let_def)

lemma name_field_overwrite:
  "name_field f \<Longrightarrow> length bs \<le> 64 \<Longrightarrow> name_field (overwrite (bs @ [0]) f)"
  by (auto simp: name_field_def overwrite_def nth_append nth_Cons')

lemma reported_ok:
  assumes "uts_ok u" "machine_fits E 65"
  shows "uts_ok (reported E u)"
  using assms name_field_overwrite [of "release u" "take 64 (release26 E)"] name_field_overwrite [of "machine u"]
  by (auto simp: uts_ok_fields reported_def machine_fits_def release_bytes_def Let_def split: option.splits)

lemma uname_bytes_release:
  assumes "uts_ok u" "length bs \<le> 65"
  shows "take 130 (uname_bytes u) @ bs @ drop (130 + length bs) (uname_bytes u)
    = uname_bytes (u\<lparr>release := overwrite bs (release u)\<rparr>)"
  using assms by (simp add: uts_ok_fields uname_bytes_def overwrite_def)

lemma uname_bytes_machine:
  assumes "uts_ok u" "length bs \<le> 65"
  shows "take 260 (uname_bytes u) @ bs @ drop (260 + length bs) (uname_bytes u)
    = uname_bytes (u\<lparr>machine := overwrite bs (machine u)\<rparr>)"
  using assms by (simp add: uts_ok_fields uname_bytes_def overwrite_def)

lemma length_uname_bytes [simp]: "uts_ok u \<Longrightarrow> length (uname_bytes u) = 390"
  by (simp add: uts_ok_fields uname_bytes_def)

lemma unless_error_0: "unless_error f (e, m) = (0, m') \<longleftrightarrow> e = 0 \<and> f m = (False, m')"
  by (auto simp: unless_error_def Let_def split: prod.splits if_splits)


text \<open>The stores of the two overrides.\<close>

lemma override_release_ok:
  assumes "user_memory (uops E) byte" "override_release E (a + 130) 65 m = (False, m')"
    "byte m = store a (uname_bytes u) b" "uts_ok u"
  shows "byte m' = store a (uname_bytes (if uname26 E then u\<lparr>release := overwrite (release_bytes E 65) (release u)\<rparr> else u)) b"
proof (cases "uname26 E")
  case True
  then have "to_user (uops E) (a + 130) (release_bytes E 65) m = (True, m')"
    using assms(2) by (auto simp: override_release_def split: prod.splits)
  then have "byte m' = store (a + 130) (release_bytes E 65) (store a (uname_bytes u) b)"
    using user_memory.to_user_ok [OF assms(1)] assms(3) by metis
  then show ?thesis
    using True length_release_bytes [of 65 E] assms(4) by (simp add: store_store_inside uname_bytes_release)
qed (use assms(2, 3) in \<open>simp add: override_release_def\<close>)

lemma override_architecture_ok:
  assumes "user_memory (uops E) byte" "override_architecture E (a + 260) m = (False, m')"
    "byte m = store a (uname_bytes u) b" "uts_ok u" "machine_fits E 65"
  shows "byte m' = store a (uname_bytes (u\<lparr>machine := (case COMPAT_UTS_MACHINE E of
         None \<Rightarrow> machine u
       | Some name \<Rightarrow> if per_linux32 E then overwrite (name @ [0]) (machine u) else machine u)\<rparr>)) b"
proof (cases "per_linux32 E \<and> COMPAT_UTS_MACHINE E \<noteq> None")
  case True
  then obtain name where name: "COMPAT_UTS_MACHINE E = Some name" by auto
  have "to_user (uops E) (a + 260) (name @ [0]) m = (True, m')"
    using assms(2) True name by (auto simp: override_architecture_def split: prod.splits)
  then have "byte m' = store (a + 260) (name @ [0]) (store a (uname_bytes u) b)"
    using user_memory.to_user_ok [OF assms(1)] assms(3) by metis
  moreover have "length (name @ [0]) \<le> 65" using assms(5) name by (simp add: machine_fits_def)
  ultimately show ?thesis
    using True name assms(4) uname_bytes_machine [OF assms(4), of "name @ [0]"]
    by (simp add: store_store_inside)
qed (use assms(2, 3) in \<open>auto simp: override_architecture_def split: option.splits\<close>)

text \<open>
  when \<^verbatim>\<open>newuname\<close> returns 0, the 390 bytes of the caller's structure hold the system's names,
  with the release replaced by the 2.6 form for a task of personality \<^verbatim>\<open>UNAME26\<close> and the machine
  by the compat machine for one of personality \<^verbatim>\<open>PER_LINUX32\<close>; every one of the six fields is
  zero-terminated and no other byte of user memory changes.
\<close>

theorem newuname_reports_names:
  assumes U: "user_memory (uops E) byte" and ok: "uts_ok (utsname s)" and mach: "machine_fits E 65"
    and ret: "newuname E a s = (0, s')"
  shows "byte (uts_mem s') = store a (uname_bytes (reported E (utsname s))) (byte (uts_mem s)) \<and>
    uts_ok (reported E (utsname s)) \<and> utsname s' = utsname s"
proof -
  obtain m1 m2 m3 where
    m1: "to_user (uops E) a (uname_bytes (utsname s)) (uts_mem s) = (True, m1)" and
    m2: "override_release E (a + 130) 65 m1 = (False, m2)" and
    m3: "override_architecture E (a + 260) m2 = (False, m3)" and s': "s' = s\<lparr>uts_mem := m3\<rparr>"
    using ret by (auto simp: newuname_def Let_def unless_error_0 prod_eq_iff [of _ "(0, _)"]
        unless_error_def split: prod.splits if_splits)
  define u where "u = (if uname26 E then (utsname s)\<lparr>release := overwrite (release_bytes E 65) (release (utsname s))\<rparr>
    else utsname s)"
  have rep: "reported E (utsname s) = u\<lparr>machine := (case COMPAT_UTS_MACHINE E of
       None \<Rightarrow> machine u
     | Some name \<Rightarrow> if per_linux32 E then overwrite (name @ [0]) (machine u) else machine u)\<rparr>"
    by (simp add: reported_def u_def split: option.splits)
  have "byte m2 = store a (uname_bytes u) (byte (uts_mem s))"
    unfolding u_def by (rule override_release_ok [OF U m2 user_memory.to_user_ok [OF U m1] ok])
  moreover have "uts_ok u"
    using ok name_field_overwrite [of "release (utsname s)" "take 64 (release26 E)"]
    by (auto simp: u_def uts_ok_fields release_bytes_def Let_def)
  ultimately have "byte m3 = store a (uname_bytes (reported E (utsname s))) (byte (uts_mem s))"
    unfolding rep by (rule override_architecture_ok [OF U m3 _ _ mach])
  then show ?thesis using reported_ok [OF ok mach] s' by simp
qed


theorem newuname_reports_names_witness:
  "\<exists>s'. newuname (sample_uts_env True) 100 sample_uts = (0, s') \<and>
    snd (uts_mem s') = store 100 (uname_bytes (reported (sample_uts_env True) (utsname sample_uts))) (snd (uts_mem sample_uts)) \<and>
    take 8 (release (reported (sample_uts_env True) (utsname sample_uts))) = [50, 46, 54, 46, 55, 57, 45, 114]"
proof -
  have mem: "uops (sample_uts_env True) = flat_ops" "uname26 (sample_uts_env True)"
    "COMPAT_UTS_MACHINE (sample_uts_env True) = None" "\<exists>b. uts_mem sample_uts = (4096, b)"
    by (simp_all add: sample_uts_env_def sample_uts_def)
  have rel: "release26 (sample_uts_env True) = [50, 46, 54, 46, 55, 57, 45, 114]"
    by code_simp
  have "fst (newuname (sample_uts_env True) 100 sample_uts) = 0"
    using mem sample_uts_ok rel
    by (auto simp: newuname_def flat_ops_def unless_error_def override_release_def override_architecture_def
        release_bytes_def Let_def split: prod.split)
  moreover have "user_memory (uops (sample_uts_env True)) snd" by (simp add: mem flat.user_memory_axioms)
  moreover have "machine_fits (sample_uts_env True) 65" by (simp add: machine_fits_def sample_uts_env_def)
  ultimately show ?thesis
    using newuname_reports_names [of "sample_uts_env True" snd sample_uts 100] sample_uts_ok rel
    by (auto simp: prod_eq_iff reported_def overwrite_def release_bytes_def Let_def sample_uts_env_def)
qed

subsection \<open>The oldest variant\<close>

text \<open>Stores confined to a range: whatever the step returns, no byte outside changes.\<close>

definition confined :: "('m \<Rightarrow> nat \<Rightarrow> u8) \<Rightarrow> nat \<Rightarrow> nat \<Rightarrow> 'm \<Rightarrow> 'm \<Rightarrow> bool" where
  "confined byte a n m m' = (\<forall>x. x < a \<or> a + n \<le> x \<longrightarrow> byte m' x = byte m x)"

lemma confined_trans [trans]: "confined byte a n m m' \<Longrightarrow> confined byte a n m' m'' \<Longrightarrow> confined byte a n m m''"
  by (simp add: confined_def)

lemma confined_mono: "confined byte c k m m' \<Longrightarrow> a \<le> c \<Longrightarrow> c + k \<le> a + n \<Longrightarrow> confined byte a n m m'"
  by (auto simp: confined_def)

lemma to_user_confined:
  "user_memory U byte \<Longrightarrow> to_user U a bs m = (ok, m') \<Longrightarrow> length bs \<le> n \<Longrightarrow> confined byte a n m m'"
  using user_memory.to_user_frame [of U byte] by (fastforce simp: confined_def)

lemma put_old_field_confined:
  assumes "user_memory (uops E) byte" "put_old_field E a f (bad, m) = (bad', m')"
  shows "confined byte a 9 m m'" "\<not> bad' \<Longrightarrow> \<not> bad \<and> byte m' (a + 8) = 0"
proof -
  obtain ok1 m1 ok2 where
    1: "to_user (uops E) a (take 8 f) m = (ok1, m1)" and 2: "to_user (uops E) (a + 8) [0] m1 = (ok2, m')" and
    b: "bad' = (bad \<or> \<not> ok1 \<or> \<not> ok2)"
    using assms(2) by (auto simp: put_old_field_def Let_def split: prod.splits)
  show "confined byte a 9 m m'"
    using to_user_confined [OF assms(1) 1, of 8] to_user_confined [OF assms(1) 2, of 1]
    by (auto simp: confined_def)
  show "\<not> bad' \<Longrightarrow> \<not> bad \<and> byte m' (a + 8) = 0"
    using 2 b user_memory.to_user_ok [OF assms(1), of "a + 8" "[0]" m1 m'] by (auto simp: store_def)
qed

text \<open>A string stored over a field of 9 bytes that ends with a zero byte leaves that byte zero.\<close>

lemma string_keeps_terminator:
  assumes "user_memory U byte" "to_user U a (bs @ [0]) m = (True, m')" "length bs \<le> 8" "byte m (a + 8) = 0"
  shows "byte m' (a + 8) = 0"
  using user_memory.to_user_ok [OF assms(1, 2)] assms(3, 4) by (auto simp: store_def nth_append)

lemma override_old_release:
  assumes "user_memory (uops E) byte" "override_release E a 9 m = (bad, m')"
  shows "confined byte a 9 m m'" "\<not> bad \<Longrightarrow> byte m (a + 8) = 0 \<Longrightarrow> byte m' (a + 8) = 0"
  using assms to_user_confined [OF assms(1), of a "release_bytes E 9" m _ _ 9] length_release_bytes [of 9 E]
    string_keeps_terminator [OF assms(1), of a "take 8 (release26 E)" m m']
  by (auto simp: override_release_def release_bytes_def confined_def split: prod.splits if_splits)

lemma override_old_architecture:
  assumes "user_memory (uops E) byte" "override_architecture E a m = (bad, m')" "machine_fits E 9"
  shows "confined byte a 9 m m'" "\<not> bad \<Longrightarrow> byte m (a + 8) = 0 \<Longrightarrow> byte m' (a + 8) = 0"
proof -
  have str: "length (name @ [0]) \<le> 9" if "COMPAT_UTS_MACHINE E = Some name" for name :: "u8 list"
    using assms(3) that by (simp add: machine_fits_def)
  show "confined byte a 9 m m'"
    using assms(2) to_user_confined [OF assms(1) _ str]
    by (auto simp: override_architecture_def confined_def split: option.splits prod.splits if_splits)
  show "\<not> bad \<Longrightarrow> byte m (a + 8) = 0 \<Longrightarrow> byte m' (a + 8) = 0"
    using assms(2) str string_keeps_terminator [OF assms(1), of a _ m m']
    by (auto simp: override_architecture_def split: option.splits prod.splits if_splits)
qed

lemma unless_error_old:
  assumes "unless_error f (e, m) = (e', m')"
    and "\<And>bad m'. f m = (bad, m') \<Longrightarrow> confined byte c 9 m m' \<and> (\<not> bad \<longrightarrow> byte m (c + 8) = 0 \<longrightarrow> byte m' (c + 8) = 0)"
  shows "confined byte c 9 m m'" "e' = 0 \<Longrightarrow> e = 0 \<and> (byte m (c + 8) = 0 \<longrightarrow> byte m' (c + 8) = 0)"
  using assms(1) assms(2) [of "fst (f m)" "snd (f m)"]
  by (auto simp: unless_error_def confined_def split: prod.splits if_splits)

text \<open>The five fields, then the two overrides.\<close>

lemma old_fields:
  assumes U: "user_memory (uops E) byte"
    and 1: "put_old_field E a f1 (False, m) = (b1, m1)" and 2: "put_old_field E (a + 9) f2 (b1, m1) = (b2, m2)"
    and 3: "put_old_field E (a + 18) f3 (b2, m2) = (b3, m3)" and 4: "put_old_field E (a + 27) f4 (b3, m3) = (b4, m4)"
    and 5: "put_old_field E (a + 36) f5 (b4, m4) = (b5, m5)"
  shows "confined byte a 45 m m5" "\<not> b5 \<Longrightarrow> i < 5 \<Longrightarrow> byte m5 (a + 9 * i + 8) = 0"
proof -
  note c = put_old_field_confined(1) [OF U 1] put_old_field_confined(1) [OF U 2] put_old_field_confined(1) [OF U 3]
    put_old_field_confined(1) [OF U 4] put_old_field_confined(1) [OF U 5]
  note z = put_old_field_confined(2) [OF U 1] put_old_field_confined(2) [OF U 2] put_old_field_confined(2) [OF U 3]
    put_old_field_confined(2) [OF U 4] put_old_field_confined(2) [OF U 5]
  show "confined byte a 45 m m5" using c by (auto simp: confined_def)
  assume ok: "\<not> b5" and i: "i < 5"
  have z: "byte m1 (a + 8) = 0" "byte m2 (a + 17) = 0" "byte m3 (a + 26) = 0" "byte m4 (a + 35) = 0" "byte m5 (a + 44) = 0"
    using z ok by (simp_all add: add.assoc)
  have "byte m5 (a + 8) = byte m1 (a + 8)" "byte m5 (a + 17) = byte m2 (a + 17)"
    "byte m5 (a + 26) = byte m3 (a + 26)" "byte m5 (a + 35) = byte m4 (a + 35)"
    using c(2-5) by (simp_all add: confined_def)
  moreover have "i = 0 \<or> i = 1 \<or> i = 2 \<or> i = 3 \<or> i = 4" using i by linarith
  ultimately show "byte m5 (a + 9 * i + 8) = 0" using z by (auto simp: add.assoc)
qed

text \<open>
  The two overrides keep every terminator: each writes inside its own field, and leaves that
  field's last byte null.
\<close>

lemma old_terminators_kept:
  assumes c6: "confined byte (a + 36) 9 m5 m6" and c7: "confined byte (a + 18) 9 m6 m7"
    and z6: "byte m5 (a + 44) = 0 \<longrightarrow> byte m6 (a + 44) = 0" and z7: "byte m6 (a + 26) = 0 \<longrightarrow> byte m7 (a + 26) = 0"
    and old: "byte m5 (a + 9 * i + 8) = 0" and i: "i < 5"
  shows "byte m7 (a + 9 * i + 8) = 0"
proof -
  consider "i = 2" | "i = 4" | "i = 0 \<or> i = 1 \<or> i = 3" using i by linarith
  then show ?thesis
  proof cases
    case 1
    then show ?thesis using old c6 z7 by (simp add: confined_def add.assoc)
  next
    case 2
    then show ?thesis using old c7 z6 by (simp add: confined_def add.assoc)
  next
    case 3
    then show ?thesis using old c6 c7 by (auto simp: confined_def add.assoc)
  qed
qed

text \<open>
  \<^verbatim>\<open>olduname\<close> changes no byte outside the caller's 45-byte structure, whether it succeeds or not,
  and when it returns 0 each of the five 9-byte fields ends with a zero byte, also with the release
  and the machine overridden.
\<close>

theorem olduname_in_bounds:
  assumes U: "user_memory (uops E) byte" and mach: "machine_fits E 9"
    and ret: "olduname E access_ok a s = (r, s')"
  shows "(\<forall>x. x < a \<or> a + 45 \<le> x \<longrightarrow> byte (uts_mem s') x = byte (uts_mem s) x) \<and>
    (r = 0 \<longrightarrow> (\<forall>i<5. byte (uts_mem s') (a + 9 * i + 8) = 0)) \<and> utsname s' = utsname s"
proof (cases "a = 0 \<or> \<not> access_ok a 45")
  case True
  then have "olduname E access_ok a s = (- 14, s)" unfolding olduname_def by (cases "a = 0") simp_all
  then show ?thesis using ret by auto
next
  case False
  obtain b1 m1 b2 m2 b3 m3 b4 m4 b5 m5 where
    f: "put_old_field E a (sysname (utsname s)) (False, uts_mem s) = (b1, m1)"
      "put_old_field E (a + 9) (nodename (utsname s)) (b1, m1) = (b2, m2)"
      "put_old_field E (a + 18) (release (utsname s)) (b2, m2) = (b3, m3)"
      "put_old_field E (a + 27) (version (utsname s)) (b3, m3) = (b4, m4)"
      "put_old_field E (a + 36) (machine (utsname s)) (b4, m4) = (b5, m5)"
    by (metis surj_pair)
  obtain e6 m6 e7 m7 where
    6: "unless_error (override_architecture E (a + 36)) (if b5 then - 14 else 0, m5) = (e6, m6)" and
    7: "unless_error (override_release E (a + 18) 9) (e6, m6) = (e7, m7)"
    by (metis surj_pair)
  have s': "r = (if e7 \<noteq> 0 then - 14 else 0)" "s' = s\<lparr>uts_mem := m7\<rparr>"
    using ret False f 6 7 by (auto simp: olduname_def Let_def)
  note fields = old_fields [OF U f]
  have c6: "confined byte (a + 36) 9 m5 m6" and z6: "e6 = 0 \<Longrightarrow> \<not> b5 \<and> (byte m5 (a + 44) = 0 \<longrightarrow> byte m6 (a + 44) = 0)"
    using unless_error_old [OF 6, of byte "a + 36"] override_old_architecture [OF U _ mach, of "a + 36" m5]
    by (simp_all add: add.assoc split: if_splits)
  have c7: "confined byte (a + 18) 9 m6 m7" and z7: "e7 = 0 \<Longrightarrow> e6 = 0 \<and> (byte m6 (a + 26) = 0 \<longrightarrow> byte m7 (a + 26) = 0)"
    using unless_error_old [OF 7, of byte "a + 18"] override_old_release [OF U, of "a + 18" m6]
    by (simp_all add: add.assoc)
  have "byte m7 (a + 9 * i + 8) = 0" if "e7 = 0" "i < 5" for i
    using that fields(2) z6 z7 by (intro old_terminators_kept [OF c6 c7]) simp_all
  moreover have "confined byte a 45 (uts_mem s) m7"
    using fields(1) confined_mono [OF c6, of a 45] confined_mono [OF c7, of a 45] by (simp add: confined_def)
  ultimately show ?thesis using s' by (simp add: confined_def)
qed

theorem olduname_in_bounds_witness:
  "\<exists>s'. olduname (sample_uts_env True) (\<lambda>_ _. True) 100 sample_uts = (0, s') \<and>
    (\<forall>x. x < 100 \<or> 145 \<le> x \<longrightarrow> snd (uts_mem s') x = snd (uts_mem sample_uts) x) \<and>
    (\<forall>i<5. snd (uts_mem s') (100 + 9 * i + 8) = 0)"
proof -
  have mem: "uops (sample_uts_env True) = flat_ops" "uname26 (sample_uts_env True)"
    "COMPAT_UTS_MACHINE (sample_uts_env True) = None" "\<exists>b. uts_mem sample_uts = (4096, b)"
    by (simp_all add: sample_uts_env_def sample_uts_def)
  have U: "user_memory (uops (sample_uts_env True)) snd"
    by (simp add: mem flat.user_memory_axioms)
  have mach: "machine_fits (sample_uts_env True) 9" by (simp add: machine_fits_def mem)
  have "fst (olduname (sample_uts_env True) (\<lambda>_ _. True) 100 sample_uts) = 0"
    using mem length_release_bytes [of 9 "sample_uts_env True"]
    by (auto simp: olduname_def put_old_field_def flat_ops_def unless_error_def override_release_def
        override_architecture_def Let_def split: prod.split)
  then obtain s' where "olduname (sample_uts_env True) (\<lambda>_ _. True) 100 sample_uts = (0, s')"
    by (metis prod.collapse)
  then show ?thesis using olduname_in_bounds [OF U mach, of "\<lambda>_ _. True" 100 sample_uts 0 s'] by auto
qed

end
