(* ===== verification/MemoryMap.thy ===== *)
theory MemoryMap
  imports Prelude
begin

unbundle bit_operations_syntax

text \<open>
  Changing the memory map of a process (\<^verbatim>\<open>src/HW2/Ques5/sys.c\<close>: \<^verbatim>\<open>prctl_set_mm\<close>,
  \<^verbatim>\<open>prctl_set_mm_map\<close>, \<^verbatim>\<open>prctl_set_auxv\<close>, \<^verbatim>\<open>validate_prctl_map\<close>, \<^verbatim>\<open>prctl_set_mm_exe_file\<close>).

  \<^verbatim>\<open>unsigned long\<close> is a word of width \<open>'w\<close>, the structure passed by user space has 64-bit members.
  The auxiliary vector is the array of its bytes, because user space chooses how many bytes of it
  to set. The lock \<^verbatim>\<open>mmap_sem\<close> counts its readers and writers. Files are numbers; the file table,
  reference counts, permissions and user memory belong to the kernel state and are reached through
  the parameters in \<open>mm_env\<close>.
\<close>

subsection \<open>Data\<close>

record 'u layout =
  start_code :: 'u
  end_code :: 'u
  start_data :: 'u
  end_data :: 'u
  start_brk :: 'u
  brk :: 'u
  start_stack :: 'u
  arg_start :: 'u
  arg_end :: 'u
  env_start :: 'u
  env_end :: 'u

definition map_layout :: "('u \<Rightarrow> 'v) \<Rightarrow> 'u layout \<Rightarrow> 'v layout" where
  "map_layout f l =
     \<lparr>start_code = f (start_code l), end_code = f (end_code l), start_data = f (start_data l),
      end_data = f (end_data l), start_brk = f (start_brk l), brk = f (brk l),
      start_stack = f (start_stack l), arg_start = f (arg_start l), arg_end = f (arg_end l),
      env_start = f (env_start l), env_end = f (env_end l)\<rparr>"

definition layout_fields :: "'u layout \<Rightarrow> 'u list" where
  "layout_fields l =
     [start_code l, end_code l, start_data l, end_data l, start_brk l, brk l, start_stack l,
      arg_start l, arg_end l, env_start l, env_end l]"

record 'u prctl_mm_map =
  map_values :: "u64 layout"
  auxv :: 'u
  auxv_size :: u32
  exe_fd :: u32

text \<open>The parts of \<^verbatim>\<open>mm_struct\<close> the calls use; a memory area is the file it maps, if any.\<close>

record 'u mm_struct =
  mm_values :: "'u layout"
  saved_auxv :: "u8 list"
  exe_file :: "nat option"
  mmap_areas :: "nat option list"
  sem_readers :: nat
  sem_writers :: nat

record ('u, 'k) mm_state =
  mm :: "'u mm_struct"
  mmk :: 'k

record ('u, 'k) mm_env =
  TASK_SIZE :: 'u
  mmap_min_addr :: 'u
  AT_VECTOR_SIZE :: nat
  sizeof_prctl_map :: u32
  checkpoint_restore :: bool
  rlimit_data :: "'k \<Rightarrow> 'u"
  check_data_rlimit :: "'u \<Rightarrow> 'u \<Rightarrow> 'u \<Rightarrow> 'u \<Rightarrow> 'u \<Rightarrow> bool"
  ns_capable_admin :: "'k \<Rightarrow> bool"
  capable_resource :: "'k \<Rightarrow> bool"
  fdget :: "u32 \<Rightarrow> 'k \<Rightarrow> (nat \<times> bool) option \<times> 'k"
  fdput :: "nat \<times> bool \<Rightarrow> 'k \<Rightarrow> 'k"
  get_file :: "nat \<Rightarrow> 'k \<Rightarrow> 'k"
  fput :: "nat \<Rightarrow> 'k \<Rightarrow> 'k"
  get_mm_exe_file :: "nat option \<Rightarrow> 'k \<Rightarrow> nat option \<times> 'k"
  is_regular :: "nat \<Rightarrow> 'k \<Rightarrow> bool"
  path_noexec :: "nat \<Rightarrow> 'k \<Rightarrow> bool"
  exec_permission :: "nat \<Rightarrow> 'k \<Rightarrow> int"
  path_equal :: "nat \<Rightarrow> nat \<Rightarrow> bool"
  find_vma :: "'u \<Rightarrow> 'k \<Rightarrow> bool"
  copy_map_from_user :: "'u \<Rightarrow> 'k \<Rightarrow> 'u prctl_mm_map option"
  copy_auxv_from_user :: "'u \<Rightarrow> nat \<Rightarrow> 'k \<Rightarrow> u8 list option"
  put_uint :: "'u \<Rightarrow> u32 \<Rightarrow> 'k \<Rightarrow> int \<times> 'k"

abbreviation (input) EBADF :: int where "EBADF \<equiv> 9"
abbreviation (input) EBUSY :: int where "EBUSY \<equiv> 16"

definition down_read :: "'u mm_struct \<Rightarrow> 'u mm_struct" where
  "down_read m = m\<lparr>sem_readers := sem_readers m + 1\<rparr>"
definition up_read :: "'u mm_struct \<Rightarrow> 'u mm_struct" where
  "up_read m = m\<lparr>sem_readers := sem_readers m - 1\<rparr>"
definition down_write :: "'u mm_struct \<Rightarrow> 'u mm_struct" where
  "down_write m = m\<lparr>sem_writers := sem_writers m + 1\<rparr>"
definition up_write :: "'u mm_struct \<Rightarrow> 'u mm_struct" where
  "up_write m = m\<lparr>sem_writers := sem_writers m - 1\<rparr>"

lemmas sem_defs = down_read_def up_read_def down_write_def up_write_def

definition on_mm :: "('u mm_struct \<Rightarrow> 'u mm_struct) \<Rightarrow> ('u, 'k) mm_state \<Rightarrow> ('u, 'k) mm_state" where
  "on_mm f s = s\<lparr>mm := f (mm s)\<rparr>"

definition on_kernel :: "('k \<Rightarrow> 'k) \<Rightarrow> ('u, 'k) mm_state \<Rightarrow> ('u, 'k) mm_state" where
  "on_kernel f s = s\<lparr>mmk := f (mmk s)\<rparr>"

lemma on_simps [simp]:
  "mm (on_mm f s) = f (mm s)" "mmk (on_mm f s) = mmk s" "mm (on_kernel g s) = mm s" "mmk (on_kernel g s) = g (mmk s)"
  by (simp_all add: on_mm_def on_kernel_def)

subsection \<open>The executable file\<close>

fun maps_file :: "('u, 'k) mm_env \<Rightarrow> nat \<Rightarrow> nat option list \<Rightarrow> bool" where
  "maps_file E exe [] = False"
| "maps_file E exe (None # areas) = maps_file E exe areas"
| "maps_file E exe (Some f # areas) = (if path_equal E f exe then True else maps_file E exe areas)"

text \<open>The part after the permission checks; \<open>f\<close> is the new file.\<close>

definition exchange_exe_file :: "('u, 'k) mm_env \<Rightarrow> nat \<Rightarrow> ('u, 'k) mm_state \<Rightarrow> int \<times> ('u, 'k) mm_state" where
  "exchange_exe_file E f s =
     (let old_exe = exe_file (mm s);
          s = on_kernel (get_file E f) s;
          s = on_mm (\<lambda>m. m\<lparr>exe_file := Some f\<rparr>) s;
          s = (case old_exe of None \<Rightarrow> s | Some old \<Rightarrow> on_kernel (fput E old) s)
      in (0, s))"

definition exe_file_checks :: "('u, 'k) mm_env \<Rightarrow> nat \<Rightarrow> ('u, 'k) mm_state \<Rightarrow> int \<times> ('u, 'k) mm_state" where
  "exe_file_checks E f s =
     (if \<not> is_regular E f (mmk s) \<or> path_noexec E f (mmk s) then (- EACCES, s)
      else let err = exec_permission E f (mmk s) in
      if err \<noteq> 0 then (err, s)
      else let (exe, k) = get_mm_exe_file E (exe_file (mm s)) (mmk s); s = s\<lparr>mmk := k\<rparr> in
      case exe of
        None \<Rightarrow> exchange_exe_file E f s
      | Some e \<Rightarrow>
          let s = on_mm down_read s in
          if maps_file E e (mmap_areas (mm s)) then
            (- EBUSY, on_kernel (fput E e) (on_mm up_read s))
          else exchange_exe_file E f (on_kernel (fput E e) (on_mm up_read s)))"

definition prctl_set_mm_exe_file :: "('u, 'k) mm_env \<Rightarrow> u32 \<Rightarrow> ('u, 'k) mm_state \<Rightarrow> int \<times> ('u, 'k) mm_state" where
  "prctl_set_mm_exe_file E fd s =
     (let (exe, k) = fdget E fd (mmk s); s = s\<lparr>mmk := k\<rparr> in
      case exe of
        None \<Rightarrow> (- EBADF, s)
      | Some (f, flag) \<Rightarrow>
          let (err, s) = exe_file_checks E f s in (err, on_kernel (fdput E (f, flag)) s))"

subsection \<open>Checking a memory map\<close>

text \<open>The members are compared as \<^verbatim>\<open>unsigned long\<close> except in the two heap checks.\<close>

definition in_task :: "('w::len word, 'k) mm_env \<Rightarrow> 'w word \<Rightarrow> bool" where
  "in_task E v = (v < TASK_SIZE E \<and> mmap_min_addr E \<le> v)"

definition validate_prctl_map :: "('w::len word, 'k) mm_env \<Rightarrow> 'w word prctl_mm_map \<Rightarrow> 'k \<Rightarrow> int" where
  "validate_prctl_map E pm k =
     (let v = map_values pm; c = (ucast :: u64 \<Rightarrow> 'w word) in
      if list_ex (\<lambda>x. TASK_SIZE E \<le> c x \<or> c x < mmap_min_addr E) (layout_fields v) then - EINVAL
      else if \<not> (c (start_code v) < c (end_code v) \<and> c (start_data v) < c (end_data v) \<and>
                 c (start_brk v) \<le> c (brk v) \<and> c (arg_start v) \<le> c (arg_end v) \<and>
                 c (env_start v) \<le> c (env_end v)) then - EINVAL
      else if start_brk v \<le> end_data v \<or> brk v \<le> end_data v then - EINVAL
      else if check_data_rlimit E (rlimit_data E k) (c (brk v)) (c (start_brk v)) (c (end_data v)) (c (start_data v))
      then - EINVAL
      else if auxv_size pm \<noteq> 0 \<and>
              (auxv pm = 0 \<or> AT_VECTOR_SIZE E * (LENGTH('w) div 8) < unat (auxv_size pm)) then - EINVAL
      else if exe_fd pm \<noteq> - 1 \<and> \<not> ns_capable_admin E k then - EINVAL
      else 0)"

subsection \<open>Setting the whole map\<close>

text \<open>\<^verbatim>\<open>user_auxv[AT_VECTOR_SIZE - 2] = AT_NULL; user_auxv[AT_VECTOR_SIZE - 1] = AT_NULL;\<close>\<close>

definition end_auxv :: "nat \<Rightarrow> nat \<Rightarrow> u8 list \<Rightarrow> u8 list" where
  "end_auxv entries wsize b = take ((entries - 2) * wsize) b @ replicate (2 * wsize) 0"

definition prctl_set_mm_map :: "('w::len word, 'k) mm_env \<Rightarrow> int \<Rightarrow> 'w word \<Rightarrow> 'w word \<Rightarrow> ('w word, 'k) mm_state
    \<Rightarrow> int \<times> ('w word, 'k) mm_state" where
  "prctl_set_mm_map E opt addr data_size s =
     (if opt = 15 then let (r, k) = put_uint E addr (sizeof_prctl_map E) (mmk s) in (r, s\<lparr>mmk := k\<rparr>)
      else if data_size \<noteq> ucast (sizeof_prctl_map E) then (- EINVAL, s)
      else case copy_map_from_user E addr (mmk s) of
        None \<Rightarrow> (- EFAULT, s)
      | Some pm \<Rightarrow>
          let error = validate_prctl_map E pm (mmk s); wsize = LENGTH('w) div 8 in
          if error \<noteq> 0 then (error, s)
          else case (if auxv_size pm \<noteq> 0 then
                       map_option (\<lambda>b. end_auxv (AT_VECTOR_SIZE E) wsize
                           (b @ replicate (AT_VECTOR_SIZE E * wsize - length b) 0))
                         (copy_auxv_from_user E (auxv pm) (unat (auxv_size pm)) (mmk s))
                     else Some []) of
            None \<Rightarrow> (- EFAULT, s)
          | Some user_auxv \<Rightarrow>
              let (error, s) = (if exe_fd pm \<noteq> - 1 then prctl_set_mm_exe_file E (exe_fd pm) s else (0, s)) in
              if error \<noteq> 0 then (error, s)
              else let s = on_mm down_write s;
                       s = on_mm (\<lambda>m. m\<lparr>mm_values := map_layout ucast (map_values pm)\<rparr>) s;
                       s = (if auxv_size pm \<noteq> 0 then on_mm (\<lambda>m. m\<lparr>saved_auxv := user_auxv\<rparr>) s else s)
                   in (0, on_mm up_write s))"

subsection \<open>Setting the auxiliary vector\<close>

text \<open>\<open>stack\<close> is what the local array holds before the copy; it is not initialised.\<close>

definition prctl_set_auxv :: "('w::len word, 'k) mm_env \<Rightarrow> u8 list \<Rightarrow> 'w word \<Rightarrow> 'w word \<Rightarrow> ('w word, 'k) mm_state
    \<Rightarrow> int \<times> ('w word, 'k) mm_state" where
  "prctl_set_auxv E stack addr len s =
     (let wsize = LENGTH('w) div 8; n = unat len in
      if AT_VECTOR_SIZE E * wsize < n then (- EINVAL, s)
      else case copy_auxv_from_user E addr n (mmk s) of
        None \<Rightarrow> (- EFAULT, s)
      | Some b \<Rightarrow>
          let user_auxv = end_auxv (AT_VECTOR_SIZE E) wsize (b @ drop n stack)
          in (0, on_mm (\<lambda>m. m\<lparr>saved_auxv := take n user_auxv @ drop n (saved_auxv m)\<rparr>) s))"

subsection \<open>Setting one member\<close>

abbreviation (input) PR_SET_MM_AUXV :: int where "PR_SET_MM_AUXV \<equiv> 12"
abbreviation (input) PR_SET_MM_EXE_FILE :: int where "PR_SET_MM_EXE_FILE \<equiv> 13"
abbreviation (input) PR_SET_MM_MAP :: int where "PR_SET_MM_MAP \<equiv> 14"
abbreviation (input) PR_SET_MM_MAP_SIZE :: int where "PR_SET_MM_MAP_SIZE \<equiv> 15"

text \<open>The first \<^verbatim>\<open>switch\<close>: options 1 to 11 name a member, any other is the default case.\<close>

definition set_member :: "int \<Rightarrow> 'v \<Rightarrow> 'v layout \<Rightarrow> 'v layout option" where
  "set_member opt v l =
     (if opt = 1 then Some (l\<lparr>start_code := v\<rparr>)
      else if opt = 2 then Some (l\<lparr>end_code := v\<rparr>)
      else if opt = 3 then Some (l\<lparr>start_data := v\<rparr>)
      else if opt = 4 then Some (l\<lparr>end_data := v\<rparr>)
      else if opt = 5 then Some (l\<lparr>start_stack := v\<rparr>)
      else if opt = 6 then Some (l\<lparr>start_brk := v\<rparr>)
      else if opt = 7 then Some (l\<lparr>brk := v\<rparr>)
      else if opt = 8 then Some (l\<lparr>arg_start := v\<rparr>)
      else if opt = 9 then Some (l\<lparr>arg_end := v\<rparr>)
      else if opt = 10 then Some (l\<lparr>env_start := v\<rparr>)
      else if opt = 11 then Some (l\<lparr>env_end := v\<rparr>)
      else None)"

text \<open>The members that the second \<^verbatim>\<open>switch\<close> requires to lie below some memory area.\<close>

definition needs_vma :: "int \<Rightarrow> bool" where
  "needs_vma opt = (opt = 5 \<or> opt = 8 \<or> opt = 9 \<or> opt = 10 \<or> opt = 11)"

definition set_one_member :: "('w::len word, 'k) mm_env \<Rightarrow> int \<Rightarrow> 'w word \<Rightarrow> ('w word, 'k) mm_state
    \<Rightarrow> int \<times> ('w word, 'k) mm_state" where
  "set_one_member E opt addr s =
     (let s = on_mm down_write s;
          vma = find_vma E addr (mmk s);
          (error, s) =
            (case set_member opt (ucast addr) (map_layout ucast (mm_values (mm s))) of
               None \<Rightarrow> (- EINVAL, s)
             | Some v \<Rightarrow>
                 let error = validate_prctl_map E \<lparr>map_values = v, auxv = 0, auxv_size = 0, exe_fd = - 1\<rparr> (mmk s) in
                 if error \<noteq> 0 then (error, s)
                 else if needs_vma opt \<and> \<not> vma then (- EFAULT, s)
                 else (0, on_mm (\<lambda>m. m\<lparr>mm_values := map_layout ucast v\<rparr>) s))
      in (error, on_mm up_write s))"

definition prctl_set_mm :: "('w::len word, 'k) mm_env \<Rightarrow> u8 list \<Rightarrow> int \<Rightarrow> 'w word \<Rightarrow> 'w word \<Rightarrow> 'w word
    \<Rightarrow> ('w word, 'k) mm_state \<Rightarrow> int \<times> ('w word, 'k) mm_state" where
  "prctl_set_mm E stack opt addr arg4 arg5 s =
     (if arg5 \<noteq> 0 \<or> arg4 \<noteq> 0 \<and> opt \<noteq> PR_SET_MM_AUXV \<and> opt \<noteq> PR_SET_MM_MAP \<and> opt \<noteq> PR_SET_MM_MAP_SIZE
      then (- EINVAL, s)
      else if checkpoint_restore E \<and> (opt = PR_SET_MM_MAP \<or> opt = PR_SET_MM_MAP_SIZE)
      then prctl_set_mm_map E opt addr arg4 s
      else if \<not> capable_resource E (mmk s) then (- EPERM, s)
      else if opt = PR_SET_MM_EXE_FILE then prctl_set_mm_exe_file E (ucast addr) s
      else if opt = PR_SET_MM_AUXV then prctl_set_auxv E stack addr arg4 s
      else if TASK_SIZE E \<le> addr \<or> addr < mmap_min_addr E then (- EINVAL, s)
      else set_one_member E opt addr s)"

end
