(* ===== verification/MemoryMapProperties.thy ===== *)
theory MemoryMapProperties
  imports MemoryMap
begin

text \<open>
  What \<^verbatim>\<open>prctl_set_mm\<close> keeps: the memory layout stays in range and ordered, errors change
  nothing, the lock is released on every path, the auxiliary vector stays terminated and takes no
  byte of the kernel stack, and file references balance. On a 32-bit kernel the heap check of a
  whole map looks at other numbers than the ones that are stored.
\<close>

subsection \<open>The layout\<close>

definition layout_ok :: "('w::len word, 'k) mm_env \<Rightarrow> 'k \<Rightarrow> 'w word layout \<Rightarrow> bool" where
  "layout_ok E k l =
     (list_all (in_task E) (layout_fields l) \<and>
      start_code l < end_code l \<and> start_data l < end_data l \<and> start_brk l \<le> brk l \<and>
      arg_start l \<le> arg_end l \<and> env_start l \<le> env_end l \<and>
      end_data l < start_brk l \<and> end_data l < brk l \<and>
      \<not> check_data_rlimit E (rlimit_data E k) (brk l) (start_brk l) (end_data l) (start_data l))"

lemma map_layout_simps [simp]:
  "start_code (map_layout f l) = f (start_code l)" "end_code (map_layout f l) = f (end_code l)"
  "start_data (map_layout f l) = f (start_data l)" "end_data (map_layout f l) = f (end_data l)"
  "start_brk (map_layout f l) = f (start_brk l)" "brk (map_layout f l) = f (brk l)"
  "start_stack (map_layout f l) = f (start_stack l)" "arg_start (map_layout f l) = f (arg_start l)"
  "arg_end (map_layout f l) = f (arg_end l)" "env_start (map_layout f l) = f (env_start l)"
  "env_end (map_layout f l) = f (env_end l)" "layout_fields (map_layout f l) = map f (layout_fields l)"
  by (simp_all add: map_layout_def layout_fields_def)

lemma map_layout_map_layout: "map_layout f (map_layout g l) = map_layout (f \<circ> g) l"
  by (simp add: map_layout_def)

lemma map_layout_id: "(\<And>x. f x = x) \<Longrightarrow> map_layout f l = l"
  by (simp add: map_layout_def)

lemma set_member_map_layout:
  "set_member opt (f v) (map_layout f l) = map_option (map_layout f) (set_member opt v l)"
  by (simp add: set_member_def map_layout_def)

text \<open>\<^verbatim>\<open>unsigned long\<close> has at most 64 bits, so widening to \<^verbatim>\<open>u64\<close> is lossless.\<close>

lemma unat_widen: "LENGTH('w::len) \<le> 64 \<Longrightarrow> unat (ucast (x :: 'w word) :: u64) = unat x"
proof -
  assume "LENGTH('w) \<le> 64"
  then have "unat x < 2 ^ 64"
    using unat_bound [of x] power_increasing [of "LENGTH('w)" 64 "2 :: nat"] by linarith
  then show ?thesis by (simp add: unsigned_ucast_eq take_bit_nat_eq_self)
qed

lemma widen_less: "LENGTH('w::len) \<le> 64 \<Longrightarrow> (ucast (x :: 'w word) :: u64) \<le> ucast y \<longleftrightarrow> x \<le> y"
  by (simp add: word_le_nat_alt unat_widen)

lemma narrow_widen: "LENGTH('w::len) \<le> 64 \<Longrightarrow> ucast (ucast (x :: 'w word) :: u64) = x"
  unfolding word_unat_eq_iff unsigned_ucast_eq [of "ucast x :: u64"] by (simp add: unat_widen)

lemma narrow_widen_layout:
  "LENGTH('w::len) \<le> 64 \<Longrightarrow> map_layout ucast (map_layout ucast (l :: 'w word layout) :: u64 layout) = l"
  by (simp add: map_layout_map_layout map_layout_id narrow_widen)

lemma widen_narrow:
  assumes "LENGTH('w::len) = 64"
  shows "ucast (ucast (x :: u64) :: 'w word) = x"
proof -
  have "unat (ucast x :: 'w word) = take_bit LENGTH('w) (unat x)" by (rule unsigned_ucast_eq)
  also have "\<dots> = unat x" using unat_bound [of x] assms by (simp add: take_bit_nat_eq_self)
  finally show ?thesis using assms by (simp only: word_unat_eq_iff unat_widen)
qed

lemma validate_layout:
  fixes l :: "'w::len word layout"
  assumes "LENGTH('w) \<le> 64" "validate_prctl_map E pm k = 0" "map_values pm = map_layout ucast l"
  shows "layout_ok E k l"
  using assms(2, 3) widen_less [OF assms(1)]
  by (auto simp: validate_prctl_map_def layout_ok_def in_task_def Let_def narrow_widen [OF assms(1)]
      list_ex_iff list_all_iff not_le not_less split: if_splits)

subsection \<open>Each operation\<close>

lemma sem_balance [simp]: "up_write (down_write m) = m" "up_read (down_read m) = m"
  by (simp_all add: sem_defs)

lemma up_write_values:
  "mm_values (up_write m) = mm_values m" "saved_auxv (up_write m) = saved_auxv m" "exe_file (up_write m) = exe_file m"
  "mmap_areas (up_write m) = mmap_areas m" "sem_readers (up_write m) = sem_readers m"
  "sem_writers (up_write (f (down_write m))) = sem_writers (f (down_write m)) - 1"
  "mm_values (down_write m) = mm_values m" "saved_auxv (down_write m) = saved_auxv m"
  "exe_file (down_write m) = exe_file m" "mmap_areas (down_write m) = mmap_areas m"
  "sem_readers (down_write m) = sem_readers m" "sem_writers (down_write m) = Suc (sem_writers m)"
  by (simp_all add: sem_defs)

text \<open>One member: exactly that member changes, under a valid layout.\<close>

lemma set_one_member_cases:
  fixes s :: "('w::len word, 'k) mm_state"
  assumes "LENGTH('w) \<le> 64" "set_one_member E opt addr s = (r, s')"
  obtains "r \<noteq> 0" "s' = s"
  | l where "r = 0" "set_member opt addr (mm_values (mm s)) = Some l" "layout_ok E (mmk s) l"
      "s' = s\<lparr>mm := (mm s)\<lparr>mm_values := l\<rparr>\<rparr>"
proof -
  have same: "on_mm up_write (on_mm down_write s) = s" by (simp add: on_mm_def)
  have upd: "on_mm up_write (on_mm (\<lambda>m. m\<lparr>mm_values := l\<rparr>) (on_mm down_write s)) = s\<lparr>mm := (mm s)\<lparr>mm_values := l\<rparr>\<rparr>" for l
    by (simp add: on_mm_def sem_defs)
  let ?m = "set_member opt addr (mm_values (mm s))"
  show thesis
  proof (cases ?m)
    case None
    then show thesis
      using assms(2) that(1) by (simp add: set_one_member_def set_member_map_layout up_write_values Let_def same)
  next
    case (Some l)
    let ?pm = "\<lparr>map_values = map_layout ucast l, auxv = 0, auxv_size = 0, exe_fd = - 1\<rparr> :: 'w word prctl_mm_map"
    show thesis
    proof (cases "validate_prctl_map E ?pm (mmk s) = 0 \<and> (needs_vma opt \<longrightarrow> find_vma E addr (mmk s))")
      case True
      then have "layout_ok E (mmk s) l" using validate_layout [OF assms(1), of E ?pm "mmk s" l] by simp
      then show thesis
        using True Some assms(2) that(2) [OF _ Some]
        by (auto simp: set_one_member_def set_member_map_layout up_write_values Let_def upd narrow_widen_layout [OF assms(1)])
    next
      case False
      then show thesis
        using Some assms(2) that(1)
        by (auto simp: set_one_member_def set_member_map_layout up_write_values Let_def same split: if_splits)
    qed
  qed
qed

text \<open>The executable file: nothing but \<^verbatim>\<open>exe_file\<close> changes, and only on success.\<close>

lemma exe_file_checks_mm:
  assumes "exe_file_checks E f s = (r, s')"
  shows "mm s' = (if r = 0 then (mm s)\<lparr>exe_file := Some f\<rparr> else mm s)"
  using assms
  by (auto simp: exe_file_checks_def exchange_exe_file_def Let_def split: if_splits prod.splits option.splits)

lemma prctl_set_mm_exe_file_mm:
  assumes "prctl_set_mm_exe_file E fd s = (r, s')"
  shows "\<exists>f. mm s' = (if r = 0 then (mm s)\<lparr>exe_file := Some f\<rparr> else mm s)"
  using assms exe_file_checks_mm [of E _ "s\<lparr>mmk := snd (fdget E fd (mmk s))\<rparr>"]
  by (fastforce simp: prctl_set_mm_exe_file_def Let_def split: prod.splits option.splits)

text \<open>A whole map: either an error that changes nothing of the map, or the new values.\<close>

lemma prctl_set_mm_map_cases:
  fixes s :: "('w::len word, 'k) mm_state"
  assumes "prctl_set_mm_map E opt addr n s = (r, s')"
  obtains "mm s' = mm s" "r = 0 \<Longrightarrow> opt = 15"
  | pm exe v a where "r = 0" "opt \<noteq> 15" "copy_map_from_user E addr (mmk s) = Some pm"
      "validate_prctl_map E pm (mmk s) = 0"
      "v = (if auxv_size pm = 0 then Some (saved_auxv (mm s))
        else map_option (\<lambda>b. end_auxv (AT_VECTOR_SIZE E) (LENGTH('w) div 8)
            (b @ replicate (AT_VECTOR_SIZE E * (LENGTH('w) div 8) - length b) 0))
          (copy_auxv_from_user E (auxv pm) (unat (auxv_size pm)) (mmk s)))"
      "v = Some a"
      "mm s' = (mm s)\<lparr>mm_values := map_layout ucast (map_values pm), exe_file := exe, saved_auxv := a\<rparr>"
proof -
  let ?auxv = "\<lambda>pm. if auxv_size pm \<noteq> 0
      then map_option (\<lambda>b. end_auxv (AT_VECTOR_SIZE E) (LENGTH('w) div 8)
            (b @ replicate (AT_VECTOR_SIZE E * (LENGTH('w) div 8) - length b) 0))
          (copy_auxv_from_user E (auxv pm) (unat (auxv_size pm)) (mmk s))
      else Some []"
  show thesis
  proof (cases "\<exists>pm a s1. opt \<noteq> 15 \<and> copy_map_from_user E addr (mmk s) = Some pm \<and> validate_prctl_map E pm (mmk s) = 0 \<and>
      n = ucast (sizeof_prctl_map E) \<and> ?auxv pm = Some a \<and>
      (if exe_fd pm \<noteq> - 1 then prctl_set_mm_exe_file E (exe_fd pm) s else (0, s)) = (0, s1)")
    case True
    then obtain pm a s1 where pm: "opt \<noteq> 15" "copy_map_from_user E addr (mmk s) = Some pm"
      "validate_prctl_map E pm (mmk s) = 0" "n = ucast (sizeof_prctl_map E)" "?auxv pm = Some a"
      and s1: "(if exe_fd pm \<noteq> - 1 then prctl_set_mm_exe_file E (exe_fd pm) s else (0, s)) = (0, s1)"
      by blast
    have "mm s1 = (mm s)\<lparr>exe_file := exe_file (mm s1)\<rparr>"
      using s1 prctl_set_mm_exe_file_mm [of E "exe_fd pm" s 0 s1] by (auto split: if_splits)
    then obtain exe where exe: "mm s1 = (mm s)\<lparr>exe_file := exe\<rparr>" by blast
    have r: "r = 0" and new: "mm s' = (mm s1)\<lparr>mm_values := map_layout ucast (map_values pm),
        saved_auxv := (if auxv_size pm \<noteq> 0 then a else saved_auxv (mm s1))\<rparr>"
      using assms pm s1 by (auto simp: prctl_set_mm_map_def Let_def sem_defs split: if_splits)
    have s': "mm s' = (mm s)\<lparr>mm_values := map_layout ucast (map_values pm), exe_file := exe,
        saved_auxv := (if auxv_size pm \<noteq> 0 then a else saved_auxv (mm s))\<rparr>"
      unfolding new exe by simp
    show thesis
      by (rule that(2) [OF r pm(1-3) refl _ s']) (use pm(5) in \<open>auto split: if_splits\<close>)
  next
    case False
    show thesis
    proof (rule that(1))
      show "mm s' = mm s"
        using assms False prctl_set_mm_exe_file_mm
        by (fastforce simp: prctl_set_mm_map_def Let_def split: if_splits prod.splits option.splits)
      show "r = 0 \<Longrightarrow> opt = 15"
        using assms False by (auto simp: prctl_set_mm_map_def Let_def split: if_splits prod.splits option.splits)
    qed
  qed
qed

subsection \<open>The whole call\<close>

text \<open>The branches of \<^verbatim>\<open>prctl_set_mm\<close>.\<close>

lemma prctl_set_mm_cases:
  assumes "prctl_set_mm E stack opt addr arg4 arg5 s = (r, s')"
  obtains "r \<noteq> 0" "s' = s"
  | "opt = 14 \<or> opt = 15" "prctl_set_mm_map E opt addr arg4 s = (r, s')"
  | "opt = 13" "prctl_set_mm_exe_file E (ucast addr) s = (r, s')"
  | "opt = 12" "prctl_set_auxv E stack addr arg4 s = (r, s')"
  | "opt \<noteq> 12" "opt \<noteq> 13" "in_task E addr" "set_one_member E opt addr s = (r, s')"
  using assms by (auto simp: prctl_set_mm_def in_task_def not_le not_less split: if_splits)

lemma prctl_set_auxv_mm:
  "prctl_set_auxv E stack addr n s = (r, s') \<Longrightarrow>
   (\<exists>v. mm s' = (mm s)\<lparr>saved_auxv := v\<rparr>) \<and> (r \<noteq> 0 \<longrightarrow> s' = s)"
  by (rule conjI, rule exI [of _ "saved_auxv (mm s')"])
    (auto simp: prctl_set_auxv_def Let_def split: if_splits option.splits)

lemma set_member_options: "set_member opt v l = Some l' \<Longrightarrow> 1 \<le> opt \<and> opt \<le> 11"
  by (auto simp: set_member_def split: if_splits)

text \<open>
  C19: whatever its arguments, \<^verbatim>\<open>prctl_set_mm\<close> releases the lock it takes; an error leaves the memory
  description as it was; and if the layout changes, then the call succeeded and the new layout lies
  within the task's address space, with ordered code, data, argument and environment ranges, the
  heap above the data, and within the data limit. An option for a single member changes only that
  member, to the given address. The whole-map option is meant for 64-bit \<^verbatim>\<open>unsigned long\<close> here.
\<close>

theorem prctl_set_mm_keeps_layout_ok:
  fixes s :: "('w::len word, 'k) mm_state"
  assumes width: "LENGTH('w) \<le> 64" "opt = 14 \<Longrightarrow> LENGTH('w) = 64"
    and ret: "prctl_set_mm E stack opt addr arg4 arg5 s = (r, s')"
  shows "sem_readers (mm s') = sem_readers (mm s) \<and> sem_writers (mm s') = sem_writers (mm s) \<and>
    (r \<noteq> 0 \<longrightarrow> mm s' = mm s) \<and>
    (mm_values (mm s') \<noteq> mm_values (mm s) \<longrightarrow> layout_ok E (mmk s) (mm_values (mm s'))) \<and>
    (r = 0 \<and> 1 \<le> opt \<and> opt \<le> 11 \<longrightarrow>
       Some (mm_values (mm s')) = set_member opt addr (mm_values (mm s)))"
  using ret
proof (cases rule: prctl_set_mm_cases)
  case 1
  then show ?thesis by simp
next
  case 2
  from 2(2) show ?thesis
  proof (cases rule: prctl_set_mm_map_cases)
    case 1
    then show ?thesis using 2(1) by auto
  next
    case (2 pm exe v a)
    have w: "LENGTH('w) = 64" using width(2) 2(2) \<open>opt = 14 \<or> opt = 15\<close> by simp
    define l :: "'w word layout" where "l = map_layout ucast (map_values pm)"
    have "map_layout ucast l = map_values pm"
      by (simp add: l_def map_layout_map_layout map_layout_id widen_narrow [OF w])
    then have "layout_ok E (mmk s) l" using validate_layout [OF width(1) 2(4)] by simp
    then show ?thesis using 2(1, 7) \<open>opt = 14 \<or> opt = 15\<close> by (auto simp: l_def)
  qed
next
  case 3
  then show ?thesis using prctl_set_mm_exe_file_mm [OF 3(2)] by (auto split: if_splits)
next
  case 4
  then show ?thesis using prctl_set_auxv_mm [OF 4(2)] by auto
next
  case 5
  from width(1) 5(4) show ?thesis by (cases rule: set_one_member_cases) auto
qed

subsection \<open>The auxiliary vector\<close>

definition auxv_ended :: "nat \<Rightarrow> nat \<Rightarrow> u8 list \<Rightarrow> bool" where
  "auxv_ended entries wsize v =
     (length v = entries * wsize \<and> (\<forall>i<entries * wsize. (entries - 2) * wsize \<le> i \<longrightarrow> v ! i = 0))"

lemma length_end_auxv: "2 \<le> n \<Longrightarrow> (n - 2) * w \<le> length b \<Longrightarrow> length (end_auxv n w b) = n * w"
  by (simp add: end_auxv_def diff_mult_distrib)

lemma nth_end_auxv:
  "2 \<le> n \<Longrightarrow> (n - 2) * w \<le> length b \<Longrightarrow> i < n * w \<Longrightarrow>
   end_auxv n w b ! i = (if i < (n - 2) * w then b ! i else 0)"
  by (auto simp: end_auxv_def nth_append diff_mult_distrib)

lemma end_auxv_ended: "2 \<le> n \<Longrightarrow> (n - 2) * w \<le> length b \<Longrightarrow> auxv_ended n w (end_auxv n w b)"
  by (simp add: auxv_ended_def length_end_auxv nth_end_auxv)

lemma auxv_ended_merge: "auxv_ended n w a \<Longrightarrow> auxv_ended n w b \<Longrightarrow> k \<le> n * w \<Longrightarrow> auxv_ended n w (take k a @ drop k b)"
  by (auto simp: auxv_ended_def nth_append)

lemma end_auxv_prefix:
  assumes "2 \<le> n" "length b = k" "k \<le> n * w" "length c = n * w - k" "length d = n * w - k"
  shows "take k (end_auxv n w (b @ c)) = take k (end_auxv n w (b @ d))"
proof (rule nth_equalityI)
  have len: "(n - 2) * w \<le> length (b @ c)" "(n - 2) * w \<le> length (b @ d)"
    using assms by (simp_all add: diff_mult_distrib)
  then show "length (take k (end_auxv n w (b @ c))) = length (take k (end_auxv n w (b @ d)))"
    using assms by (simp add: length_end_auxv)
  fix i
  assume "i < length (take k (end_auxv n w (b @ c)))"
  then show "take k (end_auxv n w (b @ c)) ! i = take k (end_auxv n w (b @ d)) ! i"
    using assms len by (simp add: nth_end_auxv length_end_auxv nth_append)
qed

text \<open>Both operations that write the vector keep it ended.\<close>

lemma set_mm_map_ended:
  fixes s :: "('w::len word, 'k) mm_state"
  assumes n: "2 \<le> AT_VECTOR_SIZE E"
    and ended: "auxv_ended (AT_VECTOR_SIZE E) (LENGTH('w) div 8) (saved_auxv (mm s))"
    and ret: "prctl_set_mm_map E opt addr len s = (r, s')"
  shows "auxv_ended (AT_VECTOR_SIZE E) (LENGTH('w) div 8) (saved_auxv (mm s'))"
  using ret
proof (cases rule: prctl_set_mm_map_cases)
  case 1
  then show ?thesis using ended by simp
next
  case (2 pm exe v a)
  show ?thesis
  proof (cases "auxv_size pm = 0")
    case True
    then show ?thesis using 2 ended by simp
  next
    case False
    then obtain b where "a = end_auxv (AT_VECTOR_SIZE E) (LENGTH('w) div 8)
        (b @ replicate (AT_VECTOR_SIZE E * (LENGTH('w) div 8) - length b) 0)"
      using 2(5, 6) by (cases "copy_auxv_from_user E (auxv pm) (unat (auxv_size pm)) (mmk s)") auto
    moreover have "(AT_VECTOR_SIZE E - 2) * (LENGTH('w) div 8)
        \<le> length (b @ replicate (AT_VECTOR_SIZE E * (LENGTH('w) div 8) - length b) 0)"
      by (simp add: diff_mult_distrib)
    ultimately show ?thesis using 2(7) end_auxv_ended [OF n, of _ "b @ _"] by simp
  qed
qed

lemma set_auxv_ended:
  fixes s :: "('w::len word, 'k) mm_state"
  assumes n: "2 \<le> AT_VECTOR_SIZE E"
    and copies: "\<And>a n k b. copy_auxv_from_user E a n k = Some b \<Longrightarrow> length b = n"
    and ended: "auxv_ended (AT_VECTOR_SIZE E) (LENGTH('w) div 8) (saved_auxv (mm s))"
    and stack: "length stack = AT_VECTOR_SIZE E * (LENGTH('w) div 8)"
    and ret: "prctl_set_auxv E stack addr len s = (r, s')"
  shows "auxv_ended (AT_VECTOR_SIZE E) (LENGTH('w) div 8) (saved_auxv (mm s'))"
proof (cases "s' = s")
  case False
  then obtain b where b: "copy_auxv_from_user E addr (unat len) (mmk s) = Some b"
      "unat len \<le> AT_VECTOR_SIZE E * (LENGTH('w) div 8)"
    and s': "saved_auxv (mm s') = take (unat len) (end_auxv (AT_VECTOR_SIZE E) (LENGTH('w) div 8)
      (b @ drop (unat len) stack)) @ drop (unat len) (saved_auxv (mm s))"
    using ret by (auto simp: prctl_set_auxv_def Let_def split: if_splits option.splits)
  have "(AT_VECTOR_SIZE E - 2) * (LENGTH('w) div 8) \<le> length (b @ drop (unat len) stack)"
    using stack b(2) copies [OF b(1)] by (simp add: diff_mult_distrib)
  then show ?thesis unfolding s' by (intro auxv_ended_merge end_auxv_ended n ended b(2))
qed (use ended in simp)

text \<open>
  C20: the saved auxiliary vector always ends with its two null entries: whatever part of it
  \<^verbatim>\<open>prctl_set_mm\<close> replaces, through \<^verbatim>\<open>PR_SET_MM_AUXV\<close> or as part of a whole map, an ended vector
  stays ended. The call's result and effect do not depend on what the uninitialised local array
  held, so no byte of the kernel stack gets into the vector.
\<close>

theorem auxv_stays_ended:
  fixes s :: "('w::len word, 'k) mm_state"
  assumes n: "2 \<le> AT_VECTOR_SIZE E"
    and copies: "\<And>a n k b. copy_auxv_from_user E a n k = Some b \<Longrightarrow> length b = n"
    and ended: "auxv_ended (AT_VECTOR_SIZE E) (LENGTH('w) div 8) (saved_auxv (mm s))"
    and stack: "length stack = AT_VECTOR_SIZE E * (LENGTH('w) div 8)" "length stack' = AT_VECTOR_SIZE E * (LENGTH('w) div 8)"
    and ret: "prctl_set_mm E stack opt addr arg4 arg5 s = (r, s')"
  shows "auxv_ended (AT_VECTOR_SIZE E) (LENGTH('w) div 8) (saved_auxv (mm s')) \<and>
    prctl_set_mm E stack' opt addr arg4 arg5 s = (r, s')"
proof
  have auxv: "prctl_set_auxv E stack addr arg4 s = prctl_set_auxv E stack' addr arg4 s"
    using end_auxv_prefix [OF n copies] stack
    by (auto simp: prctl_set_auxv_def Let_def split: option.split)
  show "prctl_set_mm E stack' opt addr arg4 arg5 s = (r, s')"
    using ret unfolding prctl_set_mm_def auxv .
  show "auxv_ended (AT_VECTOR_SIZE E) (LENGTH('w) div 8) (saved_auxv (mm s'))"
    using ret
  proof (cases rule: prctl_set_mm_cases)
    case 2
    then show ?thesis using set_mm_map_ended [OF n ended] by blast
  next
    case 3
    then show ?thesis using prctl_set_mm_exe_file_mm [OF 3(2)] ended by (auto split: if_splits)
  next
    case 4
    show ?thesis by (rule set_auxv_ended [OF n copies ended stack(1) 4(2)])
  next
    case 5
    have "saved_auxv (mm s') = saved_auxv (mm s)"
      using 5(4) by (auto simp: set_one_member_def Let_def sem_defs split: option.splits if_splits)
    then show ?thesis using ended by simp
  qed (use ended in simp)
qed

subsection \<open>File references\<close>

text \<open>
  The reference counts that the kernel's file functions keep. \<^verbatim>\<open>fdget\<close> takes a reference only when
  the file table is shared (its flag), and \<^verbatim>\<open>fdput\<close> gives back what \<^verbatim>\<open>fdget\<close> took.
\<close>

definition add_ref :: "nat \<Rightarrow> int \<Rightarrow> (nat \<Rightarrow> int) \<Rightarrow> nat \<Rightarrow> int" where
  "add_ref f d c = c(f := c f + d)"

lemma add_ref_simps:
  "add_ref f d (add_ref f e c) = add_ref f (d + e) c" "add_ref f 0 c = c"
  "add_ref f d (add_ref g e c) = add_ref g e (add_ref f d c)"
  by (auto simp: add_ref_def fun_eq_iff)

lemma add_ref_back [simp]: "add_ref f (- d) (add_ref g e (add_ref f d c)) = add_ref g e c" "add_ref f (- d) (add_ref f d c) = c"
  by (auto simp: add_ref_def fun_eq_iff)

text \<open>The reference that moves when the executable file changes.\<close>

definition exchanged :: "nat \<Rightarrow> nat option \<Rightarrow> (nat \<Rightarrow> int) \<Rightarrow> nat \<Rightarrow> int" where
  "exchanged f old c = (case old of None \<Rightarrow> add_ref f 1 c | Some g \<Rightarrow> add_ref g (- 1) (add_ref f 1 c))"

locale file_refs =
  fixes E :: "('u, 'k) mm_env"
    and refs :: "'k \<Rightarrow> nat \<Rightarrow> int"
  assumes fdget_some: "fdget E fd k = (Some (f, flag), k') \<Longrightarrow> refs k' = add_ref f (of_bool flag) (refs k)"
    and fdget_none: "fdget E fd k = (None, k') \<Longrightarrow> refs k' = refs k"
    and fdput_refs: "refs (fdput E (f, flag) k) = add_ref f (- of_bool flag) (refs k)"
    and get_file_refs: "refs (get_file E f k) = add_ref f 1 (refs k)"
    and fput_refs: "refs (fput E f k) = add_ref f (- 1) (refs k)"
    and get_mm_exe_refs: "get_mm_exe_file E exe k = (r, k') \<Longrightarrow>
      r = exe \<and> refs k' = (case exe of None \<Rightarrow> refs k | Some f \<Rightarrow> add_ref f 1 (refs k))"
begin

lemma exchange_refs:
  "exchange_exe_file E f s = (r, s') \<Longrightarrow> r = 0 \<and> refs (mmk s') = exchanged f (exe_file (mm s)) (refs (mmk s))"
  by (auto simp: exchange_exe_file_def exchanged_def Let_def get_file_refs fput_refs split: option.splits)

lemma checks_refs:
  assumes "exe_file_checks E f s = (r, s')"
  shows "refs (mmk s') = (if r = 0 then exchanged f (exe_file (mm s)) (refs (mmk s)) else refs (mmk s))"
    and "r = 0 \<Longrightarrow> is_regular E f (mmk s) \<and> \<not> path_noexec E f (mmk s) \<and> exec_permission E f (mmk s) = 0 \<and>
      (\<forall>old. exe_file (mm s) = Some old \<longrightarrow> \<not> maps_file E old (mmap_areas (mm s)))"
proof -
  obtain exe k where g: "get_mm_exe_file E (exe_file (mm s)) (mmk s) = (exe, k)" by fastforce
  note g' = get_mm_exe_refs [OF g]
  show "refs (mmk s') = (if r = 0 then exchanged f (exe_file (mm s)) (refs (mmk s)) else refs (mmk s))"
    using assms g g' exchange_refs
    by (cases "exe_file (mm s)")
      (fastforce simp: exe_file_checks_def Let_def fput_refs sem_defs split: if_splits)+
  show "r = 0 \<Longrightarrow> is_regular E f (mmk s) \<and> \<not> path_noexec E f (mmk s) \<and> exec_permission E f (mmk s) = 0 \<and>
      (\<forall>old. exe_file (mm s) = Some old \<longrightarrow> \<not> maps_file E old (mmap_areas (mm s)))"
    using assms g g' by (auto simp: exe_file_checks_def Let_def sem_defs split: if_splits)
qed

lemma set_exe_file_refs:
  assumes "prctl_set_mm_exe_file E fd s = (r, s')"
  shows "r \<noteq> 0 \<Longrightarrow> refs (mmk s') = refs (mmk s)"
    and "r = 0 \<Longrightarrow> \<exists>f flag k. fdget E fd (mmk s) = (Some (f, flag), k) \<and>
      is_regular E f k \<and> \<not> path_noexec E f k \<and> exec_permission E f k = 0 \<and>
      (\<forall>old. exe_file (mm s) = Some old \<longrightarrow> \<not> maps_file E old (mmap_areas (mm s))) \<and>
      mm s' = (mm s)\<lparr>exe_file := Some f\<rparr> \<and>
      refs (mmk s') = exchanged f (exe_file (mm s)) (refs (mmk s))"
proof -
  obtain exe k where fd: "fdget E fd (mmk s) = (exe, k)" by fastforce
  have "(r \<noteq> 0 \<longrightarrow> refs (mmk s') = refs (mmk s)) \<and> (r = 0 \<longrightarrow> (\<exists>f flag. exe = Some (f, flag) \<and>
      is_regular E f k \<and> \<not> path_noexec E f k \<and> exec_permission E f k = 0 \<and>
      (\<forall>old. exe_file (mm s) = Some old \<longrightarrow> \<not> maps_file E old (mmap_areas (mm s))) \<and>
      mm s' = (mm s)\<lparr>exe_file := Some f\<rparr> \<and>
      refs (mmk s') = exchanged f (exe_file (mm s)) (refs (mmk s))))"
  proof (cases exe)
    case None
    then show ?thesis using assms fd fdget_none by (auto simp: prctl_set_mm_exe_file_def)
  next
    case (Some ff)
    obtain f flag where ff: "ff = (f, flag)" by fastforce
    obtain e s1 where c: "exe_file_checks E f (s\<lparr>mmk := k\<rparr>) = (e, s1)" by fastforce
    have s': "r = e" "s' = on_kernel (fdput E (f, flag)) s1"
      using assms fd Some ff c by (simp_all add: prctl_set_mm_exe_file_def)
    have k: "refs k = add_ref f (of_bool flag) (refs (mmk s))" using fdget_some fd Some ff by simp
    show ?thesis
      using checks_refs [OF c] exe_file_checks_mm [OF c] s' k fdput_refs [of f flag] Some ff
      by (auto simp: exchanged_def add_ref_def fun_eq_iff split: option.splits)
  qed
  then show "r \<noteq> 0 \<Longrightarrow> refs (mmk s') = refs (mmk s)"
    and "r = 0 \<Longrightarrow> \<exists>f flag k. fdget E fd (mmk s) = (Some (f, flag), k) \<and>
      is_regular E f k \<and> \<not> path_noexec E f k \<and> exec_permission E f k = 0 \<and>
      (\<forall>old. exe_file (mm s) = Some old \<longrightarrow> \<not> maps_file E old (mmap_areas (mm s))) \<and>
      mm s' = (mm s)\<lparr>exe_file := Some f\<rparr> \<and>
      refs (mmk s') = exchanged f (exe_file (mm s)) (refs (mmk s))"
    using fd by blast+
qed

end

subsection \<open>A kernel with a shared file table\<close>

text \<open>
  The kernel state holds the reference counts and the table of open files; every \<^verbatim>\<open>fdget\<close> takes a
  reference. Odd file numbers are regular executable files. \<open>tsize\<close> is the size of the address
  space and \<open>pm\<close> the map that user space passes.
\<close>

record fkernel =
  frefs :: "nat \<Rightarrow> int"
  ftable :: "u32 \<Rightarrow> nat option"

definition counted_env :: "'w::len word \<Rightarrow> 'w word prctl_mm_map option \<Rightarrow> ('w word, fkernel) mm_env" where
  "counted_env tsize pm = \<lparr>TASK_SIZE = tsize, mmap_min_addr = 4096, AT_VECTOR_SIZE = 44, sizeof_prctl_map = 104,
     checkpoint_restore = True, rlimit_data = (\<lambda>_. - 1),
     check_data_rlimit = (\<lambda>lim new start end_d start_d. lim < - 1 \<and> lim < (new - start) + (end_d - start_d)),
     ns_capable_admin = (\<lambda>_. True), capable_resource = (\<lambda>_. True),
     fdget = (\<lambda>fd k. case ftable k fd of None \<Rightarrow> (None, k)
       | Some f \<Rightarrow> (Some (f, True), k\<lparr>frefs := add_ref f 1 (frefs k)\<rparr>)),
     fdput = (\<lambda>(f, flag) k. k\<lparr>frefs := add_ref f (- of_bool flag) (frefs k)\<rparr>),
     get_file = (\<lambda>f k. k\<lparr>frefs := add_ref f 1 (frefs k)\<rparr>),
     fput = (\<lambda>f k. k\<lparr>frefs := add_ref f (- 1) (frefs k)\<rparr>),
     get_mm_exe_file = (\<lambda>exe k. (exe, case exe of None \<Rightarrow> k | Some f \<Rightarrow> k\<lparr>frefs := add_ref f 1 (frefs k)\<rparr>)),
     is_regular = (\<lambda>f _. odd f), path_noexec = (\<lambda>_ _. False), exec_permission = (\<lambda>_ _. 0),
     path_equal = (=), find_vma = (\<lambda>_ _. True), copy_map_from_user = (\<lambda>_ _. pm),
     copy_auxv_from_user = (\<lambda>_ n _. Some (replicate n 7)), put_uint = (\<lambda>_ _ k. (0, k))\<rparr>"

interpretation counted: file_refs "counted_env tsize pm" frefs for tsize pm
  by unfold_locales (auto simp: counted_env_def split: option.splits)

text \<open>
  C21: setting the executable file takes one reference to the new file and drops one of the old
  file when it succeeds, and leaves all reference counts and the memory description as they were
  when it fails; it succeeds only for a regular, executable file and only if no memory area
  maps the old executable any more.
\<close>

theorem exe_file_exchange_balanced:
  assumes "file_refs E refs" "prctl_set_mm_exe_file E fd s = (r, s')"
  shows "(r \<noteq> 0 \<longrightarrow> mm s' = mm s \<and> refs (mmk s') = refs (mmk s)) \<and>
    (r = 0 \<longrightarrow> (\<exists>f flag k. fdget E fd (mmk s) = (Some (f, flag), k) \<and>
      is_regular E f k \<and> \<not> path_noexec E f k \<and> exec_permission E f k = 0 \<and>
      (\<forall>old. exe_file (mm s) = Some old \<longrightarrow> \<not> maps_file E old (mmap_areas (mm s))) \<and>
      mm s' = (mm s)\<lparr>exe_file := Some f\<rparr> \<and>
      refs (mmk s') = exchanged f (exe_file (mm s)) (refs (mmk s))))"
proof -
  have "r \<noteq> 0 \<longrightarrow> mm s' = mm s" using prctl_set_mm_exe_file_mm [OF assms(2)] by auto
  then show ?thesis using file_refs.set_exe_file_refs [OF assms] by blast
qed

text \<open>A process whose executable is file 1, with file 3 open as descriptor 5.\<close>

definition sample_layout :: "'w::len word layout" where
  "sample_layout = \<lparr>start_code = 0x1000, end_code = 0x2000, start_data = 0x3000, end_data = 0x4000,
     start_brk = 0x5000, brk = 0x6000, start_stack = 0x7000, arg_start = 0x7100, arg_end = 0x7200,
     env_start = 0x7300, env_end = 0x7400\<rparr>"

definition sample_mm :: "('w::len word, fkernel) mm_state" where
  "sample_mm = \<lparr>mm = \<lparr>mm_values = sample_layout, saved_auxv = replicate (44 * (LENGTH('w) div 8)) 0, exe_file = Some 1,
      mmap_areas = [None, Some 2], sem_readers = 0, sem_writers = 0\<rparr>,
     mmk = \<lparr>frefs = (\<lambda>_. 1), ftable = (\<lambda>fd. if fd = 5 then Some 3 else None)\<rparr>\<rparr>"

abbreviation env64 :: "(u64, fkernel) mm_env" where "env64 \<equiv> counted_env 0x7FFFFFFFF000 None"

theorem exe_file_exchange_balanced_witness:
  "\<exists>s'. prctl_set_mm_exe_file env64 5 sample_mm = (0, s') \<and> exe_file (mm s') = Some 3 \<and>
     frefs (mmk s') = exchanged 3 (Some 1) (\<lambda>_. 1) \<and> frefs (mmk s') 3 = 2 \<and> frefs (mmk s') 1 = 0"
proof -
  have "fst (prctl_set_mm_exe_file env64 5 sample_mm) = 0"
    by (simp add: prctl_set_mm_exe_file_def counted_env_def sample_mm_def exe_file_checks_def
        exchange_exe_file_def sem_defs on_mm_def on_kernel_def)
  then obtain s' where s': "prctl_set_mm_exe_file env64 5 sample_mm = (0, s')" by (metis prod.collapse)
  show ?thesis
    using exe_file_exchange_balanced [OF counted.file_refs_axioms s'] s'
    by (auto simp: counted_env_def sample_mm_def exchanged_def add_ref_def)
qed

theorem prctl_set_mm_keeps_layout_ok_witness:
  "\<exists>s'. prctl_set_mm env64 [] 4 0x4800 0 0 sample_mm = (0, s') \<and>
     mm_values (mm s') = sample_layout\<lparr>end_data := 0x4800\<rparr> \<and> 
     layout_ok env64 (mmk (sample_mm :: (u64, fkernel) mm_state)) (mm_values (mm s'))"
proof -
  have "fst (prctl_set_mm env64 [] 4 0x4800 0 0 sample_mm) = 0"
    by (simp add: prctl_set_mm_def set_one_member_def set_member_def validate_prctl_map_def layout_fields_def map_layout_def
        counted_env_def sample_mm_def sample_layout_def needs_vma_def on_mm_def sem_defs Let_def)
  then obtain s' where s': "prctl_set_mm env64 [] 4 0x4800 0 0 sample_mm = (0, s')" by (metis prod.collapse)
  have "mm_values (mm (sample_mm :: (u64, fkernel) mm_state)) = sample_layout" by (simp add: sample_mm_def)
  then show ?thesis
    using prctl_set_mm_keeps_layout_ok [OF _ _ s'] s' by (auto simp: set_member_def sample_layout_def)
qed

theorem auxv_stays_ended_witness:
  "\<exists>s'. prctl_set_mm env64 (replicate 352 9) 12 0x1000 350 0 sample_mm = (0, s') \<and>
     auxv_ended 44 8 (saved_auxv (mm s'))"
proof -
  have "fst (prctl_set_mm env64 (replicate 352 9) 12 0x1000 350 0 sample_mm) = 0"
    by (simp add: prctl_set_mm_def prctl_set_auxv_def counted_env_def Let_def)
  then obtain s' where s': "prctl_set_mm env64 (replicate 352 9) 12 0x1000 350 0 sample_mm = (0, s')"
    by (metis prod.collapse)
  have e: "AT_VECTOR_SIZE env64 = 44" "\<And>a n k. copy_auxv_from_user env64 a n k = Some (replicate n 7)"
    by (simp_all add: counted_env_def)
  have "auxv_ended 44 8 (saved_auxv (mm (sample_mm :: (u64, fkernel) mm_state)))"
    by (simp add: sample_mm_def auxv_ended_def)
  then show ?thesis
    using auxv_stays_ended [OF _ _ _ _ _ s', of "replicate 352 9"] s' by (simp add: e)
qed

subsection \<open>The whole map on a 32-bit kernel\<close>

text \<open>
  The members of a whole map are 64 bits wide. On a kernel with 32-bit \<^verbatim>\<open>unsigned long\<close> the range
  and order checks look at the low 32 bits, which are what is stored, but the two heap checks
  compare the full values: a map whose \<^verbatim>\<open>start_brk\<close> and \<^verbatim>\<open>brk\<close> have bit 32 set is accepted, and the
  heap that is stored lies inside the data segment.
\<close>

definition high_brk_map :: "u32 prctl_mm_map" where
  "high_brk_map = \<lparr>map_values = sample_layout\<lparr>start_brk := 0x100003100, brk := 0x100003200\<rparr>,
     auxv = 0, auxv_size = 0, exe_fd = - 1\<rparr>"

theorem heap_check_ignores_truncation:
  "\<exists>s'. prctl_set_mm (counted_env 0xC0000000 (Some high_brk_map)) [] 14 0x1000 104 0 sample_mm = (0, s') \<and>
     start_data (mm_values (mm s')) < brk (mm_values (mm s')) \<and> brk (mm_values (mm s')) < end_data (mm_values (mm s'))"
  by (simp add: prctl_set_mm_def prctl_set_mm_map_def validate_prctl_map_def layout_fields_def map_layout_def
      counted_env_def sample_mm_def sample_layout_def high_brk_map_def on_mm_def sem_defs Let_def)

end
