(* ===== verification/Prctl.thy ===== *)
theory Prctl
  imports MemoryMapProperties
begin

unbundle bit_operations_syntax

text \<open>
  The system call \<^verbatim>\<open>prctl\<close> (\<^verbatim>\<open>src/HW2/Ques5/sys.c\<close>), which sets and reads the attributes of the
  calling task, and the visitor \<^verbatim>\<open>propagate_has_child_subreaper\<close> it hands to \<^verbatim>\<open>walk_process_tree\<close>.
  Options whose work is done by code outside the file (seccomp, performance events, the
  architecture's controls, task names, core dumps) call a parameter of \<open>prctl_env\<close>; an
  architecture control that is not defined answers \<^verbatim>\<open>-EINVAL\<close> as the file's macros do. The result is
  the value of the \<^verbatim>\<open>long\<close> that the call returns.
\<close>

subsection \<open>Data\<close>

datatype prctl_option =
  PR_SET_PDEATHSIG | PR_GET_PDEATHSIG | PR_GET_DUMPABLE | PR_SET_DUMPABLE |
  PR_SET_UNALIGN | PR_GET_UNALIGN | PR_SET_FPEMU | PR_GET_FPEMU | PR_SET_FPEXC | PR_GET_FPEXC |
  PR_GET_TIMING | PR_SET_TIMING | PR_SET_NAME | PR_GET_NAME | PR_GET_ENDIAN | PR_SET_ENDIAN |
  PR_GET_SECCOMP | PR_SET_SECCOMP | PR_GET_TSC | PR_SET_TSC |
  PR_TASK_PERF_EVENTS_DISABLE | PR_TASK_PERF_EVENTS_ENABLE | PR_GET_TIMERSLACK | PR_SET_TIMERSLACK |
  PR_MCE_KILL | PR_MCE_KILL_GET | PR_SET_MM | PR_GET_TID_ADDRESS |
  PR_SET_CHILD_SUBREAPER | PR_GET_CHILD_SUBREAPER | PR_SET_NO_NEW_PRIVS | PR_GET_NO_NEW_PRIVS |
  PR_GET_THP_DISABLE | PR_SET_THP_DISABLE | PR_MPX_ENABLE_MANAGEMENT | PR_MPX_DISABLE_MANAGEMENT |
  PR_SET_FP_MODE | PR_GET_FP_MODE | PR_UNKNOWN

record ('u, 'k) task_state =
  pdeath_signal :: u32
  timer_slack_ns :: u64
  default_timer_slack_ns :: u64
  task_flags :: u32
  no_new_privs :: bool
  clear_child_tid :: 'u
  is_child_subreaper :: bool
  has_child_subreaper :: "nat \<Rightarrow> bool"
  mm_flags :: u32
  map_state :: "('u, 'k) mm_state"

record ('u, 'k) prctl_env =
  mm_env_of :: "('u, 'k) mm_env"
  security_task_prctl :: "prctl_option \<Rightarrow> 'u \<Rightarrow> 'u \<Rightarrow> 'u \<Rightarrow> 'u \<Rightarrow> 'k \<Rightarrow> int \<times> 'k"
  NSIG :: 'u
  put_int :: "'u \<Rightarrow> u32 \<Rightarrow> 'k \<Rightarrow> int \<times> 'k"
  put_pointer :: "'u \<Rightarrow> 'u \<Rightarrow> 'k \<Rightarrow> int \<times> 'k"
  get_dumpable :: "'k \<Rightarrow> int"
  set_dumpable :: "'u \<Rightarrow> 'k \<Rightarrow> 'k"
  arch_ctl :: "prctl_option \<Rightarrow> ('u \<Rightarrow> 'k \<Rightarrow> int \<times> 'k) option"
  strncpy_from_user :: "'u \<Rightarrow> nat \<Rightarrow> 'k \<Rightarrow> u8 list option"
  set_task_comm :: "u8 list \<Rightarrow> 'k \<Rightarrow> 'k"
  proc_comm_connector :: "'k \<Rightarrow> 'k"
  get_task_comm :: "'k \<Rightarrow> u8 list"
  copy_bytes_to_user :: "'u \<Rightarrow> u8 list \<Rightarrow> 'k \<Rightarrow> bool \<times> 'k"
  prctl_get_seccomp :: "'k \<Rightarrow> int"
  prctl_set_seccomp :: "'u \<Rightarrow> 'u \<Rightarrow> 'k \<Rightarrow> int \<times> 'k"
  perf_event_task_disable :: "'k \<Rightarrow> int \<times> 'k"
  perf_event_task_enable :: "'k \<Rightarrow> int \<times> 'k"
  is_child_reaper :: "nat \<Rightarrow> bool"
  walk_process_tree :: "(nat \<Rightarrow> (nat \<Rightarrow> bool) \<Rightarrow> int \<times> (nat \<Rightarrow> bool)) \<Rightarrow> (nat \<Rightarrow> bool) \<Rightarrow> nat \<Rightarrow> bool"
  down_write_killed :: "'k \<Rightarrow> bool"

abbreviation (input) ENOSYS :: int where "ENOSYS \<equiv> 38"
abbreviation (input) EINTR :: int where "EINTR \<equiv> 4"
definition PF_MCE_PROCESS :: u32 where "PF_MCE_PROCESS = 0x80"
definition PF_MCE_EARLY :: u32 where "PF_MCE_EARLY = 0x08000000"
abbreviation (input) MMF_DISABLE_THP :: nat where "MMF_DISABLE_THP \<equiv> 24"

subsection \<open>The calls with state of their own\<close>

definition propagate_has_child_subreaper :: "('u, 'k) prctl_env \<Rightarrow> nat \<Rightarrow> (nat \<Rightarrow> bool) \<Rightarrow> int \<times> (nat \<Rightarrow> bool)" where
  "propagate_has_child_subreaper E p flags =
     (if flags p \<or> is_child_reaper E p then (0, flags) else (1, flags(p := True)))"

definition prctl_get_tid_address :: "('w::len word, 'k) prctl_env \<Rightarrow> 'w word \<Rightarrow> 'w word \<Rightarrow> 'k \<Rightarrow> int \<times> 'k" where
  "prctl_get_tid_address E tid addr k =
     (if checkpoint_restore (mm_env_of E) then put_pointer E addr tid k else (- EINVAL, k))"

text \<open>An operation on the kernel state alone.\<close>

definition in_kernel :: "('k \<Rightarrow> int \<times> 'k) \<Rightarrow> ('u, 'k) task_state \<Rightarrow> int \<times> ('u, 'k) task_state" where
  "in_kernel f s = (let (r, k) = f (mmk (map_state s)) in (r, s\<lparr>map_state := (map_state s)\<lparr>mmk := k\<rparr>\<rparr>))"

definition arch_control :: "('w::len word, 'k) prctl_env \<Rightarrow> prctl_option \<Rightarrow> 'w word \<Rightarrow> ('w word, 'k) task_state
    \<Rightarrow> int \<times> ('w word, 'k) task_state" where
  "arch_control E opt arg2 s = (case arch_ctl E opt of None \<Rightarrow> (- EINVAL, s) | Some f \<Rightarrow> in_kernel (f arg2) s)"

definition prctl_mce_kill :: "'w::len word \<Rightarrow> 'w word \<Rightarrow> 'w word \<Rightarrow> 'w word \<Rightarrow> ('w word, 'k) task_state
    \<Rightarrow> int \<times> ('w word, 'k) task_state" where
  "prctl_mce_kill arg2 arg3 arg4 arg5 s =
     (if arg4 OR arg5 \<noteq> 0 then (- EINVAL, s)
      else if arg2 = 0 then
        (if arg3 \<noteq> 0 then (- EINVAL, s)
         else (0, s\<lparr>task_flags := task_flags s AND NOT PF_MCE_PROCESS\<rparr>))
      else if arg2 = 1 then
        (let s = s\<lparr>task_flags := task_flags s OR PF_MCE_PROCESS\<rparr> in
         if arg3 = 1 then (0, s\<lparr>task_flags := task_flags s OR PF_MCE_EARLY\<rparr>)
         else if arg3 = 0 then (0, s\<lparr>task_flags := task_flags s AND NOT PF_MCE_EARLY\<rparr>)
         else if arg3 = 2 then (0, s\<lparr>task_flags := task_flags s AND NOT (PF_MCE_EARLY OR PF_MCE_PROCESS)\<rparr>)
         else (- EINVAL, s))
      else (- EINVAL, s))"

definition prctl_mce_kill_get :: "'w::len word \<Rightarrow> 'w word \<Rightarrow> 'w word \<Rightarrow> 'w word \<Rightarrow> u32 \<Rightarrow> int" where
  "prctl_mce_kill_get arg2 arg3 arg4 arg5 flags =
     (if arg2 OR arg3 OR arg4 OR arg5 \<noteq> 0 then - EINVAL
      else if flags AND PF_MCE_PROCESS \<noteq> 0 then (if flags AND PF_MCE_EARLY \<noteq> 0 then 1 else 0)
      else 2)"

definition prctl_set_thp :: "('w::len word, 'k) prctl_env \<Rightarrow> 'w word \<Rightarrow> ('w word, 'k) task_state
    \<Rightarrow> int \<times> ('w word, 'k) task_state" where
  "prctl_set_thp E arg2 s =
     (if down_write_killed E (mmk (map_state s)) then (- EINTR, s)
      else let s = s\<lparr>map_state := on_mm down_write (map_state s)\<rparr>;
               s = (if arg2 \<noteq> 0 then s\<lparr>mm_flags := set_bit MMF_DISABLE_THP (mm_flags s)\<rparr>
                    else s\<lparr>mm_flags := unset_bit MMF_DISABLE_THP (mm_flags s)\<rparr>)
           in (0, s\<lparr>map_state := on_mm up_write (map_state s)\<rparr>))"

subsection \<open>The call\<close>

text \<open>
  \<open>stack\<close> are the bytes of the uninitialised array in \<^verbatim>\<open>prctl_set_auxv\<close>. The name that
  \<^verbatim>\<open>strncpy_from_user\<close> delivers is handed to \<^verbatim>\<open>set_task_comm\<close> as the string up to its terminator.
\<close>

definition prctl :: "('w::len word, 'k) prctl_env \<Rightarrow> u8 list \<Rightarrow> prctl_option \<Rightarrow> 'w word \<Rightarrow> 'w word \<Rightarrow> 'w word \<Rightarrow> 'w word
    \<Rightarrow> ('w word, 'k) task_state \<Rightarrow> int \<times> ('w word, 'k) task_state" where
  "prctl E stack option arg2 arg3 arg4 arg5 s =
     (let (error, s) = in_kernel (security_task_prctl E option arg2 arg3 arg4 arg5) s in
      if error \<noteq> - ENOSYS then (error, s)
      else case option of
        PR_SET_PDEATHSIG \<Rightarrow>
          if \<not> arg2 \<le> NSIG E then (- EINVAL, s) else (0, s\<lparr>pdeath_signal := ucast arg2\<rparr>)
      | PR_GET_PDEATHSIG \<Rightarrow> in_kernel (put_int E arg2 (pdeath_signal s)) s
      | PR_GET_DUMPABLE \<Rightarrow> (get_dumpable E (mmk (map_state s)), s)
      | PR_SET_DUMPABLE \<Rightarrow>
          if arg2 \<noteq> 0 \<and> arg2 \<noteq> 1 then (- EINVAL, s) else in_kernel (\<lambda>k. (0, set_dumpable E arg2 k)) s
      | PR_SET_UNALIGN \<Rightarrow> arch_control E option arg2 s
      | PR_GET_UNALIGN \<Rightarrow> arch_control E option arg2 s
      | PR_SET_FPEMU \<Rightarrow> arch_control E option arg2 s
      | PR_GET_FPEMU \<Rightarrow> arch_control E option arg2 s
      | PR_SET_FPEXC \<Rightarrow> arch_control E option arg2 s
      | PR_GET_FPEXC \<Rightarrow> arch_control E option arg2 s
      | PR_GET_TIMING \<Rightarrow> (0, s)
      | PR_SET_TIMING \<Rightarrow> (if arg2 \<noteq> 0 then - EINVAL else 0, s)
      | PR_SET_NAME \<Rightarrow>
          (case strncpy_from_user E arg2 15 (mmk (map_state s)) of
             None \<Rightarrow> (- EFAULT, s)
           | Some comm \<Rightarrow> in_kernel (\<lambda>k. (0, proc_comm_connector E (set_task_comm E comm k))) s)
      | PR_GET_NAME \<Rightarrow>
          in_kernel (\<lambda>k. let (ok, k) = copy_bytes_to_user E arg2 (get_task_comm E k) k in (if ok then 0 else - EFAULT, k)) s
      | PR_GET_ENDIAN \<Rightarrow> arch_control E option arg2 s
      | PR_SET_ENDIAN \<Rightarrow> arch_control E option arg2 s
      | PR_GET_SECCOMP \<Rightarrow> (prctl_get_seccomp E (mmk (map_state s)), s)
      | PR_SET_SECCOMP \<Rightarrow> in_kernel (prctl_set_seccomp E arg2 arg3) s
      | PR_GET_TSC \<Rightarrow> arch_control E option arg2 s
      | PR_SET_TSC \<Rightarrow> arch_control E option arg2 s
      | PR_TASK_PERF_EVENTS_DISABLE \<Rightarrow> in_kernel (perf_event_task_disable E) s
      | PR_TASK_PERF_EVENTS_ENABLE \<Rightarrow> in_kernel (perf_event_task_enable E) s
      | PR_GET_TIMERSLACK \<Rightarrow>
          (if ucast (- 1 :: 'w word) < timer_slack_ns s then sint (- 1 :: 'w word)
           else sint (ucast (timer_slack_ns s) :: 'w word), s)
      | PR_SET_TIMERSLACK \<Rightarrow>
          (0, if arg2 \<le> 0 then s\<lparr>timer_slack_ns := default_timer_slack_ns s\<rparr>
              else s\<lparr>timer_slack_ns := ucast arg2\<rparr>)
      | PR_MCE_KILL \<Rightarrow> prctl_mce_kill arg2 arg3 arg4 arg5 s
      | PR_MCE_KILL_GET \<Rightarrow> (prctl_mce_kill_get arg2 arg3 arg4 arg5 (task_flags s), s)
      | PR_SET_MM \<Rightarrow>
          (let (r, m) = prctl_set_mm (mm_env_of E) stack (sint (ucast arg2 :: u32)) arg3 arg4 arg5 (map_state s)
           in (r, s\<lparr>map_state := m\<rparr>))
      | PR_GET_TID_ADDRESS \<Rightarrow> in_kernel (prctl_get_tid_address E (clear_child_tid s) arg2) s
      | PR_SET_CHILD_SUBREAPER \<Rightarrow>
          (let s = s\<lparr>is_child_subreaper := (arg2 \<noteq> 0)\<rparr> in
           if arg2 = 0 then (0, s)
           else (0, s\<lparr>has_child_subreaper :=
                   walk_process_tree E (propagate_has_child_subreaper E) (has_child_subreaper s)\<rparr>))
      | PR_GET_CHILD_SUBREAPER \<Rightarrow> in_kernel (put_int E arg2 (of_bool (is_child_subreaper s))) s
      | PR_SET_NO_NEW_PRIVS \<Rightarrow>
          if arg2 \<noteq> 1 \<or> arg3 \<noteq> 0 \<or> arg4 \<noteq> 0 \<or> arg5 \<noteq> 0 then (- EINVAL, s)
          else (0, s\<lparr>no_new_privs := True\<rparr>)
      | PR_GET_NO_NEW_PRIVS \<Rightarrow>
          if arg2 \<noteq> 0 \<or> arg3 \<noteq> 0 \<or> arg4 \<noteq> 0 \<or> arg5 \<noteq> 0 then (- EINVAL, s)
          else (if no_new_privs s then 1 else 0, s)
      | PR_GET_THP_DISABLE \<Rightarrow>
          if arg2 \<noteq> 0 \<or> arg3 \<noteq> 0 \<or> arg4 \<noteq> 0 \<or> arg5 \<noteq> 0 then (- EINVAL, s)
          else (of_bool (bit (mm_flags s) MMF_DISABLE_THP), s)
      | PR_SET_THP_DISABLE \<Rightarrow>
          if arg3 \<noteq> 0 \<or> arg4 \<noteq> 0 \<or> arg5 \<noteq> 0 then (- EINVAL, s) else prctl_set_thp E arg2 s
      | PR_MPX_ENABLE_MANAGEMENT \<Rightarrow>
          if arg2 \<noteq> 0 \<or> arg3 \<noteq> 0 \<or> arg4 \<noteq> 0 \<or> arg5 \<noteq> 0 then (- EINVAL, s) else arch_control E option arg2 s
      | PR_MPX_DISABLE_MANAGEMENT \<Rightarrow>
          if arg2 \<noteq> 0 \<or> arg3 \<noteq> 0 \<or> arg4 \<noteq> 0 \<or> arg5 \<noteq> 0 then (- EINVAL, s) else arch_control E option arg2 s
      | PR_SET_FP_MODE \<Rightarrow> arch_control E option arg2 s
      | PR_GET_FP_MODE \<Rightarrow> arch_control E option arg2 s
      | PR_UNKNOWN \<Rightarrow> (- EINVAL, s))"

subsection \<open>What every call keeps\<close>

lemma in_kernel_keeps:
  assumes "in_kernel f s = (r, s')"
  shows "no_new_privs s' = no_new_privs s" "mm (map_state s') = mm (map_state s)"
  using assms by (auto simp: in_kernel_def split: prod.splits)

lemma arch_control_keeps:
  assumes "arch_control E opt a s = (r, s')"
  shows "no_new_privs s' = no_new_privs s" "mm (map_state s') = mm (map_state s)"
  using assms in_kernel_keeps by (auto simp: arch_control_def split: option.splits)

lemma prctl_set_mm_releases:
  fixes s :: "('w::len word, 'k) mm_state"
  assumes "LENGTH('w) \<le> 64" "prctl_set_mm E stack opt addr arg4 arg5 s = (r, s')"
  shows "sem_readers (mm s') = sem_readers (mm s) \<and> sem_writers (mm s') = sem_writers (mm s)"
  using assms(2)
proof (cases rule: prctl_set_mm_cases)
  case 2
  from 2(2) show ?thesis by (cases rule: prctl_set_mm_map_cases) auto
next
  case 3
  then show ?thesis using prctl_set_mm_exe_file_mm [OF 3(2)] by (auto split: if_splits)
next
  case 4
  then show ?thesis using prctl_set_auxv_mm [OF 4(2)] by auto
next
  case 5
  from assms(1) 5(4) show ?thesis by (cases rule: set_one_member_cases) auto
qed simp

definition task_kept :: "('u, 'k) task_state \<Rightarrow> ('u, 'k) task_state \<Rightarrow> bool" where
  "task_kept s s' =
     ((no_new_privs s \<longrightarrow> no_new_privs s') \<and>
      sem_readers (mm (map_state s')) = sem_readers (mm (map_state s)) \<and>
      sem_writers (mm (map_state s')) = sem_writers (mm (map_state s)))"

lemma task_kept_trans: "task_kept s t \<Longrightarrow> task_kept t u \<Longrightarrow> task_kept s u"
  by (simp add: task_kept_def)

lemma task_keptI:
  "no_new_privs s' = no_new_privs s \<Longrightarrow> mm (map_state s') = mm (map_state s) \<Longrightarrow> task_kept s s'"
  by (simp add: task_kept_def)

lemmas kept_intros = task_keptI [OF in_kernel_keeps] task_keptI [OF arch_control_keeps]

lemma prctl_thp_kept: "prctl_set_thp E a s = (r, s') \<Longrightarrow> task_kept s s'"
  by (auto simp: prctl_set_thp_def task_kept_def Let_def up_write_values split: if_splits)

lemma prctl_mce_kept: "prctl_mce_kill a b c d s = (r, s') \<Longrightarrow> task_kept s s'"
  by (auto simp: prctl_mce_kill_def task_kept_def Let_def split: if_splits)

lemma prctl_kept:
  fixes s :: "('w::len word, 'k) task_state"
  assumes "LENGTH('w) \<le> 64" "prctl E stack opt a2 a3 a4 a5 s = (r, s')"
  shows "task_kept s s'"
proof -
  obtain e s1 where sec: "in_kernel (security_task_prctl E opt a2 a3 a4 a5) s = (e, s1)" by fastforce
  have s1: "task_kept s s1" by (rule kept_intros(1) [OF sec sec])
  show ?thesis
  proof (cases "e = - 38")
    case False
    then show ?thesis using assms(2) sec s1 by (simp add: prctl_def)
  next
    case True
    have "task_kept s1 s'"
      using assms(2) True sec
      by (cases opt) (auto simp: prctl_def Let_def task_kept_def split: if_splits option.splits prod.splits
          dest: prctl_set_mm_releases [OF assms(1)] in_kernel_keeps arch_control_keeps
            prctl_thp_kept [unfolded task_kept_def] prctl_mce_kept [unfolded task_kept_def])
    then show ?thesis using s1 task_kept_trans by blast
  qed
qed

text \<open>A task's calls one after the other; each call finds its own contents of the kernel stack.\<close>

type_synonym 'u prctl_call = "u8 list \<times> prctl_option \<times> 'u \<times> 'u \<times> 'u \<times> 'u"

fun prctl_run :: "('w::len word, 'k) prctl_env \<Rightarrow> 'w word prctl_call list \<Rightarrow> ('w word, 'k) task_state
    \<Rightarrow> int list \<times> ('w word, 'k) task_state" where
  "prctl_run E [] s = ([], s)"
| "prctl_run E ((stack, opt, a2, a3, a4, a5) # cs) s =
     (let (r, s) = prctl E stack opt a2 a3 a4 a5 s; (rs, s) = prctl_run E cs s in (r # rs, s))"

lemma prctl_run_kept:
  fixes s :: "('w::len word, 'k) task_state"
  assumes "LENGTH('w) \<le> 64"
  shows "task_kept s (snd (prctl_run E cs s))"
proof (induction E cs s rule: prctl_run.induct)
  case (1 E s)
  then show ?case by (simp add: task_kept_def)
next
  case (2 E stack opt a2 a3 a4 a5 cs s)
  obtain r s1 where s1: "prctl E stack opt a2 a3 a4 a5 s = (r, s1)" by fastforce
  then have "task_kept s1 (snd (prctl_run E cs s1))" using 2 by simp
  then have "task_kept s (snd (prctl_run E cs s1))" using prctl_kept [OF assms s1] task_kept_trans by blast
  then show ?case using s1 by (cases "prctl_run E cs s1") simp
qed

subsection \<open>Setting and reading back\<close>

text \<open>No security module intervenes: the hook answers \<^verbatim>\<open>-ENOSYS\<close>.\<close>

definition no_hook :: "('u, 'k) prctl_env \<Rightarrow> bool" where
  "no_hook E = (\<forall>opt a b c d k. security_task_prctl E opt a b c d k = (- ENOSYS, k))"

lemma no_hook_prctl: "no_hook E \<Longrightarrow> in_kernel (security_task_prctl E opt a b c d) s = (- 38, s)"
  by (simp add: no_hook_def in_kernel_def)

lemma two_masks:
  fixes f p e :: "'w::len word"
  assumes "p AND e = 0"
  shows "((f OR p) OR e) AND p = p" "((f OR p) OR e) AND e = e" "((f OR p) AND NOT e) AND p = p"
    "((f OR p) AND NOT e) AND e = 0" "((f OR p) AND NOT e AND NOT p) AND p = 0" "(f AND NOT p) AND p = 0"
proof -
  have "\<not> (bit p n \<and> bit e n)" for n using assms by (metis bit_0_eq bit_and_iff bot_apply bot_bool_def)
  then show "((f OR p) OR e) AND p = p" "((f OR p) OR e) AND e = e" "((f OR p) AND NOT e) AND p = p"
    "((f OR p) AND NOT e) AND e = 0" "((f OR p) AND NOT e AND NOT p) AND p = 0" "(f AND NOT p) AND p = 0"
    by (auto intro!: bit_word_eqI simp: bit_simps)
qed

lemma mce_flags: "PF_MCE_PROCESS AND PF_MCE_EARLY = 0" "PF_MCE_PROCESS \<noteq> 0" "PF_MCE_EARLY \<noteq> 0"
  by (simp_all add: PF_MCE_PROCESS_def PF_MCE_EARLY_def)

lemmas mce_bits = two_masks [OF mce_flags(1)] mce_flags(2, 3)

text \<open>The policy that \<^verbatim>\<open>PR_MCE_KILL_GET\<close> reports for the task's flags: late 0, early 1, default 2.\<close>

lemma mce_policy:
  fixes a :: "'w::len word"
  assumes "no_hook E" "1 < LENGTH('w)"
  shows "fst (prctl E st PR_MCE_KILL_GET 0 0 0 (0 :: 'w word) (snd (prctl E st PR_MCE_KILL 1 0 0 0 s))) = 0"
    "fst (prctl E st PR_MCE_KILL_GET 0 0 0 (0 :: 'w word) (snd (prctl E st PR_MCE_KILL 1 1 0 0 s))) = 1"
    "fst (prctl E st PR_MCE_KILL_GET 0 0 0 (0 :: 'w word) (snd (prctl E st PR_MCE_KILL 1 2 0 0 s))) = 2"
    "fst (prctl E st PR_MCE_KILL_GET 0 0 0 (0 :: 'w word) (snd (prctl E st PR_MCE_KILL 0 0 0 0 s))) = 2"
proof -
  have two: "(2 :: 'w word) \<noteq> 0" "(2 :: 'w word) \<noteq> 1"
    using assms(2) unat_bound by (auto simp: word_unat_eq_iff)
  show "fst (prctl E st PR_MCE_KILL_GET 0 0 0 (0 :: 'w word) (snd (prctl E st PR_MCE_KILL 1 0 0 0 s))) = 0"
    "fst (prctl E st PR_MCE_KILL_GET 0 0 0 (0 :: 'w word) (snd (prctl E st PR_MCE_KILL 1 1 0 0 s))) = 1"
    "fst (prctl E st PR_MCE_KILL_GET 0 0 0 (0 :: 'w word) (snd (prctl E st PR_MCE_KILL 1 2 0 0 s))) = 2"
    "fst (prctl E st PR_MCE_KILL_GET 0 0 0 (0 :: 'w word) (snd (prctl E st PR_MCE_KILL 0 0 0 0 s))) = 2"
    using two by (simp_all add: prctl_def no_hook_prctl [OF assms(1)] prctl_mce_kill_def prctl_mce_kill_get_def Let_def mce_bits)
qed

lemma slack_round_trip:
  fixes v :: "'w::len word"
  assumes "no_hook E" "LENGTH('w) \<le> 64" "v \<noteq> 0"
  shows "fst (prctl E st PR_GET_TIMERSLACK a2 a3 a4 a5 (snd (prctl E st PR_SET_TIMERSLACK v a3 a4 a5 s))) = sint v"
proof -
  have "\<not> (ucast (- 1 :: 'w word) :: u64) < ucast v" using widen_less [OF assms(2)] by (simp add: not_less)
  then show ?thesis
    using assms(3) by (simp add: prctl_def no_hook_prctl [OF assms(1)] narrow_widen [OF assms(2)])
qed

text \<open>
  C22: once set, the no-new-privileges attribute stays set whatever \<^verbatim>\<open>prctl\<close> calls the task makes, with
  any arguments and any results, and no call leaves the lock of the memory map held.
\<close>

theorem prctl_keeps_no_new_privs:
  fixes s :: "('w::len word, 'k) task_state"
  assumes "LENGTH('w) \<le> 64"
  shows "(no_new_privs s \<longrightarrow> no_new_privs (snd (prctl_run E cs s))) \<and>
    sem_readers (mm (map_state (snd (prctl_run E cs s)))) = sem_readers (mm (map_state s)) \<and>
    sem_writers (mm (map_state (snd (prctl_run E cs s)))) = sem_writers (mm (map_state s))"
  using prctl_run_kept [OF assms, of s E cs] unfolding task_kept_def .

text \<open>
  what \<^verbatim>\<open>prctl\<close> sets it reads back: the parent-death signal, the timer slack (0 restores the
  default), the no-new-privileges attribute, the huge-page setting and the machine-check policy,
  when no security module intervenes and the lock of the memory map can be taken.
\<close>

theorem prctl_reads_back:
  fixes s :: "('w::len word, 'k) task_state"
  assumes hook: "no_hook E" and width: "1 < LENGTH('w)" "LENGTH('w) \<le> 64"
    and lock: "\<not> down_write_killed E (mmk (map_state s))"
  shows "(sig \<le> NSIG E \<longrightarrow>
      prctl E st PR_GET_PDEATHSIG p 0 0 0 (snd (prctl E st PR_SET_PDEATHSIG sig 0 0 0 s))
        = in_kernel (put_int E p (ucast sig)) (s\<lparr>pdeath_signal := ucast sig\<rparr>)) \<and>
    (v \<noteq> 0 \<longrightarrow>
      fst (prctl E st PR_GET_TIMERSLACK 0 0 0 0 (snd (prctl E st PR_SET_TIMERSLACK v 0 0 0 s))) = sint v) \<and>
    timer_slack_ns (snd (prctl E st PR_SET_TIMERSLACK 0 0 0 0 s)) = default_timer_slack_ns s \<and>
    fst (prctl E st PR_GET_NO_NEW_PRIVS 0 0 0 0 (snd (prctl E st PR_SET_NO_NEW_PRIVS 1 0 0 0 s))) = 1 \<and>
    fst (prctl E st PR_GET_THP_DISABLE 0 0 0 0 (snd (prctl E st PR_SET_THP_DISABLE v 0 0 0 s))) = of_bool (v \<noteq> 0) \<and>
    fst (prctl E st PR_MCE_KILL_GET 0 0 0 0 (snd (prctl E st PR_MCE_KILL 1 0 0 0 s))) = 0 \<and>
    fst (prctl E st PR_MCE_KILL_GET 0 0 0 0 (snd (prctl E st PR_MCE_KILL 1 1 0 0 s))) = 1 \<and>
    fst (prctl E st PR_MCE_KILL_GET 0 0 0 0 (snd (prctl E st PR_MCE_KILL 1 2 0 0 s))) = 2 \<and>
    fst (prctl E st PR_MCE_KILL_GET 0 0 0 0 (snd (prctl E st PR_MCE_KILL 0 0 0 0 s))) = 2"
proof -
  have "fst (prctl E st PR_GET_THP_DISABLE 0 0 0 0 (snd (prctl E st PR_SET_THP_DISABLE v 0 0 0 s))) = of_bool (v \<noteq> 0)"
    using lock by (simp add: prctl_def no_hook_prctl [OF hook] prctl_set_thp_def Let_def bit_set_bit_iff bit_unset_bit_iff)
  moreover have "sig \<le> NSIG E \<longrightarrow>
      prctl E st PR_GET_PDEATHSIG p 0 0 0 (snd (prctl E st PR_SET_PDEATHSIG sig 0 0 0 s))
        = in_kernel (put_int E p (ucast sig)) (s\<lparr>pdeath_signal := ucast sig\<rparr>)"
    "timer_slack_ns (snd (prctl E st PR_SET_TIMERSLACK 0 0 0 0 s)) = default_timer_slack_ns s"
    "fst (prctl E st PR_GET_NO_NEW_PRIVS 0 0 0 0 (snd (prctl E st PR_SET_NO_NEW_PRIVS 1 0 0 0 s))) = 1"
    by (simp_all add: prctl_def no_hook_prctl [OF hook])
  ultimately show ?thesis
    using mce_policy [OF hook width(1)] slack_round_trip [OF hook width(2)] by blast
qed

text \<open>A 64-bit task, and the calls it may make.\<close>

definition sample_prctl_env :: "(u64, fkernel) prctl_env" where
  "sample_prctl_env = \<lparr>mm_env_of = env64, security_task_prctl = (\<lambda>_ _ _ _ _ k. (- 38, k)), NSIG = 64,
     put_int = (\<lambda>_ _ k. (0, k)), put_pointer = (\<lambda>_ _ k. (0, k)), get_dumpable = (\<lambda>_. 1), set_dumpable = (\<lambda>_ k. k),
     arch_ctl = (\<lambda>_. None), strncpy_from_user = (\<lambda>_ _ _. None), set_task_comm = (\<lambda>_ k. k),
     proc_comm_connector = (\<lambda>k. k), get_task_comm = (\<lambda>_. replicate 16 0), copy_bytes_to_user = (\<lambda>_ _ k. (True, k)),
     prctl_get_seccomp = (\<lambda>_. 0), prctl_set_seccomp = (\<lambda>_ _ k. (0, k)),
     perf_event_task_disable = (\<lambda>k. (0, k)), perf_event_task_enable = (\<lambda>k. (0, k)), is_child_reaper = (\<lambda>_. False),
     walk_process_tree = (\<lambda>visit flags. snd (visit 2 flags)), down_write_killed = (\<lambda>_. False)\<rparr>"

definition sample_task :: "(u64, fkernel) task_state" where
  "sample_task = \<lparr>pdeath_signal = 0, timer_slack_ns = 50000, default_timer_slack_ns = 50000, task_flags = 0,
     no_new_privs = True, clear_child_tid = 0, is_child_subreaper = False, has_child_subreaper = (\<lambda>_. False),
     mm_flags = 0, map_state = sample_mm\<rparr>"

theorem prctl_keeps_no_new_privs_witness:
  "no_new_privs (snd (prctl_run sample_prctl_env
     [([], PR_SET_NO_NEW_PRIVS, 0, 0, 0, 0), ([], PR_SET_MM, 4, 0x4800, 0, 0), ([], PR_SET_TIMERSLACK, 9, 0, 0, 0)] sample_task))"
proof -
  have "no_new_privs sample_task" by (simp add: sample_task_def)
  then show ?thesis
    using prctl_keeps_no_new_privs [of sample_task sample_prctl_env
      "[([], PR_SET_NO_NEW_PRIVS, 0, 0, 0, 0), ([], PR_SET_MM, 4, 0x4800, 0, 0), ([], PR_SET_TIMERSLACK, 9, 0, 0, 0)]"]
    by simp
qed

theorem prctl_reads_back_witness:
  "fst (prctl sample_prctl_env [] PR_GET_TIMERSLACK 0 0 0 0 (snd (prctl sample_prctl_env [] PR_SET_TIMERSLACK 9 0 0 0 sample_task))) = 9 \<and>
   fst (prctl sample_prctl_env [] PR_GET_THP_DISABLE 0 0 0 0 (snd (prctl sample_prctl_env [] PR_SET_THP_DISABLE 9 0 0 0 sample_task))) = 1"
proof -
  have "no_hook sample_prctl_env" "\<not> down_write_killed sample_prctl_env (mmk (map_state sample_task))"
    by (simp_all add: no_hook_def sample_prctl_env_def)
  then show ?thesis
    using prctl_reads_back [of sample_prctl_env sample_task 5 "[]" 0 9] by simp
qed

subsection \<open>A failing call that changes the policy\<close>

text \<open>
  \<^verbatim>\<open>PR_MCE_KILL_SET\<close> sets the flag \<^verbatim>\<open>PF_MCE_PROCESS\<close> before it looks at the policy: with a policy it
  does not know it returns \<^verbatim>\<open>-EINVAL\<close>, but a task that followed the system's default no longer does.
\<close>

theorem mce_kill_error_changes_policy:
  assumes "no_hook E" "task_flags s AND PF_MCE_PROCESS = 0"
  shows "fst (prctl E st PR_MCE_KILL_GET 0 0 0 0 s) = 2 \<and>
    (\<exists>s'. prctl E st PR_MCE_KILL 1 7 0 (0 :: u64) s = (- 22, s') \<and>
      fst (prctl E st PR_MCE_KILL_GET 0 0 0 0 s') \<noteq> 2)"
proof -
  have "(task_flags s OR PF_MCE_PROCESS) AND PF_MCE_PROCESS \<noteq> 0" using mce_flags(2) by simp
  then show ?thesis
    using assms(2) by (simp add: prctl_def no_hook_prctl [OF assms(1)] prctl_mce_kill_def prctl_mce_kill_get_def Let_def)
qed

theorem mce_kill_error_changes_policy_witness:
  "\<exists>s'. prctl sample_prctl_env [] PR_MCE_KILL 1 7 0 0 sample_task = (- 22, s') \<and>
     fst (prctl sample_prctl_env [] PR_MCE_KILL_GET 0 0 0 0 s') \<noteq> 2"
proof -
  have "no_hook sample_prctl_env" "task_flags sample_task AND PF_MCE_PROCESS = 0"
    by (simp_all add: no_hook_def sample_prctl_env_def sample_task_def)
  then show ?thesis using mce_kill_error_changes_policy [of sample_prctl_env sample_task "[]"] by simp
qed

end
