(* ===== verification/ResourceUsage.thy ===== *)
theory ResourceUsage
  imports Prelude
begin

unbundle bit_operations_syntax

text \<open>
  Resource usage and other small queries of a task (\<^verbatim>\<open>src/HW2/Ques5/sys.c\<close>: \<^verbatim>\<open>getrusage\<close> with
  \<^verbatim>\<open>accumulate_thread_rusage\<close>, \<^verbatim>\<open>times\<close> and its compat variant, \<^verbatim>\<open>umask\<close>,
  \<^verbatim>\<open>getcpu\<close>, \<^verbatim>\<open>getpid\<close>, \<^verbatim>\<open>gettid\<close> and \<^verbatim>\<open>getppid\<close>). Counters are \<^verbatim>\<open>unsigned long\<close> words that wrap. The scheduler's CPU times,
  conversions of time and user memory are parameters. A \<^verbatim>\<open>BUG()\<close> is \<^const>\<open>None\<close>.
\<close>

subsection \<open>Data\<close>

record 'u usage =
  nvcsw :: 'u
  nivcsw :: 'u
  min_flt :: 'u
  maj_flt :: 'u
  inblock :: 'u
  oublock :: 'u

text \<open>
  The parts of \<^verbatim>\<open>signal_struct\<close> that hold the usage of threads that have ended and of children
  that have been waited for.
\<close>

record 'u signal_usage =
  dead_threads :: "'u usage"
  children :: "'u usage"
  cutime :: u64
  cstime :: u64
  maxrss :: 'u
  cmaxrss :: 'u

record ('u, 't) rusage =
  ru_utime :: 't
  ru_stime :: 't
  ru_maxrss :: 'u
  ru_counts :: "'u usage"

record ('u, 't, 'k) usage_env =
  current_task :: nat
  thread_usage :: "nat \<Rightarrow> 'u usage"
  signal_of :: "nat \<Rightarrow> 'u signal_usage"
  other_threads :: "nat \<Rightarrow> nat list"
  lock_task_sighand :: "nat \<Rightarrow> bool"
  task_cputime_adjusted :: "nat \<Rightarrow> u64 \<times> u64"
  thread_group_cputime_adjusted :: "nat \<Rightarrow> u64 \<times> u64"
  ns_to_timeval :: "u64 \<Rightarrow> 't"
  mm_hiwater_rss :: "nat \<Rightarrow> 'u option"
  PAGE_SIZE :: 'u
  copy_rusage_to_user :: "nat \<Rightarrow> ('u, 't) rusage \<Rightarrow> 'k \<Rightarrow> 'k option"
  put_compat_rusage :: "nat \<Rightarrow> ('u, 't) rusage \<Rightarrow> 'k \<Rightarrow> int \<times> 'k"

definition add_usage :: "'w::len word usage \<Rightarrow> 'w word usage \<Rightarrow> 'w word usage" where
  "add_usage a b = \<lparr>nvcsw = nvcsw a + nvcsw b, nivcsw = nivcsw a + nivcsw b, min_flt = min_flt a + min_flt b,
     maj_flt = maj_flt a + maj_flt b, inblock = inblock a + inblock b, oublock = oublock a + oublock b\<rparr>"

definition zero_usage :: "'w::len word usage" where
  "zero_usage = \<lparr>nvcsw = 0, nivcsw = 0, min_flt = 0, maj_flt = 0, inblock = 0, oublock = 0\<rparr>"

abbreviation (input) RUSAGE_SELF :: int where "RUSAGE_SELF \<equiv> 0"
abbreviation (input) RUSAGE_CHILDREN :: int where "RUSAGE_CHILDREN \<equiv> - 1"
abbreviation (input) RUSAGE_BOTH :: int where "RUSAGE_BOTH \<equiv> - 2"
abbreviation (input) RUSAGE_THREAD :: int where "RUSAGE_THREAD \<equiv> 1"

subsection \<open>Usage\<close>

definition accumulate_thread_rusage :: "('w::len word, 't, 'k) usage_env \<Rightarrow> nat \<Rightarrow> 'w word usage \<Rightarrow> 'w word usage" where
  "accumulate_thread_rusage E t r = add_usage r (thread_usage E t)"

text \<open>\<^verbatim>\<open>do { accumulate_thread_rusage(t, r); } while_each_thread(p, t);\<close>\<close>

fun each_thread :: "('w::len word, 't, 'k) usage_env \<Rightarrow> nat list \<Rightarrow> 'w word usage \<Rightarrow> 'w word usage" where
  "each_thread E [] r = r"
| "each_thread E (t # ts) r = each_thread E ts (accumulate_thread_rusage E t r)"

text \<open>The time stamps and the peak memory, after the label \<^verbatim>\<open>out\<close>.\<close>

definition finish_rusage :: "('w::len word, 't, 'k) usage_env \<Rightarrow> nat \<Rightarrow> int \<Rightarrow> u64 \<Rightarrow> u64 \<Rightarrow> 'w word \<Rightarrow> 'w word usage
    \<Rightarrow> ('w word, 't) rusage" where
  "finish_rusage E p who utime stime rss counts =
     (let rss = (if who \<noteq> RUSAGE_CHILDREN then
                   (case mm_hiwater_rss E p of None \<Rightarrow> rss | Some h \<Rightarrow> if rss < h then h else rss)
                 else rss)
      in \<lparr>ru_utime = ns_to_timeval E utime, ru_stime = ns_to_timeval E stime,
          ru_maxrss = rss * (PAGE_SIZE E div 1024), ru_counts = counts\<rparr>)"

text \<open>
  \<open>zero\<close> is the time stamp of the cleared structure, which is the result when the task has no
  signal handling left.
\<close>

definition getrusage :: "('w::len word, 't, 'k) usage_env \<Rightarrow> 't \<Rightarrow> nat \<Rightarrow> int \<Rightarrow> ('w word, 't) rusage option" where
  "getrusage E zero p who =
     (let sig = signal_of E p in
      if who = RUSAGE_THREAD then
        (let (utime, stime) = task_cputime_adjusted E (current_task E) in
         Some (finish_rusage E p who utime stime (maxrss sig) (accumulate_thread_rusage E p zero_usage)))
      else if \<not> lock_task_sighand E p then
        Some \<lparr>ru_utime = zero, ru_stime = zero, ru_maxrss = 0, ru_counts = zero_usage\<rparr>
      else
        let (utime, stime, counts, rss) =
              (if who = RUSAGE_BOTH \<or> who = RUSAGE_CHILDREN
               then (cutime sig, cstime sig, children sig, cmaxrss sig) else (0, 0, zero_usage, 0))
        in if who = RUSAGE_CHILDREN then Some (finish_rusage E p who utime stime rss counts)
           else if who = RUSAGE_BOTH \<or> who = RUSAGE_SELF then
             (let (tgutime, tgstime) = thread_group_cputime_adjusted E p;
                  counts = add_usage counts (dead_threads sig);
                  rss = (if rss < maxrss sig then maxrss sig else rss);
                  counts = each_thread E (p # other_threads E p) counts
              in Some (finish_rusage E p who (utime + tgutime) (stime + tgstime) rss counts))
           else None)"

definition getrusage_call :: "('w::len word, 't, 'k) usage_env \<Rightarrow> 't \<Rightarrow> int \<Rightarrow> nat \<Rightarrow> 'k \<Rightarrow> (int \<times> 'k) option" where
  "getrusage_call E zero who ru k =
     (if who \<noteq> RUSAGE_SELF \<and> who \<noteq> RUSAGE_CHILDREN \<and> who \<noteq> RUSAGE_THREAD then Some (- EINVAL, k)
      else do {
        r \<leftarrow> getrusage E zero (current_task E) who;
        Some (case copy_rusage_to_user E ru r k of None \<Rightarrow> (- EFAULT, k) | Some k \<Rightarrow> (0, k))
      })"

definition compat_getrusage :: "('w::len word, 't, 'k) usage_env \<Rightarrow> 't \<Rightarrow> int \<Rightarrow> nat \<Rightarrow> 'k \<Rightarrow> (int \<times> 'k) option" where
  "compat_getrusage E zero who ru k =
     (if who \<noteq> RUSAGE_SELF \<and> who \<noteq> RUSAGE_CHILDREN \<and> who \<noteq> RUSAGE_THREAD then Some (- EINVAL, k)
      else do {
        r \<leftarrow> getrusage E zero (current_task E) who;
        Some (put_compat_rusage E ru r k)
      })"

subsection \<open>Times, umask and CPU\<close>

record 'c tms =
  tms_utime :: 'c
  tms_stime :: 'c
  tms_cutime :: 'c
  tms_cstime :: 'c

record ('c, 'd, 'k) times_env =
  nsec_to_clock_t :: "u64 \<Rightarrow> 'c"
  clock_t_to_compat :: "'c \<Rightarrow> 'd"
  jiffies_clock :: "'k \<Rightarrow> int"
  compat_jiffies_clock :: "'k \<Rightarrow> int"
  force_successful_return :: "'k \<Rightarrow> 'k"
  copy_tms_to_user :: "nat \<Rightarrow> 'c tms \<Rightarrow> 'k \<Rightarrow> 'k option"
  copy_compat_tms_to_user :: "nat \<Rightarrow> 'd tms \<Rightarrow> 'k \<Rightarrow> 'k option"

definition do_sys_times :: "('w::len word, 't, 'k) usage_env \<Rightarrow> ('c, 'd, 'k) times_env \<Rightarrow> 'c tms" where
  "do_sys_times E T =
     (let (tgutime, tgstime) = thread_group_cputime_adjusted E (current_task E);
          sig = signal_of E (current_task E)
      in \<lparr>tms_utime = nsec_to_clock_t T tgutime, tms_stime = nsec_to_clock_t T tgstime,
          tms_cutime = nsec_to_clock_t T (cutime sig), tms_cstime = nsec_to_clock_t T (cstime sig)\<rparr>)"

text \<open>Address 0 is NULL.\<close>

definition times_call :: "('w::len word, 't, 'k) usage_env \<Rightarrow> ('c, 'd, 'k) times_env \<Rightarrow> nat \<Rightarrow> 'k \<Rightarrow> int \<times> 'k" where
  "times_call E T tbuf k =
     (case (if tbuf \<noteq> 0 then copy_tms_to_user T tbuf (do_sys_times E T) k else Some k) of
        None \<Rightarrow> (- EFAULT, k)
      | Some k \<Rightarrow> let k = force_successful_return T k in (jiffies_clock T k, k))"

definition compat_times :: "('w::len word, 't, 'k) usage_env \<Rightarrow> ('c, 'd, 'k) times_env \<Rightarrow> nat \<Rightarrow> 'k \<Rightarrow> int \<times> 'k" where
  "compat_times E T tbuf k =
     (let t = do_sys_times E T; f = clock_t_to_compat T;
          tmp = \<lparr>tms_utime = f (tms_utime t), tms_stime = f (tms_stime t),
                 tms_cutime = f (tms_cutime t), tms_cstime = f (tms_cstime t)\<rparr>
      in case (if tbuf \<noteq> 0 then copy_compat_tms_to_user T tbuf tmp k else Some k) of
           None \<Rightarrow> (- EFAULT, k)
         | Some k \<Rightarrow> let k = force_successful_return T k in (compat_jiffies_clock T k, k))"

text \<open>
  The identifiers, as the caller's PID namespace shows them: \<open>tgid\<close> and \<open>pid\<close> are \<^verbatim>\<open>task_tgid_vnr\<close> and
  \<^verbatim>\<open>task_pid_vnr\<close>, \<open>real_parent\<close> the parent of a task.
\<close>

definition getpid :: "(nat \<Rightarrow> int) \<Rightarrow> nat \<Rightarrow> int" where "getpid tgid me = tgid me"
definition gettid :: "(nat \<Rightarrow> int) \<Rightarrow> nat \<Rightarrow> int" where "gettid pid me = pid me"
definition getppid :: "(nat \<Rightarrow> int) \<Rightarrow> (nat \<Rightarrow> nat) \<Rightarrow> nat \<Rightarrow> int" where
  "getppid tgid real_parent me = tgid (real_parent me)"

text \<open>\<^verbatim>\<open>mask = xchg(&current->fs->umask, mask & S_IRWXUGO)\<close>: the result and the new mask.\<close>

definition umask :: "u32 \<Rightarrow> u32 \<Rightarrow> u32 \<times> u32" where
  "umask m old = (old, m AND 0x1FF)"

text \<open>\<open>put p v k\<close> stores a word and tells whether it could.\<close>

definition getcpu :: "(nat \<Rightarrow> u32 \<Rightarrow> 'k \<Rightarrow> bool \<times> 'k) \<Rightarrow> u32 \<Rightarrow> (u32 \<Rightarrow> u32) \<Rightarrow> nat \<Rightarrow> nat \<Rightarrow> 'k \<Rightarrow> int \<times> 'k" where
  "getcpu put cpu cpu_to_node cpup nodep k =
     (let (ok, k) = (if cpup \<noteq> 0 then put cpup cpu k else (True, k));
          (ok', k) = (if nodep \<noteq> 0 then put nodep (cpu_to_node cpu) k else (True, k))
      in (if \<not> ok \<or> \<not> ok' then - EFAULT else 0, k))"

subsection \<open>Accounting\<close>

lemma add_usage_assoc: "add_usage (add_usage a b) c = add_usage a (add_usage b c)"
  and add_usage_zero [simp]: "add_usage zero_usage a = a" "add_usage a zero_usage = a"
  by (simp_all add: add_usage_def zero_usage_def add.assoc)

text \<open>The usage of a list of threads, counter by counter.\<close>

definition total_usage :: "('w::len word, 't, 'k) usage_env \<Rightarrow> nat list \<Rightarrow> 'w word usage" where
  "total_usage E ts =
     (let total = (\<lambda>f. \<Sum>t\<leftarrow>ts. f (thread_usage E t)) in
      \<lparr>nvcsw = total nvcsw, nivcsw = total nivcsw, min_flt = total min_flt, maj_flt = total maj_flt,
       inblock = total inblock, oublock = total oublock\<rparr>)"

lemma total_usage_Cons: "total_usage E (t # ts) = add_usage (thread_usage E t) (total_usage E ts)"
  by (simp add: total_usage_def add_usage_def Let_def)

lemma each_thread_total: "each_thread E ts r = add_usage r (total_usage E ts)"
proof (induction ts arbitrary: r)
  case Nil
  then show ?case by (simp add: total_usage_def add_usage_def Let_def)
next
  case (Cons t ts)
  then show ?case by (simp add: accumulate_thread_rusage_def total_usage_Cons add_usage_assoc)
qed

text \<open>Peak memory in pages, as kept by \<^verbatim>\<open>setmax_mm_hiwater_rss\<close> on top of \<open>rss\<close>.\<close>

definition peak_pages :: "('w::len word, 't, 'k) usage_env \<Rightarrow> nat \<Rightarrow> 'w word \<Rightarrow> 'w word" where
  "peak_pages E p rss = (case mm_hiwater_rss E p of None \<Rightarrow> rss | Some h \<Rightarrow> max rss h)"

lemma finish_rusage_simps [simp]:
  "ru_counts (finish_rusage E p who u v rss c) = c" "ru_utime (finish_rusage E p who u v rss c) = ns_to_timeval E u"
  "ru_stime (finish_rusage E p who u v rss c) = ns_to_timeval E v"
  "who \<noteq> - 1 \<Longrightarrow> ru_maxrss (finish_rusage E p who u v rss c) = peak_pages E p rss * (PAGE_SIZE E div 1024)"
  by (auto simp: finish_rusage_def peak_pages_def max_def split: option.splits)

lemma larger_is_max: "(if a < b then b else a) = max a b" for a b :: "'a::linorder"
  by (auto simp: max_def)

lemma getrusage_cases:
  assumes "lock_task_sighand E p" "thread_group_cputime_adjusted E p = (ut, st)"
  defines "sig \<equiv> signal_of E p"
  shows "getrusage E zero p 0 = Some (finish_rusage E p 0 ut st (maxrss sig)
      (add_usage (dead_threads sig) (total_usage E (p # other_threads E p))))"
    "getrusage E zero p (- 1) = Some (finish_rusage E p (- 1) (cutime sig) (cstime sig) (cmaxrss sig) (children sig))"
    "getrusage E zero p (- 2) = Some (finish_rusage E p (- 2) (cutime sig + ut) (cstime sig + st) (max (cmaxrss sig) (maxrss sig))
      (add_usage (children sig) (add_usage (dead_threads sig) (total_usage E (p # other_threads E p)))))"
proof -
  have rss: "(if 0 < r then r else 0) = r" for r :: "'a word" by (simp add: word_gt_0)
  show "getrusage E zero p 0 = Some (finish_rusage E p 0 ut st (maxrss sig)
      (add_usage (dead_threads sig) (total_usage E (p # other_threads E p))))"
    using assms(1, 2) unfolding getrusage_def sig_def Let_def each_thread_total by (simp add: rss)
  show "getrusage E zero p (- 1) = Some (finish_rusage E p (- 1) (cutime sig) (cstime sig) (cmaxrss sig) (children sig))"
    using assms(1) unfolding getrusage_def sig_def Let_def by simp
  show "getrusage E zero p (- 2) = Some (finish_rusage E p (- 2) (cutime sig + ut) (cstime sig + st) (max (cmaxrss sig) (maxrss sig))
      (add_usage (children sig) (add_usage (dead_threads sig) (total_usage E (p # other_threads E p)))))"
    using assms(1, 2) unfolding getrusage_def sig_def Let_def each_thread_total larger_is_max
    by (simp add: add_usage_assoc)
qed

text \<open>
  C24: for a task with signal handling, the usage of the process itself is that of its ended
  threads plus the sum over its live threads, the usage reported for both is the process's plus
  its children's, in every counter and in both CPU times, and the peak memory is the largest of
  the recorded peaks, in KiB; the system call accepts the three selectors it documents and nothing
  else.
\<close>

theorem getrusage_accounts:
  fixes E :: "('w::len word, 't, 'k) usage_env"
  assumes "lock_task_sighand E p" "thread_group_cputime_adjusted E p = (ut, st)"
  shows "\<exists>rs rc rb. getrusage E zero p 0 = Some rs \<and> getrusage E zero p (- 1) = Some rc \<and> getrusage E zero p (- 2) = Some rb \<and>
    ru_counts rs = add_usage (dead_threads (signal_of E p)) (total_usage E (p # other_threads E p)) \<and>
    ru_counts rc = children (signal_of E p) \<and> ru_counts rb = add_usage (ru_counts rc) (ru_counts rs) \<and>
    ru_utime rs = ns_to_timeval E ut \<and> ru_stime rs = ns_to_timeval E st \<and>
    ru_utime rb = ns_to_timeval E (cutime (signal_of E p) + ut) \<and>
    ru_stime rb = ns_to_timeval E (cstime (signal_of E p) + st) \<and>
    ru_maxrss rb = peak_pages E p (max (cmaxrss (signal_of E p)) (maxrss (signal_of E p))) * (PAGE_SIZE E div 1024) \<and>
    (\<forall>who ru k. who \<notin> {0, - 1, 1} \<longrightarrow> getrusage_call E zero who ru k = Some (- 22, k))"
  unfolding getrusage_cases [OF assms] by (simp add: getrusage_call_def)

definition sample_usage_env :: "(u64, u64, unit) usage_env" where
  "sample_usage_env = \<lparr>current_task = 0,
     thread_usage = (\<lambda>t. zero_usage\<lparr>nvcsw := of_nat (t + 1), min_flt := 10\<rparr>),
     signal_of = (\<lambda>_. \<lparr>dead_threads = zero_usage\<lparr>nvcsw := 100\<rparr>, children = zero_usage\<lparr>nvcsw := 1000\<rparr>, cutime = 7, cstime = 8,
        maxrss = 30, cmaxrss = 20\<rparr>),
     other_threads = (\<lambda>_. [1, 2]), lock_task_sighand = (\<lambda>_. True), task_cputime_adjusted = (\<lambda>_. (1, 1)),
     thread_group_cputime_adjusted = (\<lambda>_. (5, 6)), ns_to_timeval = (\<lambda>n. n), mm_hiwater_rss = (\<lambda>_. Some 25),
     PAGE_SIZE = 4096, copy_rusage_to_user = (\<lambda>_ _ k. Some k), put_compat_rusage = (\<lambda>_ _ k. (0, k))\<rparr>"

theorem getrusage_accounts_witness:
  "\<exists>rb. getrusage sample_usage_env 0 0 (- 2) = Some rb \<and> nvcsw (ru_counts rb) = 1106 \<and> min_flt (ru_counts rb) = 30 \<and>
     ru_utime rb = 12 \<and> ru_maxrss rb = 120"
proof -
  have "lock_task_sighand sample_usage_env 0" "thread_group_cputime_adjusted sample_usage_env 0 = (5, 6)"
    by (simp_all add: sample_usage_env_def)
  from getrusage_accounts [OF this, of 0] obtain rs rc rb :: "(u64, u64) rusage" where
    rb: "getrusage sample_usage_env 0 0 (- 2) = Some rb" and
    eqs: "ru_counts rs = add_usage (dead_threads (signal_of sample_usage_env 0)) (total_usage sample_usage_env (0 # other_threads sample_usage_env 0))"
      "ru_counts rc = children (signal_of sample_usage_env 0)" "ru_counts rb = add_usage (ru_counts rc) (ru_counts rs)"
      "ru_utime rb = ns_to_timeval sample_usage_env (cutime (signal_of sample_usage_env 0) + 5)"
      "ru_maxrss rb = peak_pages sample_usage_env 0 (max (cmaxrss (signal_of sample_usage_env 0)) (maxrss (signal_of sample_usage_env 0))) *
        (PAGE_SIZE sample_usage_env div 1024)"
    by blast
  show ?thesis
    using rb by (rule exI [of _ rb, OF conjI])
      (simp add: eqs, simp add: sample_usage_env_def add_usage_def total_usage_def zero_usage_def peak_pages_def Let_def)
qed

end
