(* ===== verification/FileIO.thy ===== *)
theory FileIO
  imports Prelude
begin

text \<open>
  The file program \<^verbatim>\<open>src/HW2/Ques2/file_io.c\<close>, a sequence of calls of the C library on one file.

  A stream has a mode, a read position and a buffer of characters not yet written; they reach the
  file when the stream is flushed or closed. The program checks no result, so the model carries
  what can go wrong: a call on a NULL or closed stream, a store past the end of the array \<^verbatim>\<open>str\<close> and
  the release of memory that is not allocated are undefined behaviour (\<open>UB\<close>, with the state
  reached). \<open>ptr\<close> is the size of a pointer, which is also \<^verbatim>\<open>sizeof(str)\<close>.
\<close>

subsection \<open>The C library\<close>

datatype fmode = R | W | A

record stream =
  smode :: fmode
  spos :: nat
  sbuf :: string
  sopen :: bool

text \<open>
  The file \<^verbatim>\<open>output.txt\<close> if it exists and its permission bits, the streams opened so far, what was
  printed, and whether \<^verbatim>\<open>str\<close> is allocated.
\<close>

record io =
  content :: "string option"
  perms :: nat
  streams :: "stream list"
  printed :: "string list"
  str_live :: bool

datatype 'a outcome = Ran 'a | UB io

definition bind_outcome :: "'a outcome \<Rightarrow> ('a \<Rightarrow> 'b outcome) \<Rightarrow> 'b outcome" where
  "bind_outcome r f = (case r of Ran x \<Rightarrow> f x | UB s \<Rightarrow> UB s)"

definition io_printf :: "string \<Rightarrow> io \<Rightarrow> io" where
  "io_printf t s = s\<lparr>printed := printed s @ [t]\<rparr>"

text \<open>\<^verbatim>\<open>fopen\<close>: the number of the new stream, or \<^const>\<open>None\<close> for NULL when a file to read does not exist.\<close>

definition fopen :: "fmode \<Rightarrow> io \<Rightarrow> nat option \<times> io" where
  "fopen m s =
     (if m = R \<and> content s = None then (None, s)
      else let c = (if m = W then Some '''' else if content s = None then Some '''' else content s)
           in (Some (length (streams s)),
               s\<lparr>content := c, streams := streams s @ [\<lparr>smode = m, spos = 0, sbuf = '''', sopen = True\<rparr>]\<rparr>))"

definition usable :: "nat option \<Rightarrow> io \<Rightarrow> bool" where
  "usable fp s = (case fp of None \<Rightarrow> False | Some i \<Rightarrow> i < length (streams s) \<and> sopen (streams s ! i))"

definition fchmod :: "nat option \<Rightarrow> nat \<Rightarrow> io \<Rightarrow> io outcome" where
  "fchmod fp bits s = (if usable fp s then Ran (s\<lparr>perms := bits\<rparr>) else UB s)"

definition update_stream :: "nat \<Rightarrow> (stream \<Rightarrow> stream) \<Rightarrow> io \<Rightarrow> io" where
  "update_stream i f s = s\<lparr>streams := (streams s)[i := f (streams s ! i)]\<rparr>"

text \<open>\<^verbatim>\<open>fputc\<close> and \<^verbatim>\<open>fputs\<close>.\<close>

definition fputs :: "string \<Rightarrow> nat option \<Rightarrow> io \<Rightarrow> io outcome" where
  "fputs t fp s =
     (if \<not> usable fp s then UB s
      else Ran (update_stream (the fp) (\<lambda>st. st\<lparr>sbuf := sbuf st @ t\<rparr>) s))"

definition fflush :: "nat option \<Rightarrow> io \<Rightarrow> io outcome" where
  "fflush fp s =
     (if \<not> usable fp s then UB s
      else let st = streams s ! the fp in
           if smode st = R then Ran s
           else Ran (update_stream (the fp) (\<lambda>st. st\<lparr>sbuf := ''''\<rparr>)
                       (s\<lparr>content := Some (the (content s) @ sbuf st)\<rparr>)))"

definition fclose :: "nat option \<Rightarrow> io \<Rightarrow> io outcome" where
  "fclose fp s = bind_outcome (fflush fp s) (\<lambda>s. Ran (update_stream (the fp) (\<lambda>st. st\<lparr>sopen := False\<rparr>) s))"

text \<open>\<^verbatim>\<open>fgetc\<close>: the next character, \<^const>\<open>None\<close> for EOF.\<close>

definition fgetc :: "nat option \<Rightarrow> io \<Rightarrow> (char option \<times> io) outcome" where
  "fgetc fp s =
     (if \<not> usable fp s then UB s
      else let st = streams s ! the fp; c = the (content s) in
           if spos st < length c
           then Ran (Some (c ! spos st), update_stream (the fp) (\<lambda>st. st\<lparr>spos := spos st + 1\<rparr>) s)
           else Ran (None, s))"

text \<open>
  \<^verbatim>\<open>fgets\<close> for an array of \<open>n\<close> characters: up to \<open>n - 1\<close> characters of the current line, its newline
  included; \<^const>\<open>None\<close> when nothing is left.
\<close>

fun line_prefix :: "nat \<Rightarrow> string \<Rightarrow> string" where
  "line_prefix 0 t = ''''"
| "line_prefix (Suc n) [] = ''''"
| "line_prefix (Suc n) (c # t) = (if c = CHR 0x0A then [c] else c # line_prefix n t)"

definition fgets :: "nat \<Rightarrow> nat option \<Rightarrow> io \<Rightarrow> (string option \<times> io) outcome" where
  "fgets n fp s =
     (if \<not> usable fp s then UB s
      else let st = streams s ! the fp; t = line_prefix (n - 1) (drop (spos st) (the (content s))) in
           if t = '''' then Ran (None, s)
           else Ran (Some t, update_stream (the fp) (\<lambda>st. st\<lparr>spos := spos st + length t\<rparr>) s))"

text \<open>\<^verbatim>\<open>scanf("%s", str)\<close> stores the word \<open>w\<close> and its terminator into \<^verbatim>\<open>str\<close>, which has 50 bytes.\<close>

definition scanf_str :: "string \<Rightarrow> io \<Rightarrow> string outcome" where
  "scanf_str w s = (if str_live s \<and> length w < 50 then Ran w else UB s)"

text \<open>
  \<^verbatim>\<open>free(fp)\<close>: the library allocated the stream and releases it in \<^verbatim>\<open>fclose\<close>; \<^verbatim>\<open>free\<close> on a closed
  stream is a second release.
\<close>

definition free_stream :: "nat option \<Rightarrow> io \<Rightarrow> io outcome" where
  "free_stream fp s = (case fp of None \<Rightarrow> Ran s | Some i \<Rightarrow> UB s)"

definition free_str :: "io \<Rightarrow> io outcome" where
  "free_str s = (if str_live s then Ran (s\<lparr>str_live := False\<rparr>) else UB s)"

subsection \<open>The program\<close>

text \<open>
  \<open>w\<close> is the word on standard input, \<open>malloc_ok\<close> whether \<^verbatim>\<open>malloc\<close> finds memory; 384 are the bits
  \<^verbatim>\<open>S_IRUSR|S_IWUSR\<close>. \<^verbatim>\<open>recdStr\<close> has \<^verbatim>\<open>sizeof(str)\<close> bytes; when \<^verbatim>\<open>fgets\<close> reads nothing it
  stays uninitialised and printing it is undefined.
\<close>

definition file_io_main :: "bool \<Rightarrow> nat \<Rightarrow> string \<Rightarrow> io \<Rightarrow> io outcome" where
  "file_io_main malloc_ok ptr w s =
     (let s = io_printf ''You'll Never Walk Alone'' s;
          (fp, s) = fopen R s
      in bind_outcome (fchmod fp 384 s) (\<lambda>s.
         let (fp, s) = fopen W s in
         bind_outcome (fputs ''A'' fp s) (\<lambda>s.
         bind_outcome (fclose fp s) (\<lambda>s.
         let (fp, s) = fopen A s;
             s = s\<lparr>str_live := malloc_ok\<rparr>;
             s = io_printf ''Enter a string:'' s
         in bind_outcome (scanf_str w s) (\<lambda>str.
         bind_outcome (fputs str fp s) (\<lambda>s.
         bind_outcome (fflush fp s) (\<lambda>s.
         bind_outcome (fclose fp s) (\<lambda>s.
         let (fp, s) = fopen R s in
         bind_outcome (fgetc fp s) (\<lambda>(c, s).
         let s = io_printf (''Received character: '' @ (case c of None \<Rightarrow> '''' | Some c \<Rightarrow> [c])) s in
         bind_outcome (fgets ptr fp s) (\<lambda>(r, s).
         case r of None \<Rightarrow> UB s
         | Some recdStr \<Rightarrow>
             let s = io_printf (''Received string: '' @ recdStr) s in
             bind_outcome (fclose fp s) (\<lambda>s.
             bind_outcome (free_stream fp s) free_str)))))))))))"

subsection \<open>What it does\<close>

lemma bind_simps [simp]: "bind_outcome (Ran x) f = f x" "bind_outcome (UB s) f = UB s"
  by (simp_all add: bind_outcome_def)

lemma line_prefix_take: "CHR 0x0A \<notin> set t \<Longrightarrow> line_prefix n t = take n t"
  by (induction n t rule: line_prefix.induct) auto

lemmas stdio_defs = fopen_def fchmod_def fputs_def fflush_def fclose_def fgetc_def fgets_def scanf_str_def
  free_stream_def usable_def update_stream_def io_printf_def

text \<open>
  C38: given a file to start with and a word of 1 to 49 characters, the program writes \<^verbatim>\<open>A\<close> and the word
  to the file and reads back the \<^verbatim>\<open>A\<close>, but of the word only as many characters as fit the size of a
  pointer less one; the stream it opened first is never closed, and it always ends in undefined
  behaviour, because it releases the last stream a second time. Without the file it fails at its
  first use of the stream; a longer word is stored past the end of the array.
\<close>

theorem file_io_outcome:
  assumes "2 \<le> ptr" "w \<noteq> ''''" "CHR 0x0A \<notin> set w" "streams s = []"
  shows "(content s \<noteq> None \<and> length w < 50 \<longrightarrow>
      (\<exists>s'. file_io_main True ptr w s = UB s' \<and> content s' = Some (CHR ''A'' # w) \<and> perms s' = 384 \<and>
        printed s' = printed s @ [''You'll Never Walk Alone'', ''Enter a string:'', ''Received character: A'',
          ''Received string: '' @ take (ptr - 1) w] \<and>
        map sopen (streams s') = [True, False, False, False] \<and> str_live s')) \<and>
    (content s = None \<longrightarrow> file_io_main m ptr w s = UB (io_printf ''You'll Never Walk Alone'' s)) \<and>
    (50 \<le> length w \<longrightarrow> (\<exists>s'. file_io_main m ptr w s = UB s' \<and> content s' \<noteq> Some (CHR ''A'' # w)))"
proof (intro conjI impI)
  assume "content s \<noteq> None \<and> length w < 50"
  then show "\<exists>s'. file_io_main True ptr w s = UB s' \<and> content s' = Some (CHR ''A'' # w) \<and> perms s' = 384 \<and>
      printed s' = printed s @ [''You'll Never Walk Alone'', ''Enter a string:'', ''Received character: A'',
        ''Received string: '' @ take (ptr - 1) w] \<and>
      map sopen (streams s') = [True, False, False, False] \<and> str_live s'"
    using assms by (simp add: file_io_main_def stdio_defs Let_def line_prefix_take)
next
  assume "content s = None"
  then show "file_io_main m ptr w s = UB (io_printf ''You'll Never Walk Alone'' s)"
    by (simp add: file_io_main_def fopen_def fchmod_def usable_def io_printf_def)
next
  assume "50 \<le> length w"
  then show "\<exists>s'. file_io_main m ptr w s = UB s' \<and> content s' \<noteq> Some (CHR ''A'' # w)"
    using assms by (cases "content s") (auto simp: file_io_main_def stdio_defs Let_def)
qed

text \<open>A file that exists, on a machine with 4-byte pointers.\<close>

definition sample_io :: io where
  "sample_io = \<lparr>content = Some ''old'', perms = 0, streams = [], printed = [], str_live = False\<rparr>"

theorem file_io_outcome_witness:
  "\<exists>s'. file_io_main True 4 ''Liverpool'' sample_io = UB s' \<and> content s' = Some ''ALiverpool'' \<and>
     last (printed s') = ''Received string: Liv''"
proof -
  have "streams sample_io = []" "content sample_io \<noteq> None" by (simp_all add: sample_io_def)
  then show ?thesis using file_io_outcome [of 4 "''Liverpool''" sample_io] by auto
qed

end
