(* ===== verification/Spec2Isabelle.thy ===== *)
theory Spec2Isabelle
  imports SyscallPrograms AnimalList TimerModule CredProperties RlimitProperties ProcessGroups Priority
    FirmwareConfig SharedMemProperties PipeProperties Sockets PthreadMain
    SystemInfo UtsNames Prctl ResourceUsage FileIO
begin

text \<open>
  \<^bold>\<open>Verification of the APES programs.\<close>

  The repository holds the solutions of five homework sets: a Linux kernel source file with an
  added system call, two kernel modules, user programs, and the firmware of a temperature and LED
  board on FreeRTOS. They are independent programs, so the development has one group of theories
  per program; the parts of a program meet in the theories named below.

  \<^bold>\<open>Conventions.\<close> A C function is a HOL function of the same name on an explicit state record,
  which it returns updated. Integers keep their width where wrap-around matters (\<open>u8\<close> to \<open>u64\<close>,
  and \<^verbatim>\<open>unsigned long\<close> as a word of arbitrary width). Error returns are values; undefined behaviour
  (an access outside an array, a NULL or freed object, signed overflow) and loops that do not
  end are \<^const>\<open>None\<close>, so that a result \<^const>\<open>Some\<close> also says that none of these happened. Code
  that is not part of the repository (kernel subsystems, drivers, FreeRTOS queues, user memory)
  is a parameter, a record of functions; what is documented of it is a locale or a named
  predicate, with an instance for which it holds. Loops that may not end are partial functions into
  \<open>option\<close> or step relations; no fuel is used.

  \<^bold>\<open>Prelude.\<close> \<open>Prelude\<close> has the integer types, error numbers, checked array accesses and shared
  lemmas; \<open>UserMemory\<close> the byte interface to user memory (locale \<open>user_memory\<close>).

  \<^bold>\<open>The kernel file\<close> \<^verbatim>\<open>src/HW2/Ques5/sys.c\<close>.
  \<^item> \<open>MergeSort\<close> and \<open>SortSyscall\<close>: \<^verbatim>\<open>mergeSort\<close> and the added call \<^verbatim>\<open>kMergeSort\<close>. The sort is shown to sort
    its slice in place within the array; the call sorts the user's buffer, and fails, leaks or overflows
    as stated.
  \<^item> \<open>Credentials\<close>, \<open>CredSafety\<close>, \<open>CredProperties\<close>: the calls that set and read user and group IDs. No
    sequence of calls gives an unprivileged task an ID it did not hold, prepared credentials are
    released or committed once, a privileged \<^verbatim>\<open>setuid\<close> is final.
  \<^item> \<open>ResourceLimits\<close>, \<open>RlimitProperties\<close>: \<^verbatim>\<open>do_prlimit\<close> and its callers on the limits of thread groups; soft limits stay below hard
    limits (but for a CPU limit of 0), hard limits only drop, formats convert with saturation.
  \<^item> \<open>ProcessGroups\<close>, \<open>Priority\<close>: \<^verbatim>\<open>setpgid\<close>, \<^verbatim>\<open>setsid\<close> and \<^verbatim>\<open>setpriority\<close> with their readers; groups never
    span sessions, priorities change only as permitted.
  \<^item> \<open>MemoryMap\<close>, \<open>MemoryMapProperties\<close>: \<^verbatim>\<open>prctl_set_mm\<close> and all it calls. The layout of a process stays
    in range and ordered, the auxiliary vector stays terminated and free of stack bytes, file
    references balance (locale \<open>file_refs\<close>), the lock is released on every path. On 32-bit kernels
    the heap check of a whole map is shown to look at other numbers than those stored.
  \<^item> \<open>Prctl\<close>: the call \<^verbatim>\<open>prctl\<close> on top of it; attributes read back as set, no sequence of calls clears
    no-new-privileges or leaves the memory map locked, and one error path that changes state.
  \<^item> \<open>UtsNames\<close>: host and domain name and the three \<^verbatim>\<open>uname\<close> calls; names round trip, every reported
    field is terminated, no byte outside the caller's structure is touched.
  \<^item> \<open>SystemInfo\<close>: \<^verbatim>\<open>sysinfo\<close> and its compat variant; byte counts are kept exactly, the 32-bit view
    rounds down by less than a unit below \<open>2 ^ (32 + p)\<close> bytes for pages of \<open>2 ^ p\<close> bytes.
  \<^item> \<open>ResourceUsage\<close>: \<^verbatim>\<open>getrusage\<close> equals a counter-wise sum; \<^verbatim>\<open>times\<close>, \<^verbatim>\<open>umask\<close>, \<^verbatim>\<open>getcpu\<close> and the
    identifiers are modelled.

  \<^bold>\<open>The system call interface\<close> \<^verbatim>\<open>syscalls.h\<close>, \<^verbatim>\<open>syscall.tbl\<close> (\<^verbatim>\<open>src/HW2/Ques5\<close>).
  \<^item> \<open>SyscallMacros\<close>: the macros that define a system call, with C types as data and a parameter for
    the ABI. The generated wrapper hands the body the arguments of the caller for every width of
    \<^verbatim>\<open>long\<close>; the trace metadata and the check of the address limit are modelled too.
  \<^item> \<open>SyscallHeader\<close>, \<open>SyscallHeads\<close>: all prototypes of the header under its conditionals, and the heads of
    the calls of \<^verbatim>\<open>sys.c\<close>, which agree with them.
  \<^item> \<open>SyscallTable\<close>: all lines of the ARM table, the look-up of a number, and the entry points of the numbers the
    test programs use.
  \<^item> \<open>SyscallPrograms\<close>: \<^verbatim>\<open>syscalltest.c\<close> and \<^verbatim>\<open>crontest.c\<close> (\<^verbatim>\<open>src/HW2/Ques6\<close>), composed with number, table, wrapper
    and \<^verbatim>\<open>kMergeSort\<close>: what they print and what their buffers hold at the end, over any user access and
    stores of the program that satisfy the laws of the locale \<open>user_program\<close> (it extends \<open>user_access\<close>).

  \<^bold>\<open>Kernel modules\<close> \<^verbatim>\<open>src/HW3\<close>.
  \<^item> \<open>AnimalList\<close>: \<^verbatim>\<open>linkedListModule.c\<close>; the list is sorted with exact counts, filters print what
    they select, and the exit function reads freed memory.
  \<^item> \<open>TimerModule\<close>: \<^verbatim>\<open>timermodule.c\<close>; ten iterations at the configured period.

  \<^bold>\<open>User programs\<close> \<^verbatim>\<open>src/HW2/Ques2\<close> and \<^verbatim>\<open>src/HW4\<close>.
  \<^item> \<open>IpcMessages\<close>: the messages of the three communication programs.
  \<^item> \<open>SharedMem\<close>, \<open>Handover\<close>, \<open>Exchange\<close>, \<open>SharedMemProperties\<close>: \<^verbatim>\<open>sharedMem.c\<close>, both processes statement by
    statement over every interleaving. \<open>Handover\<close> has the invariants of the two semaphores,
    \<open>Exchange\<close> the locale in which completion is proved once from a measure; \<open>SharedMemProperties\<close>
    interprets it. Accesses alternate and return the last write; the exchange completes if the
    parent's sleep is long enough, and need not if it is short. A complete run takes 196 steps.
  \<^item> \<open>Pipes\<close>, \<open>PipeExchange\<close>, \<open>PipeProperties\<close>: \<^verbatim>\<open>pipestest.c\<close> in the same way over two FIFOs; messages
    arrive in order and the processes never wait for each other for ever.
  \<^item> \<open>Sockets\<close>: \<^verbatim>\<open>socketClient.c\<close> and \<^verbatim>\<open>socketServer.c\<close> as functions of the packets received.
  \<^item> \<open>Pthreads\<close>, \<open>PthreadMain\<close>: the two threads of \<^verbatim>\<open>pthreadtest.c\<close> and \<^verbatim>\<open>main\<close> as their composition over
    the shared signal variables.
  \<^item> \<open>FileIO\<close>: \<^verbatim>\<open>file_io.c\<close> over a model of C library streams.

  \<^bold>\<open>Firmware\<close> \<^verbatim>\<open>src/HW5/CCS_Homework5\<close>.
  \<^item> \<open>TimerTime\<close>, \<open>TimerService\<close>, \<open>TimerCorrect\<close>, \<open>TimerSwitch\<close>, \<open>TimerCommands\<close>, \<open>TimerRound\<close>,
    \<open>TimerCatchUp\<close>, \<open>TimerProperties\<close>: the timer service \<^verbatim>\<open>utils/timers.c\<close>. \<open>TimerTime\<close> relates the 32-bit tick
    count to unbounded time; \<open>TimerService\<close> is the model; the other theories show that the lists hold
    the deadlines of an abstract timer service, that commands, expiry and the switch of the
    lists at the wrap of the tick count do what they should. \<open>TimerRound\<close> shows that a round of the
    task ends while the clock runs, up to \<open>d\<close> ticks between two readings and across wraps, when every
    period exceeds \<open>40 * d\<close> ticks, and that it need not end when the clock is fast against a period.
    Effects of single commands are stated at one instant. Commands that other tasks send during
    a round count as sent before or after it; callbacks change the application's state only.
  \<^item> \<open>SensorBus\<close>: \<^verbatim>\<open>i2cHelper.c\<close> and the conversion of \<^verbatim>\<open>tempSensor.c\<close>. The busy flag depends on the
    commands issued: idle, busy, idle after each. The register read is exact if every transfer is seen
    busy by a poll and does not return otherwise.
  \<^item> \<open>Firmware\<close>, \<open>FirmwareProperties\<close>: the four tasks (\<^verbatim>\<open>tempSensor.c\<close>, \<^verbatim>\<open>LED.c\<close>, \<^verbatim>\<open>logger.c\<close>), the callbacks
    and \<^verbatim>\<open>main.c\<close> over every interleaving of whole passes of their loops; start-up arms the timers of \<open>TimerService\<close>.
  \<^item> \<open>Startup\<close>: \<^verbatim>\<open>startup_ccs.c\<close> and the board set-up of \<^verbatim>\<open>main.c\<close>; the vector table and the
    handlers; an unexpected interrupt stops the firmware.
  \<^item> \<open>FirmwareConfig\<close>: the constants of \<^verbatim>\<open>FreeRTOSConfig.h\<close> and the tasks with their priorities and
    stacks; the limits fit, and start-up with the timer service turns periods in milliseconds into
    the right deadlines.

  \<^bold>\<open>Not modelled.\<close> Locks of the kernel other than those named (each call runs on its own),
  time stamps and number formatting in log lines, terminal output of the user programs other than
  what is stated, the pended function calls and the task handle of the timer service (configured out:
  \<^verbatim>\<open>FreeRTOSConfig.h\<close> does not select them), the forward declarations of structures in \<^verbatim>\<open>syscalls.h\<close>, the other
  header files of the firmware (declarations), scripts and build products.
\<close>

end
